(* ===== verification/Prelude.thy ===== *)
theory Prelude
  imports Main "HOL-Library.Word"
begin

text \<open>
  The shared vocabulary of the development: the C integer types and conversions the sources
  use, the outcome of a C function that may abort or run into undefined behaviour, the error
  codes of the public API, and the generic lemmas on lists and words that the component
  theories rely on.
\<close>

unbundle bit_operations_syntax

section \<open>Named collections\<close>

named_theorems c_monad \<open>rewrite rules for the outcome combinators\<close>

section \<open>Machine integers\<close>

type_synonym u8 = "8 word"
type_synonym u16 = "16 word"
type_synonym u32 = "32 word"
type_synonym u64 = "64 word"

text \<open>
  A C \<open>int\<close> is modelled as an \<open>int\<close>; the two conversions the sources perform implicitly, to
  \<open>size_t\<close> (64 bits, unsigned) and back to \<open>int\<close> (32 bits, two's complement), are written out.
\<close>

definition c_size :: "int \<Rightarrow> int" where
  "c_size x = x mod 2 ^ 64"

definition c_int :: "int \<Rightarrow> int" where
  "c_int x = (x + 2 ^ 31) mod 2 ^ 32 - 2 ^ 31"

lemma c_size_id [simp]: "0 \<le> x \<Longrightarrow> x < 2 ^ 64 \<Longrightarrow> c_size x = x"
  by (simp add: c_size_def)

lemma c_int_id [simp]: "- (2 ^ 31) \<le> x \<Longrightarrow> x < 2 ^ 31 \<Longrightarrow> c_int x = x"
  by (simp add: c_int_def)

text \<open>The \<open>max\<close> macro of \<^verbatim>\<open>votequorum.c\<close> at an unsigned type is the order's maximum.\<close>

definition c_max :: "'a::linorder \<Rightarrow> 'a \<Rightarrow> 'a" where
  "c_max a b = (if a > b then a else b)"

lemma c_max_max [simp]: "c_max a b = max a b"
  by (auto simp: c_max_def)

text \<open>The \<^verbatim>\<open>errno\<close> values the modelled functions return.\<close>

definition ENOMEM :: int where
  "ENOMEM = 12"

definition ENOENT :: int where
  "ENOENT = 2"

section \<open>Outcomes\<close>

text \<open>
  \<open>Inl e\<close> is an execution that does not return normally: a failed \<^verbatim>\<open>assert\<close>, or one of the
  undefined behaviours of C that the sources can run into. \<open>Inr v\<close> is a normal return.
\<close>

datatype c_error =
    AssertFailed
  | OutOfBounds
  | DivideByZero
  | NullPointer
  | ListHeadUnlinked

type_synonym 'a c_result = "c_error + 'a"

definition bindE :: "'a c_result \<Rightarrow> ('a \<Rightarrow> 'b c_result) \<Rightarrow> 'b c_result" where
  "bindE m f = (case m of Inl e \<Rightarrow> Inl e | Inr v \<Rightarrow> f v)"

definition assertE :: "bool \<Rightarrow> unit c_result" where
  "assertE b = (if b then Inr () else Inl AssertFailed)"

lemma bindE_Inl [simp, c_monad]: "bindE (Inl e) f = Inl e"
  by (simp add: bindE_def)

lemma bindE_Inr [simp, c_monad]: "bindE (Inr v) f = f v"
  by (simp add: bindE_def)

lemma bindE_eq_Inr [c_monad]: "bindE m f = Inr r \<longleftrightarrow> (\<exists>v. m = Inr v \<and> f v = Inr r)"
  by (cases m) auto

lemma bindE_eq_Inl: "bindE m f = Inl e \<longleftrightarrow> m = Inl e \<or> (\<exists>v. m = Inr v \<and> f v = Inl e)"
  by (cases m) auto

lemma bindE_assoc: "bindE (bindE m f) g = bindE m (\<lambda>x. bindE (f x) g)"
  by (cases m) auto

lemma assertE_simps [simp, c_monad]: "assertE True = Inr ()" "assertE False = Inl AssertFailed"
  by (simp_all add: assertE_def)

lemma assertE_eq_Inr [c_monad]: "assertE b = Inr u \<longleftrightarrow> b"
  by (simp add: assertE_def)

text \<open>Reading and writing one element of a C array, with the index checked.\<close>

definition array_get :: "'a list \<Rightarrow> int \<Rightarrow> 'a c_result" where
  "array_get xs i = (if 0 \<le> i \<and> nat i < length xs then Inr (xs ! nat i) else Inl OutOfBounds)"

definition array_set :: "'a list \<Rightarrow> int \<Rightarrow> 'a \<Rightarrow> 'a list c_result" where
  "array_set xs i v = (if 0 \<le> i \<and> nat i < length xs then Inr (xs[nat i := v]) else Inl OutOfBounds)"

lemma array_get_ok [simp]: "0 \<le> i \<Longrightarrow> nat i < length xs \<Longrightarrow> array_get xs i = Inr (xs ! nat i)"
  by (simp add: array_get_def)

lemma array_set_ok [simp]: "0 \<le> i \<Longrightarrow> nat i < length xs \<Longrightarrow> array_set xs i v = Inr (xs[nat i := v])"
  by (simp add: array_set_def)

lemma unat_u32_less: "unat (a :: u32) < 2 ^ 32"
  using unsigned_less [of a, where ?'a = nat] by simp

lemma unat_u8_less: "unat (a :: u8) < 256"
  using unsigned_less [of a, where ?'a = nat] by simp

lemma unat_ucast_u8_u32 [simp]: "unat (ucast (x :: u8) :: u32) = unat x"
  using unat_u8_less [of x] by (simp add: unsigned_ucast_eq take_bit_nat_eq_self)

lemma unat_ucast_u32_u8: "unat (ucast (x :: u32) :: u8) = unat x mod 256"
  by (simp add: unsigned_ucast_eq take_bit_eq_mod)

section \<open>API error codes\<close>

datatype cs_error =
    CS_OK | CS_ERR_LIBRARY | CS_ERR_VERSION | CS_ERR_INIT | CS_ERR_TIMEOUT | CS_ERR_TRY_AGAIN
  | CS_ERR_INVALID_PARAM | CS_ERR_NO_MEMORY | CS_ERR_BAD_HANDLE | CS_ERR_BUSY | CS_ERR_ACCESS
  | CS_ERR_NOT_EXIST | CS_ERR_NAME_TOO_LONG | CS_ERR_EXIST | CS_ERR_NO_SPACE | CS_ERR_INTERRUPT
  | CS_ERR_NAME_NOT_FOUND | CS_ERR_NO_RESOURCES | CS_ERR_NOT_SUPPORTED | CS_ERR_BAD_OPERATION
  | CS_ERR_FAILED_OPERATION | CS_ERR_MESSAGE_ERROR | CS_ERR_QUEUE_FULL
  | CS_ERR_QUEUE_NOT_AVAILABLE | CS_ERR_BAD_FLAGS | CS_ERR_TOO_BIG | CS_ERR_NO_SECTIONS
  | CS_ERR_CONTEXT_NOT_FOUND | CS_ERR_TOO_MANY_GROUPS | CS_ERR_SECURITY

text \<open>The number of processors a ring can have (\<^verbatim>\<open>totem.h\<close>).\<close>

definition PROCESSOR_COUNT_MAX :: nat where
  "PROCESSOR_COUNT_MAX = 384"

end
