(* ===== verification/C_Strings.thy ===== *)
theory C_Strings
  imports Prelude
begin

text \<open>
  The parts of the C string library that the modelled sources call: decimal conversion with
  \<^verbatim>\<open>strtol\<close>, \<^verbatim>\<open>atoi\<close> and the \<^verbatim>\<open>%u\<close> conversions of \<^verbatim>\<open>sscanf\<close> and \<^verbatim>\<open>snprintf\<close>, for the C locale
  and a 64-bit \<open>long\<close>. A C string is a \<open>string\<close> without its terminating zero.
\<close>

section \<open>Characters\<close>

definition c_isspace :: "char \<Rightarrow> bool" where
  "c_isspace c \<longleftrightarrow> c = CHR '' '' \<or> (9 \<le> (of_char c :: nat) \<and> (of_char c :: nat) \<le> 13)"

definition c_isdigit :: "char \<Rightarrow> bool" where
  "c_isdigit c \<longleftrightarrow> 48 \<le> (of_char c :: nat) \<and> (of_char c :: nat) \<le> 57"

definition c_digit :: "char \<Rightarrow> nat" where
  "c_digit c = of_char c - 48"

definition digit_char :: "nat \<Rightarrow> char" where
  "digit_char n = char_of (48 + n)"

lemma digit_char [simp]:
  assumes "n < 10"
  shows "c_isdigit (digit_char n)" "c_digit (digit_char n) = n" "\<not> c_isspace (digit_char n)"
proof -
  have "(of_char (digit_char n) :: nat) = 48 + n"
    using assms by (simp add: digit_char_def)
  moreover have "(of_char (CHR '' '') :: nat) = 32" by simp
  ultimately show "c_isdigit (digit_char n)" "c_digit (digit_char n) = n" "\<not> c_isspace (digit_char n)"
    using assms by (auto simp: c_isdigit_def c_digit_def c_isspace_def)
qed

section \<open>Decimal numbers\<close>

definition dec_val :: "string \<Rightarrow> nat" where
  "dec_val ds = foldl (\<lambda>a c. 10 * a + c_digit c) 0 ds"

text \<open>What \<^verbatim>\<open>%u\<close> prints.\<close>

fun dec_string :: "nat \<Rightarrow> string" where
  "dec_string n =
     (if n < 10 then [digit_char n] else dec_string (n div 10) @ [digit_char (n mod 10)])"

declare dec_string.simps [simp del]

lemma dec_string_digits: "list_all c_isdigit (dec_string n)"
  by (induction n rule: dec_string.induct) (subst dec_string.simps, auto)

lemma dec_string_nonempty [simp]: "dec_string n \<noteq> []"
  by (subst dec_string.simps) simp

lemma dec_val_dec_string [simp]: "dec_val (dec_string n) = n"
proof (induction n rule: dec_string.induct)
  case (1 n)
  show ?case
  proof (cases "n < 10")
    case True
    then show ?thesis by (subst dec_string.simps) (simp add: dec_val_def)
  next
    case False
    then have "dec_val (dec_string n) = 10 * dec_val (dec_string (n div 10)) + n mod 10"
      by (subst dec_string.simps) (simp add: dec_val_def)
    then show ?thesis using 1 False by simp
  qed
qed

text \<open>\<^verbatim>\<open>strtol (s, &end, 10)\<close>: the value and the rest of the string.\<close>

definition LONG_MAX :: int where
  "LONG_MAX = 2 ^ 63 - 1"

definition c_sign :: "string \<Rightarrow> bool \<times> string" where
  "c_sign s = (case s of
      [] \<Rightarrow> (False, [])
    | c # cs \<Rightarrow> if c = CHR ''-'' then (True, cs) else if c = CHR ''+'' then (False, cs) else (False, s))"

definition strtol10 :: "string \<Rightarrow> int \<times> string" where
  "strtol10 s =
     (let (neg, t) = c_sign (dropWhile c_isspace s); ds = takeWhile c_isdigit t
      in if ds = [] then (0, s)
         else (if neg then max (- LONG_MAX - 1) (- int (dec_val ds)) else min LONG_MAX (int (dec_val ds)),
               dropWhile c_isdigit t))"

definition atoi :: "string \<Rightarrow> int" where
  "atoi s = c_int (fst (strtol10 s))"

text \<open>
  The \<^verbatim>\<open>%u\<close> conversion of \<^verbatim>\<open>sscanf\<close>: \<^verbatim>\<open>strtoul\<close> on 64 bits, stored into an \<open>unsigned int\<close>.
  \<open>None\<close> is a matching failure.
\<close>

definition scan_u :: "string \<Rightarrow> (u32 \<times> string) option" where
  "scan_u s =
     (let (neg, t) = c_sign (dropWhile c_isspace s); ds = takeWhile c_isdigit t; n = dec_val ds
      in if ds = [] then None
         else Some (if n \<ge> 2 ^ 64 then - 1 else if neg then - of_nat n else of_nat n, dropWhile c_isdigit t))"

section \<open>Printing and reading back\<close>

definition no_digit_first :: "string \<Rightarrow> bool" where
  "no_digit_first s \<longleftrightarrow> (case s of [] \<Rightarrow> True | c # _ \<Rightarrow> \<not> c_isdigit c)"

lemma takeWhile_digits:
  assumes "list_all c_isdigit ds" "no_digit_first r"
  shows "takeWhile c_isdigit (ds @ r) = ds" "dropWhile c_isdigit (ds @ r) = r"
  using assms by (induction ds) (auto simp: no_digit_first_def split: list.splits)

lemma digit_not_sign: "c_isdigit c \<Longrightarrow> c \<noteq> CHR ''-'' \<and> c \<noteq> CHR ''+'' \<and> \<not> c_isspace c"
  by (auto simp: c_isdigit_def c_isspace_def)

lemma sign_dec_string: "c_sign (dropWhile c_isspace (dec_string n @ r)) = (False, dec_string n @ r)"
proof -
  obtain c cs where c: "dec_string n = c # cs" by (cases "dec_string n") auto
  then have "c_isdigit c" using dec_string_digits [of n] by simp
  then show ?thesis using c digit_not_sign [of c] by (simp add: c_sign_def)
qed

lemma strtol10_dec_string:
  assumes "no_digit_first r" "int n \<le> LONG_MAX"
  shows "strtol10 (dec_string n @ r) = (int n, r)"
  using assms sign_dec_string [of n r] takeWhile_digits [OF dec_string_digits [of n] assms(1)]
  by (simp add: strtol10_def min_def)

lemma strtol10_skip: "c_isspace c \<Longrightarrow> fst (strtol10 (c # s)) = fst (strtol10 s)"
  "c_isspace c \<Longrightarrow> strtol10 (c # s) = (x, r) \<Longrightarrow> x \<noteq> 0 \<Longrightarrow> strtol10 s = (x, r)"
  by (auto simp: strtol10_def Let_def split: prod.splits if_splits)

lemma scan_u_dec_string:
  assumes "no_digit_first r" "n < 2 ^ 64"
  shows "scan_u (dec_string n @ r) = Some (of_nat n, r)"
  using assms sign_dec_string [of n r] takeWhile_digits [OF dec_string_digits [of n] assms(1)]
  by (simp add: scan_u_def)

text \<open>A conversion that returns a non-zero number has consumed a character.\<close>

lemma length_dropWhile_digit: "takeWhile P t \<noteq> [] \<Longrightarrow> length (dropWhile P t) < length t"
  by (cases t) (auto simp: le_imp_less_Suc length_dropWhile_le split: if_splits)

lemma length_c_sign: "length (snd (c_sign s)) \<le> length s"
  by (auto simp: c_sign_def split: list.splits)

lemma strtol10_consumes:
  assumes "strtol10 s = (x, r)" "x \<noteq> 0"
  shows "length r < length s"
proof -
  obtain neg t where sign: "c_sign (dropWhile c_isspace s) = (neg, t)" by fastforce
  have "takeWhile c_isdigit t \<noteq> []" and r: "r = dropWhile c_isdigit t"
    using assms sign by (auto simp: strtol10_def Let_def split: if_splits)
  then have "length r < length t" by (simp add: length_dropWhile_digit)
  also have "length t \<le> length (dropWhile c_isspace s)"
    using length_c_sign [of "dropWhile c_isspace s"] sign by simp
  also have "\<dots> \<le> length s" by (rule length_dropWhile_le)
  finally show ?thesis .
qed

end
