(* ===== verification/Vq_State.thy ===== *)
theory Vq_State
  imports C_Strings
begin

text \<open>
  The state of \<^verbatim>\<open>exec/votequorum.c\<close>: its static variables as one record, the node database, the
  messages it sends and receives, and what it uses of its surroundings.

  \<^item> \<open>cluster_nodes\<close> is the pre-allocated array; \<open>us\<close>, \<open>qdevice\<close> and the elements of
    \<open>cluster_members_list\<close>, pointers in the code, are indexes into it.
  \<^item> \<open>corosync_api\<close> is the table of engine functions. \<open>totem_mcast\<close> is a parameter: it receives
    the number of effects so far, so that its result may differ from call to call.
  \<^item> \<open>icmap\<close> is the contents of the configuration map, by key.
  \<^item> \<open>os\<close> is what the code uses of files: open descriptors and contents.
  \<^item> \<open>effects\<close> records, in order, what the code asks of its surroundings: multicasts, responses
    and notifications to library clients, timers, the quorum callback.

  \<^verbatim>\<open>log_printf\<close> and the \<^verbatim>\<open>ENTER\<close>/\<^verbatim>\<open>LEAVE\<close> traces have no effect on the state and are left out.
\<close>

section \<open>Constants\<close>

definition NODE_FLAGS_QUORATE :: u32 where "NODE_FLAGS_QUORATE = 1"
definition NODE_FLAGS_LEAVING :: u32 where "NODE_FLAGS_LEAVING = 2"
definition NODE_FLAGS_WFASTATUS :: u32 where "NODE_FLAGS_WFASTATUS = 4"
definition NODE_FLAGS_FIRST :: u32 where "NODE_FLAGS_FIRST = 8"
definition NODE_FLAGS_QDEVICE_REGISTERED :: u32 where "NODE_FLAGS_QDEVICE_REGISTERED = 16"
definition NODE_FLAGS_QDEVICE_ALIVE :: u32 where "NODE_FLAGS_QDEVICE_ALIVE = 32"
definition NODE_FLAGS_QDEVICE_CAST_VOTE :: u32 where "NODE_FLAGS_QDEVICE_CAST_VOTE = 64"
definition NODE_FLAGS_QDEVICE_MASTER_WINS :: u32 where "NODE_FLAGS_QDEVICE_MASTER_WINS = 128"
definition NODE_FLAGS_QDEVICE_EXTRA_INFO_SET :: u32 where "NODE_FLAGS_QDEVICE_EXTRA_INFO_SET = 256"

lemmas node_flags_defs =
  NODE_FLAGS_QUORATE_def NODE_FLAGS_LEAVING_def NODE_FLAGS_WFASTATUS_def NODE_FLAGS_FIRST_def
  NODE_FLAGS_QDEVICE_REGISTERED_def NODE_FLAGS_QDEVICE_ALIVE_def NODE_FLAGS_QDEVICE_CAST_VOTE_def
  NODE_FLAGS_QDEVICE_MASTER_WINS_def NODE_FLAGS_QDEVICE_EXTRA_INFO_SET_def

text \<open>\<open>flags & f\<close> as a condition, \<open>flags |= f\<close> and \<open>flags &= ~f\<close>.\<close>

definition has_flag :: "u32 \<Rightarrow> u32 \<Rightarrow> bool" where
  "has_flag fl f \<longleftrightarrow> fl AND f \<noteq> 0"

definition set_flag :: "u32 \<Rightarrow> u32 \<Rightarrow> u32" where
  "set_flag f fl = fl OR f"

definition clear_flag :: "u32 \<Rightarrow> u32 \<Rightarrow> u32" where
  "clear_flag f fl = fl AND NOT f"

definition VOTEQUORUM_QDEVICE_NODEID :: u32 where "VOTEQUORUM_QDEVICE_NODEID = 0"
definition VOTEQUORUM_QDEVICE_MAX_NAME_LEN :: nat where "VOTEQUORUM_QDEVICE_MAX_NAME_LEN = 255"
definition VOTEQUORUM_QDEVICE_DEFAULT_TIMEOUT :: u32 where "VOTEQUORUM_QDEVICE_DEFAULT_TIMEOUT = 10000"
definition VOTEQUORUM_QDEVICE_DEFAULT_SYNC_TIMEOUT :: u32 where
  "VOTEQUORUM_QDEVICE_DEFAULT_SYNC_TIMEOUT = 30000"
definition VOTEQUORUM_QDEVICE_EXTRA_NODEINFO_MAXSIZE :: u32 where
  "VOTEQUORUM_QDEVICE_EXTRA_NODEINFO_MAXSIZE = 4096"
definition VOTEQUORUM_RECONFIG_PARAM_EXPECTED_VOTES :: u8 where
  "VOTEQUORUM_RECONFIG_PARAM_EXPECTED_VOTES = 1"
definition VOTEQUORUM_RECONFIG_PARAM_NODE_VOTES :: u8 where "VOTEQUORUM_RECONFIG_PARAM_NODE_VOTES = 2"
definition VOTEQUORUM_RECONFIG_PARAM_CANCEL_WFA :: u8 where "VOTEQUORUM_RECONFIG_PARAM_CANCEL_WFA = 3"
definition VOTEQUORUM_QDEVICE_OPERATION_UNREGISTER :: u32 where
  "VOTEQUORUM_QDEVICE_OPERATION_UNREGISTER = 0"
definition VOTEQUORUM_QDEVICE_OPERATION_REGISTER :: u32 where
  "VOTEQUORUM_QDEVICE_OPERATION_REGISTER = 1"
definition DEFAULT_LMS_WIN :: u32 where "DEFAULT_LMS_WIN = 10000"

lemmas vq_param_defs =
  VOTEQUORUM_RECONFIG_PARAM_EXPECTED_VOTES_def VOTEQUORUM_RECONFIG_PARAM_NODE_VOTES_def
  VOTEQUORUM_RECONFIG_PARAM_CANCEL_WFA_def VOTEQUORUM_QDEVICE_OPERATION_UNREGISTER_def
  VOTEQUORUM_QDEVICE_OPERATION_REGISTER_def

section \<open>The node database\<close>

text \<open>
  \<open>NODESTATE_ZERO\<close> is the value 0 that \<^verbatim>\<open>memset\<close> gives the state of a newly allocated node; it is
  none of the enumerators. \<open>node_id\<close> is an \<open>int\<close> in the code: it is kept as 32 bits, read with
  \<open>sint\<close> where the code compares it as a signed number.
\<close>

datatype nodestate = NODESTATE_ZERO | NODESTATE_MEMBER | NODESTATE_DEAD | NODESTATE_LEAVING

record cluster_node =
  node_id :: u32
  state :: nodestate
  votes :: u32
  expected_votes :: u32
  flags :: u32
  ei_size :: u32
  extra_nodeinfo :: "u8 list"

definition node_zero :: cluster_node where
  "node_zero = \<lparr>node_id = 0, state = NODESTATE_ZERO, votes = 0, expected_votes = 0, flags = 0,
     ei_size = 0, extra_nodeinfo = replicate (unat VOTEQUORUM_QDEVICE_EXTRA_NODEINFO_MAXSIZE) 0\<rparr>"

section \<open>Messages between nodes\<close>

record req_exec_quorum_nodeinfo =
  ni_nodeid :: u32
  ni_votes :: u32
  ni_expected_votes :: u32
  ni_flags :: u32

record req_exec_quorum_reconfigure =
  rc_nodeid :: u32
  rc_value :: u32
  rc_param :: u8

record req_exec_quorum_qdevice_reg =
  qr_operation :: u32
  qr_qdevice_name :: string

record req_exec_quorum_qdevice_reconfigure =
  qc_oldname :: string
  qc_newname :: string

record req_exec_quorum_qdevice_set_extra_info =
  ex_nodeid :: u32
  ex_ei_size :: u32
  ex_extra_info :: "u8 list"

datatype exec_msg =
    ExecNodeinfo req_exec_quorum_nodeinfo
  | ExecReconfigure req_exec_quorum_reconfigure
  | ExecQdeviceReg req_exec_quorum_qdevice_reg
  | ExecQdeviceReconfigure req_exec_quorum_qdevice_reconfigure
  | ExecQdeviceExtraNodeinfo req_exec_quorum_qdevice_set_extra_info

section \<open>Messages to library clients\<close>

record memb_ring_id =
  ring_nodeid :: u32
  ring_seq :: u64

record res_lib_votequorum_getinfo =
  gi_nodeid :: u32
  gi_state :: nodestate
  gi_votes :: u32
  gi_expected_votes :: u32
  gi_highest_expected :: u32
  gi_total_votes :: u32
  gi_quorum :: u32
  gi_flags :: u32
  gi_qdevice_votes :: u32
  gi_qdevice_name :: string

text \<open>
  \<open>context\<close> comes first in the notifications. The body of a \<open>getinfo\<close> or
  \<open>get_extra_info\<close> response is only filled in when there is no error.
\<close>

datatype lib_msg =
    ResStatus cs_error
  | ResGetinfo cs_error "res_lib_votequorum_getinfo option"
  | QuorumNotification u64 u8 "(u32 \<times> nodestate) list"
  | NodelistNotification u64 memb_ring_id "u32 list"
  | ExpectedVotesNotification u64 u32
  | ExtraInfoNotification u64 u32 u32 "u8 list"
  | ResGetExtraInfo cs_error "(u32 \<times> u8 list) option"

section \<open>Surroundings\<close>

datatype icmap_value = IC_U8 u8 | IC_I32 u32 | IC_U32 u32 | IC_String string | IC_Other

datatype vq_timer = QdeviceTimer | LastManStandingTimer

type_synonym conn = nat

datatype effect =
    Mcast exec_msg
  | IpcResponse conn lib_msg
  | IpcDispatch conn lib_msg
  | QuorumCallback "u32 list" u8 memb_ring_id
  | TimerAdd vq_timer u64
  | TimerDelete vq_timer
  | IcmapTrackAdd string
  | IcmapSetRo string
  | ErrorMemoryFailure

record corosync_api_v1 =
  totem_mcast :: "nat \<Rightarrow> exec_msg \<Rightarrow> int"
  totem_nodeid_get :: u32

text \<open>
  \<open>EvTracking\<close> is the file \<^verbatim>\<open>ev_tracking\<close> of the state directory. \<open>os_open_fd\<close>, a parameter, is the
  descriptor \<^verbatim>\<open>open\<close> returns (-1 on failure), \<open>os_write\<close> what a \<^verbatim>\<open>write\<close> of some bytes at offset 0
  makes of a file.
\<close>

datatype os_file = EvTracking | OtherFile nat | Unseekable nat

record os_state =
  os_fds :: "int \<rightharpoonup> os_file"
  os_content :: "os_file \<rightharpoonup> u8 list"
  os_open_fd :: "(int \<rightharpoonup> os_file) \<Rightarrow> int"
  os_write :: "u8 list \<Rightarrow> u8 list \<Rightarrow> u8 list"

text \<open>The private data of a library connection.\<close>

record quorum_pd =
  track_flags :: u8
  tracking_enabled :: bool
  tracking_context :: u64

datatype atb = ATB_NONE | ATB_LOWEST | ATB_HIGHEST | ATB_LIST

section \<open>The state\<close>

record vq_state =
  corosync_api :: corosync_api_v1
  icmap :: "string \<rightharpoonup> icmap_value"
  os :: os_state
  effects :: "effect list"
  qdevice_name :: string
  qdevice :: nat
  qdevice_timeout :: u32
  qdevice_sync_timeout :: u32
  qdevice_can_operate :: u8
  qdevice_reg_conn :: "conn option"
  qdevice_master_wins :: u8
  two_node :: u8
  wait_for_all :: u8
  wait_for_all_status :: u8
  wait_for_all_autoset :: u8
  auto_tie_breaker :: atb
  initial_auto_tie_breaker :: atb
  lowest_node_id :: u32
  highest_node_id :: u32
  last_man_standing :: u8
  last_man_standing_window :: u32
  allow_downscale :: u8
  ev_barrier :: u32
  ev_tracking :: u8
  ev_tracking_barrier :: u32
  ev_tracking_fd :: int
  quorum :: u8
  cluster_is_quorate :: u8
  us :: nat
  cluster_members_list :: "nat list"
  quorum_members :: "u32 list"
  previous_quorum_members :: "u32 list"
  atb_nodelist :: "u32 list"
  quorum_ringid :: memb_ring_id
  cluster_nodes :: "cluster_node list"
  cluster_nodes_entries :: nat
  quorum_pds :: "conn \<Rightarrow> quorum_pd"
  trackers_list :: "conn list"
  qdevice_timer_set :: bool
  last_man_standing_timer_set :: bool
  sync_nodeinfo_sent :: bool
  sync_wait_for_poll_or_timeout :: bool
  sync_in_progress :: bool

text \<open>The static initialisers, in a process with the given engine functions, map and files.\<close>

definition vq_static_init ::
  "corosync_api_v1 \<Rightarrow> (string \<rightharpoonup> icmap_value) \<Rightarrow> os_state \<Rightarrow> vq_state" where
  "vq_static_init api ic o1 = \<lparr>
     corosync_api = api, icmap = ic, os = o1, effects = [],
     qdevice_name = [], qdevice = 0,
     qdevice_timeout = VOTEQUORUM_QDEVICE_DEFAULT_TIMEOUT,
     qdevice_sync_timeout = VOTEQUORUM_QDEVICE_DEFAULT_SYNC_TIMEOUT,
     qdevice_can_operate = 1, qdevice_reg_conn = None, qdevice_master_wins = 0,
     two_node = 0, wait_for_all = 0, wait_for_all_status = 0, wait_for_all_autoset = 0,
     auto_tie_breaker = ATB_NONE, initial_auto_tie_breaker = ATB_NONE,
     lowest_node_id = - 1, highest_node_id = - 1,
     last_man_standing = 0, last_man_standing_window = DEFAULT_LMS_WIN,
     allow_downscale = 0, ev_barrier = 0,
     ev_tracking = 0, ev_tracking_barrier = 0, ev_tracking_fd = - 1,
     quorum = 0, cluster_is_quorate = 0, us = 0, cluster_members_list = [],
     quorum_members = [], previous_quorum_members = [], atb_nodelist = [],
     quorum_ringid = \<lparr>ring_nodeid = 0, ring_seq = 0\<rparr>,
     cluster_nodes = replicate (PROCESSOR_COUNT_MAX + 2) node_zero, cluster_nodes_entries = 0,
     quorum_pds = (\<lambda>_. \<lparr>track_flags = 0, tracking_enabled = False, tracking_context = 0\<rparr>),
     trackers_list = [], qdevice_timer_set = False, last_man_standing_timer_set = False,
     sync_nodeinfo_sent = False, sync_wait_for_poll_or_timeout = False, sync_in_progress = False\<rparr>"

end
