(* ===== verification/Vq_Nodes.thy ===== *)
theory Vq_Nodes
  imports Vq_State
begin

text \<open>
  The node database of \<^verbatim>\<open>exec/votequorum.c\<close>: allocation, ordered insertion and lookup of nodes,
  the lowest and highest member, the partition checks behind the tie breakers and the small
  functions that update a variable together with its \<^verbatim>\<open>runtime.votequorum\<close> key.
\<close>

section \<open>Access\<close>

definition node_at :: "vq_state \<Rightarrow> nat \<Rightarrow> cluster_node" where
  "node_at s i = cluster_nodes s ! i"

definition node_upd :: "nat \<Rightarrow> (cluster_node \<Rightarrow> cluster_node) \<Rightarrow> vq_state \<Rightarrow> vq_state" where
  "node_upd i f s = s\<lparr>cluster_nodes := (cluster_nodes s)[i := f (node_at s i)]\<rparr>"

definition us_node :: "vq_state \<Rightarrow> cluster_node" where
  "us_node s = node_at s (us s)"

definition qdevice_node :: "vq_state \<Rightarrow> cluster_node" where
  "qdevice_node s = node_at s (qdevice s)"

definition us_upd :: "(cluster_node \<Rightarrow> cluster_node) \<Rightarrow> vq_state \<Rightarrow> vq_state" where
  "us_upd f s = node_upd (us s) f s"

definition us_flags_upd :: "(u32 \<Rightarrow> u32) \<Rightarrow> vq_state \<Rightarrow> vq_state" where
  "us_flags_upd f s = us_upd (\<lambda>n. n\<lparr>flags := f (flags n)\<rparr>) s"

text \<open>The nodes in the order of the list \<open>cluster_members_list\<close>.\<close>

definition listed :: "vq_state \<Rightarrow> cluster_node list" where
  "listed s = map (node_at s) (cluster_members_list s)"

definition emit :: "effect \<Rightarrow> vq_state \<Rightarrow> vq_state" where
  "emit e s = s\<lparr>effects := effects s @ [e]\<rparr>"

definition icmap_set_uint8 :: "string \<Rightarrow> u8 \<Rightarrow> vq_state \<Rightarrow> vq_state" where
  "icmap_set_uint8 k v s = s\<lparr>icmap := (icmap s)(k \<mapsto> IC_U8 v)\<rparr>"

definition icmap_set_uint32 :: "string \<Rightarrow> u32 \<Rightarrow> vq_state \<Rightarrow> vq_state" where
  "icmap_set_uint32 k v s = s\<lparr>icmap := (icmap s)(k \<mapsto> IC_U32 v)\<rparr>"

definition icmap_get_uint8 :: "string \<Rightarrow> vq_state \<Rightarrow> u8 option" where
  "icmap_get_uint8 k s = (case icmap s k of Some (IC_U8 v) \<Rightarrow> Some v | _ \<Rightarrow> None)"

definition icmap_get_uint32 :: "string \<Rightarrow> vq_state \<Rightarrow> u32 option" where
  "icmap_get_uint32 k s = (case icmap s k of Some (IC_U32 v) \<Rightarrow> Some v | _ \<Rightarrow> None)"

definition icmap_get_int32 :: "string \<Rightarrow> vq_state \<Rightarrow> u32 option" where
  "icmap_get_int32 k s = (case icmap s k of Some (IC_I32 v) \<Rightarrow> Some v | _ \<Rightarrow> None)"

definition icmap_get_string :: "string \<Rightarrow> vq_state \<Rightarrow> string option" where
  "icmap_get_string k s = (case icmap s k of Some (IC_String v) \<Rightarrow> Some v | _ \<Rightarrow> None)"

section \<open>Allocation and lookup\<close>

text \<open>
  The list position \<open>node_add_ordered\<close> inserts at: before the first node with a greater id, and
  before the last node when there is none.
\<close>

fun add_ordered :: "(nat \<Rightarrow> int) \<Rightarrow> nat \<Rightarrow> nat list \<Rightarrow> nat list" where
  "add_ordered key i [] = [i]"
| "add_ordered key i (j # js) =
     (if key i < key j \<or> js = [] then i # j # js else j # add_ordered key i js)"

definition node_add_ordered :: "nat \<Rightarrow> vq_state \<Rightarrow> vq_state" where
  "node_add_ordered newnode s =
     s\<lparr>cluster_members_list :=
         add_ordered (\<lambda>i. sint (node_id (node_at s i))) newnode (cluster_members_list s)\<rparr>"

text \<open>The common end of \<open>allocate_node\<close>: the slot is zeroed, named and listed.\<close>

definition node_start :: "u32 \<Rightarrow> nat \<Rightarrow> vq_state \<Rightarrow> vq_state" where
  "node_start nodeid cl s =
     (let s1 = node_upd cl (\<lambda>_. node_zero\<lparr>node_id := nodeid\<rparr>) s
      in if nodeid \<noteq> VOTEQUORUM_QDEVICE_NODEID then node_add_ordered cl s1 else s1)"

text \<open>
  When the array is used up, the first dead node of the list is recycled. When there is none, the
  loop has run to the head of the list, which is then unlinked; the result stands for that
  corruption. \<open>None\<close> is the null pointer.
\<close>

definition allocate_node :: "u32 \<Rightarrow> vq_state \<Rightarrow> (nat option \<times> vq_state) c_result" where
  "allocate_node nodeid s =
     (if cluster_nodes_entries s \<le> PROCESSOR_COUNT_MAX + 1
      then let cl = cluster_nodes_entries s
           in Inr (Some cl, node_start nodeid cl (s\<lparr>cluster_nodes_entries := cl + 1\<rparr>))
      else if cluster_members_list s = [] then Inr (None, s)
      else case find (\<lambda>i. state (node_at s i) = NODESTATE_DEAD) (cluster_members_list s) of
             None \<Rightarrow> Inl ListHeadUnlinked
           | Some cl \<Rightarrow>
               Inr (Some cl, node_start nodeid cl
                      (s\<lparr>cluster_members_list := remove1 cl (cluster_members_list s)\<rparr>)))"

definition find_node_by_nodeid :: "u32 \<Rightarrow> vq_state \<Rightarrow> nat option" where
  "find_node_by_nodeid nodeid s =
     (if nodeid = node_id (us_node s) then Some (us s)
      else if nodeid = VOTEQUORUM_QDEVICE_NODEID then Some (qdevice s)
      else find (\<lambda>i. node_id (node_at s i) = nodeid) (cluster_members_list s))"

section \<open>Lowest and highest member\<close>

definition get_lowest_node_id :: "vq_state \<Rightarrow> vq_state" where
  "get_lowest_node_id s =
     (let low = fold (\<lambda>node low. if state node = NODESTATE_MEMBER \<and> sint (node_id node) < sint low
                                 then node_id node else low) (listed s) (node_id (us_node s))
      in icmap_set_uint32 ''runtime.votequorum.lowest_node_id'' low (s\<lparr>lowest_node_id := low\<rparr>))"

definition get_highest_node_id :: "vq_state \<Rightarrow> vq_state" where
  "get_highest_node_id s =
     (let high = fold (\<lambda>node high. if state node = NODESTATE_MEMBER \<and> sint (node_id node) > sint high
                                   then node_id node else high) (listed s) (node_id (us_node s))
      in icmap_set_uint32 ''runtime.votequorum.highest_node_id'' high (s\<lparr>highest_node_id := high\<rparr>))"

definition check_low_node_id_partition :: "vq_state \<Rightarrow> bool" where
  "check_low_node_id_partition s =
     fold (\<lambda>node found. if state node = NODESTATE_MEMBER \<and> node_id node = lowest_node_id s
                        then True else found) (listed s) False"

definition check_high_node_id_partition :: "vq_state \<Rightarrow> bool" where
  "check_high_node_id_partition s =
     fold (\<lambda>node found. if state node = NODESTATE_MEMBER \<and> node_id node = highest_node_id s
                        then True else found) (listed s) False"

section \<open>Tie breakers\<close>

primrec is_in_nodelist :: "u32 \<Rightarrow> u32 list \<Rightarrow> bool" where
  "is_in_nodelist nodeid [] = False"
| "is_in_nodelist nodeid (m # ms) = (if nodeid = m then True else is_in_nodelist nodeid ms)"

text \<open>The loop over \<open>atb_nodelist\<close>; \<open>before\<close> holds the entries already passed.\<close>

fun atb_list_loop :: "u32 list \<Rightarrow> u32 list \<Rightarrow> u32 list \<Rightarrow> u32 list \<Rightarrow> bool" where
  "atb_list_loop members previous before [] = False"
| "atb_list_loop members previous before (a # as) =
     (if is_in_nodelist a members
      then \<not> list_ex (\<lambda>b. is_in_nodelist b previous) before
      else atb_list_loop members previous (before @ [a]) as)"

definition check_auto_tie_breaker :: "vq_state \<Rightarrow> bool" where
  "check_auto_tie_breaker s =
     (if auto_tie_breaker s = ATB_LOWEST then check_low_node_id_partition s
      else if auto_tie_breaker s = ATB_HIGHEST then check_high_node_id_partition s
      else atb_list_loop (quorum_members s) (previous_quorum_members s) [] (atb_nodelist s))"

definition check_qdevice_master :: "vq_state \<Rightarrow> bool" where
  "check_qdevice_master s =
     fold (\<lambda>node found. if state node = NODESTATE_MEMBER \<and>
                           has_flag (flags node) NODE_FLAGS_QDEVICE_MASTER_WINS \<and>
                           has_flag (flags node) NODE_FLAGS_QDEVICE_CAST_VOTE
                        then True else found) (listed s) False"

section \<open>Published variables\<close>

definition update_wait_for_all_status :: "u8 \<Rightarrow> vq_state \<Rightarrow> vq_state" where
  "update_wait_for_all_status wfa_status s =
     (let s1 = s\<lparr>wait_for_all_status := wfa_status\<rparr>;
          s2 = (if wfa_status \<noteq> 0 then us_flags_upd (set_flag NODE_FLAGS_WFASTATUS) s1
                else us_flags_upd (clear_flag NODE_FLAGS_WFASTATUS) s1)
      in icmap_set_uint8 ''runtime.votequorum.wait_for_all_status'' wfa_status s2)"

definition update_two_node :: "vq_state \<Rightarrow> vq_state" where
  "update_two_node s = icmap_set_uint8 ''runtime.votequorum.two_node'' (two_node s) s"

definition update_ev_barrier :: "u32 \<Rightarrow> vq_state \<Rightarrow> vq_state" where
  "update_ev_barrier ev s = icmap_set_uint32 ''runtime.votequorum.ev_barrier'' ev (s\<lparr>ev_barrier := ev\<rparr>)"

definition update_qdevice_can_operate :: "u8 \<Rightarrow> vq_state \<Rightarrow> vq_state" where
  "update_qdevice_can_operate status s =
     icmap_set_uint8 ''runtime.votequorum.qdevice_can_operate'' status (s\<lparr>qdevice_can_operate := status\<rparr>)"

definition update_qdevice_master_wins :: "u8 \<Rightarrow> vq_state \<Rightarrow> vq_state" where
  "update_qdevice_master_wins allow s =
     icmap_set_uint8 ''runtime.votequorum.qdevice_master_wins'' allow (s\<lparr>qdevice_master_wins := allow\<rparr>)"

section \<open>The expected votes barrier on disk\<close>

text \<open>A \<open>uint32_t\<close> in memory (little endian host).\<close>

definition u32_bytes :: "u32 \<Rightarrow> u8 list" where
  "u32_bytes w = [ucast w, ucast (drop_bit 8 w), ucast (drop_bit 16 w), ucast (drop_bit 24 w)]"

definition bytes_u32 :: "u8 list \<Rightarrow> u32" where
  "bytes_u32 bs = (case bs of [a, b, c, d] \<Rightarrow>
      ucast a OR push_bit 8 (ucast b) OR push_bit 16 (ucast c) OR push_bit 24 (ucast d) | _ \<Rightarrow> 0)"

text \<open>
  \<^verbatim>\<open>open\<close> of a file, with or without \<^verbatim>\<open>O_CREAT\<close>; \<^verbatim>\<open>close\<close>; and \<^verbatim>\<open>lseek\<close> to the start followed by a
  \<^verbatim>\<open>write\<close>, which does nothing when the descriptor is not open on a seekable file.
\<close>

definition os_open :: "bool \<Rightarrow> os_file \<Rightarrow> os_state \<Rightarrow> int \<times> os_state" where
  "os_open creat f o1 =
     (if \<not> creat \<and> os_content o1 f = None then (- 1, o1)
      else let fd = os_open_fd o1 (os_fds o1)
           in if fd = - 1 then (- 1, o1)
              else (fd, o1\<lparr>os_fds := (os_fds o1)(fd \<mapsto> f),
                           os_content := (case os_content o1 f of
                               None \<Rightarrow> (os_content o1)(f \<mapsto> []) | Some _ \<Rightarrow> os_content o1)\<rparr>))"

definition os_close :: "int \<Rightarrow> os_state \<Rightarrow> os_state" where
  "os_close fd o1 = o1\<lparr>os_fds := (os_fds o1)(fd := None)\<rparr>"

definition os_overwrite :: "int \<Rightarrow> u8 list \<Rightarrow> os_state \<Rightarrow> os_state" where
  "os_overwrite fd bs o1 =
     (case os_fds o1 fd of
        None \<Rightarrow> o1
      | Some (Unseekable _) \<Rightarrow> o1
      | Some f \<Rightarrow> o1\<lparr>os_content := (os_content o1)(f \<mapsto> os_write o1 (the (os_content o1 f)) bs)\<rparr>)"

definition load_ev_tracking_barrier :: "vq_state \<Rightarrow> int \<times> vq_state" where
  "load_ev_tracking_barrier s =
     (let (fd, o1) = os_open False EvTracking (os s);
          s1 = s\<lparr>ev_tracking_fd := fd, os := o1\<rparr>;
          buf = take 4 (the (os_content o1 EvTracking))
      in if fd \<noteq> - 1 \<and> length buf = 4
         then (0, s1\<lparr>ev_tracking_barrier := bytes_u32 buf, os := os_close fd o1\<rparr>)
         else
           let o2 = (if fd \<noteq> - 1 then os_close fd o1 else o1);
               (fd2, o3) = os_open True EvTracking o2;
               s2 = s1\<lparr>ev_tracking_barrier := 0, ev_tracking_fd := fd2, os := o3\<rparr>
           in if fd2 \<noteq> - 1
              then (0, s2\<lparr>os := os_close fd2 (os_overwrite fd2 (u32_bytes 0) o3)\<rparr>)
              else (- 1, s2))"

definition update_ev_tracking_barrier :: "u32 \<Rightarrow> vq_state \<Rightarrow> vq_state" where
  "update_ev_tracking_barrier ev_t_barrier s =
     (let s1 = icmap_set_uint32 ''runtime.votequorum.ev_tracking_barrier'' ev_t_barrier
                 (s\<lparr>ev_tracking_barrier := ev_t_barrier\<rparr>)
      in s1\<lparr>os := os_overwrite (ev_tracking_fd s1) (u32_bytes ev_t_barrier) (os s1)\<rparr>)"

section \<open>Lemmas: access and update\<close>

named_theorems vq_upd \<open>the small state updates as record updates\<close>

lemmas vq_upd_defs [vq_upd] =
  us_flags_upd_def us_upd_def node_upd_def emit_def icmap_set_uint8_def icmap_set_uint32_def
  update_wait_for_all_status_def update_two_node_def update_ev_barrier_def
  update_qdevice_can_operate_def update_qdevice_master_wins_def update_ev_tracking_barrier_def
  get_lowest_node_id_def get_highest_node_id_def Let_def

lemma node_at_cong: "cluster_nodes s = cluster_nodes t \<Longrightarrow> node_at s i = node_at t i"
  by (simp add: node_at_def)

lemma node_at_upd:
  "node_at (node_upd i f s) j =
     (if j = i \<and> i < length (cluster_nodes s) then f (node_at s i) else node_at s j)"
  by (cases "i < length (cluster_nodes s)") (auto simp: node_at_def node_upd_def not_less list_update_beyond)

lemma us_flags_upd_nodes [simp]:
  "node_id (node_at (us_flags_upd f s) i) = node_id (node_at s i)"
  "state (node_at (us_flags_upd f s) i) = state (node_at s i)"
  "votes (node_at (us_flags_upd f s) i) = votes (node_at s i)"
  "expected_votes (node_at (us_flags_upd f s) i) = expected_votes (node_at s i)"
  "ei_size (node_at (us_flags_upd f s) i) = ei_size (node_at s i)"
  "length (cluster_nodes (us_flags_upd f s)) = length (cluster_nodes s)"
  by (simp_all add: us_flags_upd_def us_upd_def node_at_upd) (simp add: node_upd_def)

lemma us_flags_upd_flags:
  "flags (node_at (us_flags_upd f s) i) =
     (if i = us s \<and> us s < length (cluster_nodes s) then f (flags (node_at s i)) else flags (node_at s i))"
  by (simp add: us_flags_upd_def us_upd_def node_at_upd)

lemma fold_found: "fold (\<lambda>x found. if P x then True else found) xs b \<longleftrightarrow> b \<or> list_ex P xs"
  by (induction xs arbitrary: b) auto

lemma check_low_node_id_partition_iff:
  "check_low_node_id_partition s \<longleftrightarrow>
   (\<exists>i \<in> set (cluster_members_list s).
      state (node_at s i) = NODESTATE_MEMBER \<and> node_id (node_at s i) = lowest_node_id s)"
  by (simp add: check_low_node_id_partition_def fold_found list_ex_iff listed_def)

lemma check_high_node_id_partition_iff:
  "check_high_node_id_partition s \<longleftrightarrow>
   (\<exists>i \<in> set (cluster_members_list s).
      state (node_at s i) = NODESTATE_MEMBER \<and> node_id (node_at s i) = highest_node_id s)"
  by (simp add: check_high_node_id_partition_def fold_found list_ex_iff listed_def)

lemma check_qdevice_master_iff:
  "check_qdevice_master s \<longleftrightarrow>
   (\<exists>i \<in> set (cluster_members_list s). state (node_at s i) = NODESTATE_MEMBER \<and>
      has_flag (flags (node_at s i)) NODE_FLAGS_QDEVICE_MASTER_WINS \<and>
      has_flag (flags (node_at s i)) NODE_FLAGS_QDEVICE_CAST_VOTE)"
  by (simp add: check_qdevice_master_def fold_found list_ex_iff listed_def)

lemma is_in_nodelist_iff [simp]: "is_in_nodelist a ms \<longleftrightarrow> a \<in> set ms"
  by (induction ms) auto

text \<open>
  The list rule: some entry of the list is in the partition, and none of the entries before the
  first such entry was in the previous one.
\<close>

lemma atb_list_loop_iff:
  "atb_list_loop members previous before as \<longleftrightarrow>
   (\<exists>bs a cs. as = bs @ a # cs \<and> a \<in> set members \<and> set bs \<inter> set members = {} \<and>
      set (before @ bs) \<inter> set previous = {})"
proof (induction members previous before as rule: atb_list_loop.induct)
  case (1 members previous before)
  then show ?case by simp
next
  case (2 members previous before a as)
  show ?case
  proof (cases "a \<in> set members")
    case True
    have "atb_list_loop members previous before (a # as) \<longleftrightarrow> set before \<inter> set previous = {}"
      using True by (auto simp: list_ex_iff)
    also have "\<dots> \<longleftrightarrow> (\<exists>bs a' cs. a # as = bs @ a' # cs \<and> a' \<in> set members \<and>
        set bs \<inter> set members = {} \<and> set (before @ bs) \<inter> set previous = {})"
      (is "?l \<longleftrightarrow> ?r")
    proof
      assume ?l
      then have "a # as = [] @ a # as \<and> a \<in> set members \<and> set [] \<inter> set members = {} \<and>
          set (before @ []) \<inter> set previous = {}"
        using True by simp
      then show ?r by blast
    next
      assume ?r
      then show ?l by auto
    qed
    finally show ?thesis .
  next
    case False
    then have "atb_list_loop members previous before (a # as) \<longleftrightarrow>
        (\<exists>bs a' cs. as = bs @ a' # cs \<and> a' \<in> set members \<and> set bs \<inter> set members = {} \<and>
           set ((before @ [a]) @ bs) \<inter> set previous = {})"
      using 2 by simp
    also have "\<dots> \<longleftrightarrow> (\<exists>bs a' cs. a # as = bs @ a' # cs \<and> a' \<in> set members \<and>
        set bs \<inter> set members = {} \<and> set (before @ bs) \<inter> set previous = {})"
      (is "?l \<longleftrightarrow> ?r")
    proof
      assume ?l
      then obtain bs a' cs where "as = bs @ a' # cs" "a' \<in> set members" "set bs \<inter> set members = {}"
        "set ((before @ [a]) @ bs) \<inter> set previous = {}"
        by blast
      then have "a # as = (a # bs) @ a' # cs \<and> a' \<in> set members \<and> set (a # bs) \<inter> set members = {} \<and>
          set (before @ a # bs) \<inter> set previous = {}"
        using False by simp
      then show ?r by blast
    next
      assume ?r
      then obtain bs a' cs where r: "a # as = bs @ a' # cs" "a' \<in> set members"
        "set bs \<inter> set members = {}" "set (before @ bs) \<inter> set previous = {}"
        by blast
      then obtain bs' where "bs = a # bs'" using False by (cases bs) auto
      then have "as = bs' @ a' # cs \<and> a' \<in> set members \<and> set bs' \<inter> set members = {} \<and>
          set ((before @ [a]) @ bs') \<inter> set previous = {}"
        using r by simp
      then show ?l by blast
    qed
    finally show ?thesis .
  qed
qed

section \<open>Lemmas: the node database\<close>

definition vq_db_inv :: "vq_state \<Rightarrow> bool" where
  "vq_db_inv s \<longleftrightarrow>
     length (cluster_nodes s) = PROCESSOR_COUNT_MAX + 2 \<and>
     cluster_nodes_entries s \<le> PROCESSOR_COUNT_MAX + 2 \<and>
     distinct (cluster_members_list s) \<and>
     (\<forall>i \<in> set (cluster_members_list s). i < cluster_nodes_entries s) \<and>
     us s \<in> set (cluster_members_list s) \<and>
     qdevice s < cluster_nodes_entries s \<and> qdevice s \<notin> set (cluster_members_list s) \<and>
     node_id (qdevice_node s) = VOTEQUORUM_QDEVICE_NODEID \<and>
     distinct (map node_id (listed s)) \<and> VOTEQUORUM_QDEVICE_NODEID \<notin> set (map node_id (listed s))"

lemma vq_db_invD:
  assumes "vq_db_inv s"
  shows "us s \<in> set (cluster_members_list s)" "us s < length (cluster_nodes s)"
    "qdevice s < length (cluster_nodes s)" "us s \<noteq> qdevice s" "us_node s \<in> set (listed s)"
    "i \<in> set (cluster_members_list s) \<Longrightarrow> i < length (cluster_nodes s)"
  using assms by (auto simp: vq_db_inv_def us_node_def listed_def)

text \<open>The list is the other nodes in ascending order, followed by the first node entered.\<close>

lemma add_ordered_set [simp]: "set (add_ordered key i js) = insert i (set js)"
  by (induction js) auto

lemma add_ordered_distinct [simp]: "distinct (add_ordered key i js) \<longleftrightarrow> i \<notin> set js \<and> distinct js"
  by (induction js) auto

lemma add_ordered_nonempty [simp]: "add_ordered key i js \<noteq> []"
  by (cases js) auto

lemma add_ordered_last: "js \<noteq> [] \<Longrightarrow> last (add_ordered key i js) = last js"
  by (induction js) auto

lemma add_ordered_sorted:
  "js \<noteq> [] \<Longrightarrow> sorted (map key (butlast js)) \<Longrightarrow> sorted (map key (butlast (add_ordered key i js)))"
proof (induction js)
  case Nil
  then show ?case by simp
next
  case (Cons j js)
  show ?case
  proof (cases "js = []")
    case True
    then show ?thesis by simp
  next
    case False
    then have "sorted (map key (butlast js))" "\<forall>k \<in> set (butlast js). key j \<le> key k"
      using Cons.prems by auto
    moreover have "set (butlast (add_ordered key i js)) = insert i (set (butlast js))"
      using False by (induction js) auto
    ultimately show ?thesis using Cons False by auto
  qed
qed

lemma find_unique:
  assumes "distinct (map f xs)"
  shows "find (\<lambda>x. f x = k) xs = Some y \<longleftrightarrow> y \<in> set xs \<and> f y = k"
  using assms by (induction xs) auto

lemma find_node_by_nodeid_iff:
  assumes "vq_db_inv s"
  shows "find_node_by_nodeid nodeid s = Some i \<longleftrightarrow>
    (nodeid = VOTEQUORUM_QDEVICE_NODEID \<and> i = qdevice s) \<or>
    (i \<in> set (cluster_members_list s) \<and> node_id (node_at s i) = nodeid)"
proof -
  have dist: "distinct (map (\<lambda>i. node_id (node_at s i)) (cluster_members_list s))"
    and nz: "\<And>i. i \<in> set (cluster_members_list s) \<Longrightarrow> node_id (node_at s i) \<noteq> VOTEQUORUM_QDEVICE_NODEID"
    and us: "us s \<in> set (cluster_members_list s)"
    using assms by (auto simp: vq_db_inv_def listed_def comp_def image_iff)
  have uniq: "i = us s" if "i \<in> set (cluster_members_list s)" "node_id (node_at s i) = node_id (us_node s)"
    using dist that us by (auto simp: us_node_def distinct_map dest: inj_onD)
  show ?thesis
    using nz us uniq nz [OF us] find_unique [OF dist, of nodeid i]
    by (auto simp: find_node_by_nodeid_def us_node_def)
qed

lemma node_start_eqs:
  assumes "cl < length (cluster_nodes s)" "nodeid \<noteq> VOTEQUORUM_QDEVICE_NODEID"
  shows "node_at (node_start nodeid cl s) i = (if i = cl then node_zero\<lparr>node_id := nodeid\<rparr> else node_at s i)"
    "set (cluster_members_list (node_start nodeid cl s)) = insert cl (set (cluster_members_list s))"
    "distinct (cluster_members_list (node_start nodeid cl s)) \<longleftrightarrow>
       cl \<notin> set (cluster_members_list s) \<and> distinct (cluster_members_list s)"
    "length (cluster_nodes (node_start nodeid cl s)) = length (cluster_nodes s)"
    "us (node_start nodeid cl s) = us s" "qdevice (node_start nodeid cl s) = qdevice s"
    "cluster_nodes_entries (node_start nodeid cl s) = cluster_nodes_entries s"
  using assms
  by (auto simp: node_start_def node_add_ordered_def Let_def node_upd_def node_at_def)

text \<open>The invariant in terms of indexes, as the allocation lemmas use it.\<close>

lemma vq_db_inv_alt:
  "vq_db_inv s \<longleftrightarrow>
     length (cluster_nodes s) = PROCESSOR_COUNT_MAX + 2 \<and>
     cluster_nodes_entries s \<le> PROCESSOR_COUNT_MAX + 2 \<and>
     distinct (cluster_members_list s) \<and>
     (\<forall>i \<in> set (cluster_members_list s). i < cluster_nodes_entries s) \<and>
     us s \<in> set (cluster_members_list s) \<and>
     qdevice s < cluster_nodes_entries s \<and> qdevice s \<notin> set (cluster_members_list s) \<and>
     node_id (node_at s (qdevice s)) = VOTEQUORUM_QDEVICE_NODEID \<and>
     inj_on (\<lambda>i. node_id (node_at s i)) (set (cluster_members_list s)) \<and>
     (\<forall>i \<in> set (cluster_members_list s). node_id (node_at s i) \<noteq> VOTEQUORUM_QDEVICE_NODEID)"
  by (auto simp: vq_db_inv_def listed_def distinct_map comp_def qdevice_node_def image_iff)

lemma node_start_inv:
  assumes len: "length (cluster_nodes s) = PROCESSOR_COUNT_MAX + 2"
    and ent: "cluster_nodes_entries s \<le> PROCESSOR_COUNT_MAX + 2"
    and dist: "distinct (cluster_members_list s)"
    and bound: "\<forall>i \<in> set (cluster_members_list s). i < cluster_nodes_entries s"
    and us: "us s \<in> set (cluster_members_list s)"
    and qd: "qdevice s < cluster_nodes_entries s" "qdevice s \<notin> set (cluster_members_list s)"
      "node_id (node_at s (qdevice s)) = VOTEQUORUM_QDEVICE_NODEID"
    and inj: "inj_on (\<lambda>i. node_id (node_at s i)) (set (cluster_members_list s))"
    and nz: "\<forall>i \<in> set (cluster_members_list s). node_id (node_at s i) \<noteq> VOTEQUORUM_QDEVICE_NODEID"
    and cl: "cl < cluster_nodes_entries s" "cl \<notin> set (cluster_members_list s)" "cl \<noteq> qdevice s"
    and new: "nodeid \<noteq> VOTEQUORUM_QDEVICE_NODEID"
      "\<forall>i \<in> set (cluster_members_list s). node_id (node_at s i) \<noteq> nodeid"
  shows "vq_db_inv (node_start nodeid cl s)"
proof -
  have "cl < length (cluster_nodes s)" using len ent cl(1) by simp
  note eqs = node_start_eqs [OF this new(1)]
  have "inj_on (\<lambda>i. node_id (node_at (node_start nodeid cl s) i)) (insert cl (set (cluster_members_list s)))"
    using inj cl(2) new(2) by (auto simp: eqs(1) inj_on_def)
  then show ?thesis
    using assms by (auto simp: vq_db_inv_alt eqs)
qed

lemma allocate_node_ok:
  assumes inv: "vq_db_inv s" and id: "nodeid \<noteq> VOTEQUORUM_QDEVICE_NODEID"
    and new: "find_node_by_nodeid nodeid s = None" and live: "state (us_node s) \<noteq> NODESTATE_DEAD"
    and alloc: "allocate_node nodeid s = Inr (r, s')"
  shows "\<exists>cl. r = Some cl \<and> vq_db_inv s' \<and> find_node_by_nodeid nodeid s' = Some cl \<and>
    node_at s' cl = node_zero\<lparr>node_id := nodeid\<rparr> \<and> us s' = us s \<and> qdevice s' = qdevice s \<and>
    cl \<noteq> us s \<and> cl \<noteq> qdevice s \<and> (\<forall>i. i \<noteq> cl \<longrightarrow> node_at s' i = node_at s i) \<and>
    set (cluster_members_list s') = insert cl (set (cluster_members_list s))"
proof -
  note I = inv [unfolded vq_db_inv_alt]
  have fresh: "\<forall>i \<in> set (cluster_members_list s). node_id (node_at s i) \<noteq> nodeid"
    using new find_node_by_nodeid_iff [OF inv, of nodeid] by force
  obtain cl s0 where cl: "r = Some cl" "s' = node_start nodeid cl s0" "cl < cluster_nodes_entries s0"
      "cl \<notin> set (cluster_members_list s0)" "cl \<noteq> qdevice s" "cl \<noteq> us s"
    and s0: "cluster_nodes s0 = cluster_nodes s" "us s0 = us s" "qdevice s0 = qdevice s"
      "cluster_nodes_entries s \<le> cluster_nodes_entries s0"
      "cluster_nodes_entries s0 \<le> PROCESSOR_COUNT_MAX + 2" "distinct (cluster_members_list s0)"
      "set (cluster_members_list s0) = set (cluster_members_list s) - {cl}"
  proof (cases "cluster_nodes_entries s \<le> PROCESSOR_COUNT_MAX + 1")
    case True
    moreover have "cluster_nodes_entries s \<notin> set (cluster_members_list s)" "cluster_nodes_entries s \<noteq> us s"
      using I by auto
    ultimately show thesis
      using alloc I that [of "cluster_nodes_entries s"
          "s\<lparr>cluster_nodes_entries := cluster_nodes_entries s + 1\<rparr>"]
      by (auto simp: allocate_node_def Let_def)
  next
    case False
    then obtain cl where f: "find (\<lambda>i. state (node_at s i) = NODESTATE_DEAD) (cluster_members_list s) = Some cl"
      and r: "r = Some cl"
        "s' = node_start nodeid cl (s\<lparr>cluster_members_list := remove1 cl (cluster_members_list s)\<rparr>)"
      using alloc I by (auto simp: allocate_node_def split: option.splits if_splits)
    have "cl \<in> set (cluster_members_list s)" "state (node_at s cl) = NODESTATE_DEAD"
      using f by (auto simp: find_Some_iff)
    then show thesis
      using r I live that [of cl "s\<lparr>cluster_members_list := remove1 cl (cluster_members_list s)\<rparr>"]
      by (auto simp: us_node_def)
  qed
  have at: "node_at s0 i = node_at s i" for i using s0(1) by (simp add: node_at_def)
  have "vq_db_inv s'"
    unfolding cl(2) using I s0 cl fresh id
    by (intro node_start_inv) (auto simp: at intro: inj_on_subset)
  moreover have "cl < length (cluster_nodes s0)" using cl(3) s0 I by simp
  note eqs = node_start_eqs [OF this id, folded cl(2)]
  ultimately show ?thesis
    using cl s0 at by (auto simp: eqs find_node_by_nodeid_iff)
qed

end
