(* ===== verification/Vq_Quorum.thy ===== *)
theory Vq_Quorum
  imports Vq_Nodes
begin

text \<open>
  The quorum calculation of \<^verbatim>\<open>exec/votequorum.c\<close> and the notifications it sends.
\<close>

section \<open>Notifications to library clients\<close>

text \<open>
  A notification goes to one connection, or (\<open>None\<close>, the null pointer) to every tracker with its
  own context. The callers ignore the result.
\<close>

definition notify :: "conn option \<Rightarrow> u64 \<Rightarrow> (u64 \<Rightarrow> lib_msg) \<Rightarrow> vq_state \<Rightarrow> vq_state" where
  "notify conn context msg s =
     (case conn of
        Some c \<Rightarrow> emit (IpcDispatch c (msg context)) s
      | None \<Rightarrow> fold (\<lambda>c. emit (IpcDispatch c (msg (tracking_context (quorum_pds s c))))) (trackers_list s) s)"

definition votequorum_exec_send_quorum_notification :: "conn option \<Rightarrow> u64 \<Rightarrow> vq_state \<Rightarrow> vq_state" where
  "votequorum_exec_send_quorum_notification conn context s =
     (let node_list = map (\<lambda>n. (node_id n, state n)) (listed s) @
            (if has_flag (flags (us_node s)) NODE_FLAGS_QDEVICE_REGISTERED
             then [(VOTEQUORUM_QDEVICE_NODEID, state (qdevice_node s))] else [])
      in notify conn context (\<lambda>ctx. QuorumNotification ctx (cluster_is_quorate s) node_list) s)"

definition votequorum_exec_send_nodelist_notification :: "conn option \<Rightarrow> u64 \<Rightarrow> vq_state \<Rightarrow> vq_state" where
  "votequorum_exec_send_nodelist_notification conn context s =
     notify conn context (\<lambda>ctx. NodelistNotification ctx (quorum_ringid s) (quorum_members s)) s"

definition votequorum_exec_send_expectedvotes_notification :: "vq_state \<Rightarrow> vq_state" where
  "votequorum_exec_send_expectedvotes_notification s =
     notify None 0 (\<lambda>ctx. ExpectedVotesNotification ctx (expected_votes (us_node s))) s"

section \<open>Calculation\<close>

text \<open>The loop over the members: highest expectation, sum of the votes, number of members.\<close>

definition tally :: "cluster_node list \<Rightarrow> u32 \<times> u32 \<times> u32" where
  "tally ns = fold (\<lambda>node (highest_expected, total_votes, total_nodes).
      if state node = NODESTATE_MEMBER
      then (c_max highest_expected (expected_votes node), total_votes + votes node, total_nodes + 1)
      else (highest_expected, total_votes, total_nodes)) ns (0, 0, 0)"

text \<open>The new quorum and, as second component, the \<open>total_votes\<close> the code returns by reference.\<close>

definition calculate_quorum :: "bool \<Rightarrow> u32 \<Rightarrow> vq_state \<Rightarrow> u32 \<times> u32" where
  "calculate_quorum allow_decrease max_expected0 s =
     (let max_expected = (if allow_downscale s \<noteq> 0 \<and> allow_decrease \<and> max_expected0 \<noteq> 0
                          then c_max (ev_barrier s) max_expected0 else max_expected0);
          (highest0, votes0, nodes0) = tally (listed s);
          cast = has_flag (flags (us_node s)) NODE_FLAGS_QDEVICE_CAST_VOTE;
          total_votes = (if cast then votes0 + votes (qdevice_node s) else votes0);
          total_nodes = (if cast then nodes0 + 1 else nodes0);
          highest_expected = (if max_expected > 0 then max_expected else highest0);
          q1 = (highest_expected + 2) div 2;
          q2 = (total_votes + 2) div 2;
          newquorum1 = c_max q1 q2;
          newquorum2 = (if \<not> allow_decrease then c_max (ucast (quorum s)) newquorum1 else newquorum1);
          newquorum = (if two_node s \<noteq> 0 \<and> total_nodes \<le> 2 then 1 else newquorum2)
      in (newquorum, total_votes))"

definition update_node_expected_votes :: "u32 \<Rightarrow> vq_state \<Rightarrow> vq_state" where
  "update_node_expected_votes new_expected_votes s =
     (if new_expected_votes \<noteq> 0
      then fold (\<lambda>i s. if state (node_at s i) = NODESTATE_MEMBER
                       then node_upd i (\<lambda>n. n\<lparr>expected_votes := new_expected_votes\<rparr>) s else s)
             (cluster_members_list s) s
      else s)"

text \<open>The last part of \<open>are_we_quorate\<close>: the decision is recorded, published and announced.\<close>

definition quorate_finish :: "bool \<Rightarrow> vq_state \<Rightarrow> vq_state" where
  "quorate_finish quorate s =
     (let quorum_change = ((cluster_is_quorate s \<noteq> 0) \<noteq> quorate);
          s1 = s\<lparr>cluster_is_quorate := (if quorate then 1 else 0)\<rparr>;
          s2 = us_flags_upd (if quorate then set_flag NODE_FLAGS_QUORATE
                             else clear_flag NODE_FLAGS_QUORATE) s1;
          s3 = (if wait_for_all s2 \<noteq> 0
                then update_wait_for_all_status (if quorate then 0 else 1) s2 else s2)
      in if quorum_change \<and> \<not> sync_in_progress s3
         then votequorum_exec_send_quorum_notification None 0
                (emit (QuorumCallback (quorum_members s3) (cluster_is_quorate s3) (quorum_ringid s3)) s3)
         else s3)"

text \<open>The middle part: the votes, the tie breaker and the master-wins rule.\<close>

definition quorate_decide :: "u32 \<Rightarrow> vq_state \<Rightarrow> bool \<times> vq_state" where
  "quorate_decide total_votes s =
     (let (quorate1, s1) = (if ucast (quorum s) > total_votes then (False, s)
                            else (True, get_highest_node_id (get_lowest_node_id s)));
          quorate2 = (if auto_tie_breaker s1 \<noteq> ATB_NONE \<and>
                         total_votes = expected_votes (us_node s1) div 2 \<and>
                         int (length (previous_quorum_members s1)) - int (length (quorum_members s1))
                           < uint (quorum s1) \<and>
                         check_auto_tie_breaker s1
                      then True else quorate1);
          quorate3 = (if qdevice_master_wins s1 \<noteq> 0 \<and> \<not> quorate2 \<and> check_qdevice_master s1
                      then True else quorate2)
      in (quorate3, s1))"

definition are_we_quorate :: "u32 \<Rightarrow> vq_state \<Rightarrow> vq_state c_result" where
  "are_we_quorate total_votes s =
     (if wait_for_all s \<noteq> 0 \<and> wait_for_all_status s \<noteq> 0 \<and> total_votes \<noteq> expected_votes (us_node s)
      then bindE (assertE (cluster_is_quorate s = 0)) (\<lambda>_. Inr s)
      else
        let s1 = (if wait_for_all s \<noteq> 0 \<and> wait_for_all_status s \<noteq> 0
                  then update_wait_for_all_status 0 s else s);
            (quorate, s2) = quorate_decide total_votes s1
        in Inr (quorate_finish quorate s2))"

definition get_total_votes :: "vq_state \<Rightarrow> u32 \<times> u32" where
  "get_total_votes s =
     (let (total, members) = fold (\<lambda>node (total_votes, cluster_members).
             if state node = NODESTATE_MEMBER then (total_votes + votes node, cluster_members + 1)
             else (total_votes, cluster_members)) (listed s) (0, 0)
      in if votes (qdevice_node s) \<noteq> 0 then (total + votes (qdevice_node s), members + 1)
         else (total, members))"

definition recalculate_quorum :: "bool \<Rightarrow> bool \<Rightarrow> vq_state \<Rightarrow> vq_state c_result" where
  "recalculate_quorum allow_decrease by_current_nodes s =
     (let (total0, members0) = get_total_votes s;
          cluster_members = (if \<not> by_current_nodes then 0 else members0);
          s1 = (if total0 > expected_votes (us_node s)
                then votequorum_exec_send_expectedvotes_notification
                       (us_upd (\<lambda>n. n\<lparr>expected_votes := total0\<rparr>) s)
                else s);
          s2 = (if ev_tracking s1 \<noteq> 0 \<and> expected_votes (us_node s1) > ev_tracking_barrier s1
                then update_ev_tracking_barrier (expected_votes (us_node s1)) s1 else s1);
          (newquorum, total_votes) = calculate_quorum allow_decrease cluster_members s2;
          s3 = update_node_expected_votes cluster_members (s2\<lparr>quorum := ucast newquorum\<rparr>)
      in are_we_quorate total_votes s3)"

section \<open>Lemmas: frames\<close>

lemma fold_emit: "fold (\<lambda>c. emit (g c)) cs s = s\<lparr>effects := effects s @ map g cs\<rparr>"
  by (induction cs arbitrary: s) (simp_all add: emit_def)

lemma notify_eq [vq_upd]:
  "notify conn context msg s = s\<lparr>effects := effects s @
     (case conn of Some c \<Rightarrow> [IpcDispatch c (msg context)]
      | None \<Rightarrow> map (\<lambda>c. IpcDispatch c (msg (tracking_context (quorum_pds s c)))) (trackers_list s))\<rparr>"
  by (cases conn) (simp_all add: notify_def fold_emit, simp add: emit_def)

lemmas vq_notify_defs [vq_upd] =
  votequorum_exec_send_quorum_notification_def votequorum_exec_send_nodelist_notification_def
  votequorum_exec_send_expectedvotes_notification_def

text \<open>\<open>update_node_expected_votes\<close> touches the expectation of the listed members only.\<close>

lemma update_expected_fold:
  "fold (\<lambda>i s. if state (node_at s i) = NODESTATE_MEMBER
               then node_upd i (\<lambda>n. n\<lparr>expected_votes := v\<rparr>) s else s) is s =
   s\<lparr>cluster_nodes := fold (\<lambda>i ns. if state (ns ! i) = NODESTATE_MEMBER
               then ns[i := (ns ! i)\<lparr>expected_votes := v\<rparr>] else ns) is (cluster_nodes s)\<rparr>"
  by (induction "is" arbitrary: s) (auto simp: node_upd_def node_at_def)

lemma update_expected_nth:
  "fold (\<lambda>i ns. if state (ns ! i) = NODESTATE_MEMBER
               then ns[i := (ns ! i)\<lparr>expected_votes := v\<rparr>] else ns) is ns ! j =
   (if j \<in> set is \<and> j < length ns \<and> state (ns ! j) = NODESTATE_MEMBER
    then (ns ! j)\<lparr>expected_votes := v\<rparr> else ns ! j) \<and>
   length (fold (\<lambda>i ns. if state (ns ! i) = NODESTATE_MEMBER
               then ns[i := (ns ! i)\<lparr>expected_votes := v\<rparr>] else ns) is ns) = length ns"
proof (induction "is" arbitrary: ns)
  case Nil
  then show ?case by simp
next
  case (Cons i "is")
  show ?case
    by (cases "i < length ns") (auto simp: Cons.IH nth_list_update not_less list_update_beyond)
qed

lemma update_node_expected_votes_eq:
  "update_node_expected_votes v s = s\<lparr>cluster_nodes := cluster_nodes (update_node_expected_votes v s)\<rparr>"
  by (simp add: update_node_expected_votes_def update_expected_fold)

lemma node_at_update_expected:
  "node_at (update_node_expected_votes v s) j =
    (if v \<noteq> 0 \<and> j \<in> set (cluster_members_list s) \<and> j < length (cluster_nodes s) \<and>
        state (node_at s j) = NODESTATE_MEMBER
     then (node_at s j)\<lparr>expected_votes := v\<rparr> else node_at s j)"
  by (simp add: update_node_expected_votes_def update_expected_fold)
     (simp add: node_at_def update_expected_nth)

text \<open>The state in which the quorum is calculated: the expectation of this node is raised.\<close>

definition vq_raise :: "vq_state \<Rightarrow> vq_state" where
  "vq_raise s =
     (let s1 = (if fst (get_total_votes s) > expected_votes (us_node s)
                then votequorum_exec_send_expectedvotes_notification
                       (us_upd (\<lambda>n. n\<lparr>expected_votes := fst (get_total_votes s)\<rparr>) s)
                else s)
      in if ev_tracking s1 \<noteq> 0 \<and> expected_votes (us_node s1) > ev_tracking_barrier s1
         then update_ev_tracking_barrier (expected_votes (us_node s1)) s1 else s1)"

lemma recalculate_quorum_eq:
  "recalculate_quorum d b s =
     (let m = (if b then snd (get_total_votes s) else 0); (q, t) = calculate_quorum d m (vq_raise s)
      in are_we_quorate t (update_node_expected_votes m ((vq_raise s)\<lparr>quorum := ucast q\<rparr>)))"
  by (cases "get_total_votes s") (simp add: recalculate_quorum_def vq_raise_def Let_def)

lemma vq_raise_fields [simp]:
  "us (vq_raise s) = us s" "qdevice (vq_raise s) = qdevice s"
  "cluster_members_list (vq_raise s) = cluster_members_list s"
  "length (cluster_nodes (vq_raise s)) = length (cluster_nodes s)"
  "cluster_nodes_entries (vq_raise s) = cluster_nodes_entries s"
  "quorum (vq_raise s) = quorum s" "two_node (vq_raise s) = two_node s"
  "allow_downscale (vq_raise s) = allow_downscale s" "ev_barrier (vq_raise s) = ev_barrier s"
  "auto_tie_breaker (vq_raise s) = auto_tie_breaker s"
  "lowest_node_id (vq_raise s) = lowest_node_id s" "highest_node_id (vq_raise s) = highest_node_id s"
  "quorum_members (vq_raise s) = quorum_members s"
  "previous_quorum_members (vq_raise s) = previous_quorum_members s"
  "atb_nodelist (vq_raise s) = atb_nodelist s"
  "qdevice_master_wins (vq_raise s) = qdevice_master_wins s"
  "wait_for_all (vq_raise s) = wait_for_all s"
  "wait_for_all_status (vq_raise s) = wait_for_all_status s"
  "cluster_is_quorate (vq_raise s) = cluster_is_quorate s"
  "sync_in_progress (vq_raise s) = sync_in_progress s"
  by (auto simp: vq_raise_def vq_upd)

lemma update_expected_fields [simp]:
  "us (update_node_expected_votes v s) = us s" "qdevice (update_node_expected_votes v s) = qdevice s"
  "cluster_members_list (update_node_expected_votes v s) = cluster_members_list s"
  "length (cluster_nodes (update_node_expected_votes v s)) = length (cluster_nodes s)"
  "cluster_nodes_entries (update_node_expected_votes v s) = cluster_nodes_entries s"
  "quorum (update_node_expected_votes v s) = quorum s"
  "wait_for_all (update_node_expected_votes v s) = wait_for_all s"
  "wait_for_all_status (update_node_expected_votes v s) = wait_for_all_status s"
  "cluster_is_quorate (update_node_expected_votes v s) = cluster_is_quorate s"
  "sync_in_progress (update_node_expected_votes v s) = sync_in_progress s"
  by (simp_all add: update_node_expected_votes_def update_expected_fold update_expected_nth)

lemma node_at_raise:
  "node_at (vq_raise s) i =
    (if i = us s \<and> us s < length (cluster_nodes s)
     then (node_at s i)\<lparr>expected_votes := max (expected_votes (node_at s i)) (fst (get_total_votes s))\<rparr>
     else node_at s i)"
  by (cases "us s < length (cluster_nodes s)")
     (auto simp: vq_raise_def vq_upd node_at_def us_node_def max_def not_le not_less list_update_beyond)

end
