(* ===== verification/Vq_Send.thy ===== *)
theory Vq_Send
  imports Vq_Quorum
begin

text \<open>
  The messages \<^verbatim>\<open>exec/votequorum.c\<close> multicasts to the other nodes and the extra-information
  notifications to its clients. The integer result of a send is that of \<^verbatim>\<open>totem_mcast\<close>, 0 for
  success.
\<close>

definition mcast :: "exec_msg \<Rightarrow> vq_state \<Rightarrow> int \<times> vq_state" where
  "mcast msg s = (totem_mcast (corosync_api s) (length (effects s)) msg, emit (Mcast msg) s)"

definition votequorum_exec_send_reconfigure :: "u8 \<Rightarrow> u32 \<Rightarrow> u32 \<Rightarrow> vq_state \<Rightarrow> int \<times> vq_state" where
  "votequorum_exec_send_reconfigure param nodeid value s =
     mcast (ExecReconfigure \<lparr>rc_nodeid = nodeid, rc_value = value, rc_param = param\<rparr>) s"

definition votequorum_exec_send_nodeinfo :: "u32 \<Rightarrow> vq_state \<Rightarrow> int \<times> vq_state" where
  "votequorum_exec_send_nodeinfo nodeid s =
     (case find_node_by_nodeid nodeid s of
        None \<Rightarrow> (- 1, s)
      | Some i \<Rightarrow>
          let node = node_at s i
          in mcast (ExecNodeinfo \<lparr>ni_nodeid = nodeid, ni_votes = votes node,
               ni_expected_votes = expected_votes node, ni_flags = flags node\<rparr>) s)"

text \<open>The names are copied into fields of \<open>VOTEQUORUM_QDEVICE_MAX_NAME_LEN\<close> bytes.\<close>

definition votequorum_exec_send_qdevice_reconfigure ::
  "string \<Rightarrow> string \<Rightarrow> vq_state \<Rightarrow> (int \<times> vq_state) c_result" where
  "votequorum_exec_send_qdevice_reconfigure oldname newname s =
     bindE (assertE (length oldname < VOTEQUORUM_QDEVICE_MAX_NAME_LEN)) (\<lambda>_.
     bindE (assertE (length newname < VOTEQUORUM_QDEVICE_MAX_NAME_LEN)) (\<lambda>_.
       Inr (mcast (ExecQdeviceReconfigure \<lparr>qc_oldname = oldname, qc_newname = newname\<rparr>) s)))"

definition votequorum_exec_send_qdevice_reg ::
  "u32 \<Rightarrow> string \<Rightarrow> vq_state \<Rightarrow> (int \<times> vq_state) c_result" where
  "votequorum_exec_send_qdevice_reg operation qdevice_name_req s =
     bindE (assertE (length qdevice_name_req < VOTEQUORUM_QDEVICE_MAX_NAME_LEN)) (\<lambda>_.
       Inr (mcast (ExecQdeviceReg \<lparr>qr_operation = operation, qr_qdevice_name = qdevice_name_req\<rparr>) s))"

definition votequorum_exec_send_set_qdevice_extra_info :: "u32 \<Rightarrow> vq_state \<Rightarrow> vq_state" where
  "votequorum_exec_send_set_qdevice_extra_info nodeid s =
     (case find_node_by_nodeid nodeid s of
        None \<Rightarrow> s
      | Some i \<Rightarrow>
          let node = node_at s i;
              set = has_flag (flags node) NODE_FLAGS_QDEVICE_EXTRA_INFO_SET
          in snd (mcast (ExecQdeviceExtraNodeinfo
               \<lparr>ex_nodeid = nodeid, ex_ei_size = (if set then ei_size node else 0),
                ex_extra_info = (if set then take (unat (ei_size node)) (extra_nodeinfo node) else [])\<rparr>) s))"

definition fill_extra_info_notification :: "cluster_node \<Rightarrow> u64 \<Rightarrow> lib_msg" where
  "fill_extra_info_notification node ctx =
     (if has_flag (flags node) NODE_FLAGS_QDEVICE_EXTRA_INFO_SET
      then ExtraInfoNotification ctx (node_id node) (ei_size node)
             (take (unat (ei_size node)) (extra_nodeinfo node))
      else ExtraInfoNotification ctx (node_id node) 0 [])"

definition votequorum_exec_send_all_qdevice_extra_info_notification ::
  "conn \<Rightarrow> u64 \<Rightarrow> vq_state \<Rightarrow> vq_state" where
  "votequorum_exec_send_all_qdevice_extra_info_notification conn context s =
     fold (\<lambda>node s. if has_flag (flags node) NODE_FLAGS_QDEVICE_EXTRA_INFO_SET
                    then emit (IpcDispatch conn (fill_extra_info_notification node context)) s else s)
       (listed s) s"

definition votequorum_exec_send_qdevice_extra_info_notification :: "u32 \<Rightarrow> vq_state \<Rightarrow> vq_state" where
  "votequorum_exec_send_qdevice_extra_info_notification nodeid s =
     (case find_node_by_nodeid nodeid s of
        None \<Rightarrow> s
      | Some i \<Rightarrow> notify None 0 (fill_extra_info_notification (node_at s i)) s)"

end
