(* ===== verification/Vq_Config.thy ===== *)
theory Vq_Config
  imports Vq_Send
begin

text \<open>
  The configuration of \<^verbatim>\<open>exec/votequorum.c\<close>: the tie-breaker string, the node list, the quorum device
  section, the start-up and run-time reading of all of it, and the reaction to changes of the
  configuration map.

  The order in which the map's iterator returns the keys with a given prefix is the argument
  \<open>iter\<close>, a function of the contents of the map.
\<close>

type_synonym icmap_iter = "(string \<rightharpoonup> icmap_value) \<Rightarrow> string \<Rightarrow> string list"

definition get_u8 :: "string \<Rightarrow> u8 \<Rightarrow> vq_state \<Rightarrow> u8" where
  "get_u8 k old s = (case icmap_get_uint8 k s of Some v \<Rightarrow> v | None \<Rightarrow> old)"

definition get_u32 :: "string \<Rightarrow> u32 \<Rightarrow> vq_state \<Rightarrow> u32" where
  "get_u32 k old s = (case icmap_get_uint32 k s of Some v \<Rightarrow> v | None \<Rightarrow> old)"

section \<open>The tie breaker string\<close>

fun atb_type :: "atb \<Rightarrow> u32" where
  "atb_type ATB_NONE = 0"
| "atb_type ATB_LOWEST = 1"
| "atb_type ATB_HIGHEST = 2"
| "atb_type ATB_LIST = 3"

definition set_atb_type :: "vq_state \<Rightarrow> vq_state" where
  "set_atb_type s = icmap_set_uint32 ''runtime.votequorum.atb_type'' (atb_type (auto_tie_breaker s)) s"

text \<open>The loop over the numbers of the string, storing into the array \<open>atb_nodelist\<close>.\<close>

function atb_scan :: "string \<Rightarrow> u32 list \<Rightarrow> u32 list c_result" where
  "atb_scan ptr acc =
     (let (num, rest) = strtol10 ptr
      in if num \<noteq> 0
         then if length acc < PROCESSOR_COUNT_MAX then atb_scan rest (acc @ [word_of_int num])
              else Inl OutOfBounds
         else Inr acc)"
  by pat_completeness auto
termination
  by (relation "measure (\<lambda>(ptr, acc). length ptr)") (auto intro: strtol10_consumes dest: sym)

declare atb_scan.simps [simp del]

definition parse_atb_string :: "string \<Rightarrow> vq_state \<Rightarrow> vq_state c_result" where
  "parse_atb_string atb_string s =
     (let s1 = s\<lparr>auto_tie_breaker :=
                  (if atb_string = ''highest'' then ATB_HIGHEST
                   else if atb_string = ''lowest'' then ATB_LOWEST else ATB_NONE)\<rparr>
      in bindE (if atoi atb_string \<noteq> 0
                then bindE (atb_scan atb_string []) (\<lambda>l.
                       Inr (s1\<lparr>atb_nodelist := l,
                               auto_tie_breaker := (if l \<noteq> [] then ATB_LIST else auto_tie_breaker s1)\<rparr>))
                else Inr s1) (\<lambda>s2. Inr (set_atb_type s2)))"

section \<open>The node list\<close>

text \<open>\<^verbatim>\<open>sscanf (key, "nodelist.node.%u.%s", ...)\<close> with result 2.\<close>

definition scan_node_key :: "string \<Rightarrow> u32 option" where
  "scan_node_key key =
     (if take 14 key = ''nodelist.node.''
      then case scan_u (drop 14 key) of
             Some (n, CHR ''.'' # rest) \<Rightarrow> if dropWhile c_isspace rest \<noteq> [] then Some n else None
           | _ \<Rightarrow> None
      else None)"

definition quorum_votes_key :: "u32 \<Rightarrow> string" where
  "quorum_votes_key pos = ''nodelist.node.'' @ dec_string (unat pos) @ ''.quorum_votes''"

text \<open>
  The loop over the keys; the accumulator holds \<open>last_node_pos\<close>, \<open>votes\<close>, \<open>nodecount\<close> and
  \<open>nodelist_expected_votes\<close>.
\<close>

fun nodelist_loop ::
  "u32 \<Rightarrow> vq_state \<Rightarrow> string list \<Rightarrow> u32 \<times> u32 \<times> u32 \<times> u32 \<Rightarrow> u32 \<times> u32 \<times> u32 \<times> u32" where
  "nodelist_loop our_pos s [] acc = acc"
| "nodelist_loop our_pos s (key # keys) (last_node_pos, our_votes, nodecount, expected) =
     (case scan_node_key key of
        None \<Rightarrow> nodelist_loop our_pos s keys (last_node_pos, our_votes, nodecount, expected)
      | Some node_pos \<Rightarrow>
          if last_node_pos = node_pos
          then nodelist_loop our_pos s keys (last_node_pos, our_votes, nodecount, expected)
          else let node_votes = get_u32 (quorum_votes_key node_pos) 1 s
               in nodelist_loop our_pos s keys
                    (node_pos, if node_pos = our_pos then node_votes else our_votes,
                     nodecount + 1, expected + node_votes))"

text \<open>Arguments and results by reference: \<open>votes\<close>, \<open>nodes\<close>, \<open>expected_votes\<close>.\<close>

definition votequorum_read_nodelist_configuration ::
  "icmap_iter \<Rightarrow> vq_state \<Rightarrow> u32 \<times> u32 \<times> u32 \<Rightarrow> bool \<times> u32 \<times> u32 \<times> u32" where
  "votequorum_read_nodelist_configuration iter s out =
     (case icmap_get_uint32 ''nodelist.local_node_pos'' s of
        None \<Rightarrow> (False, out)
      | Some our_pos \<Rightarrow>
          let (_, our_votes, nodecount, expected) =
                nodelist_loop our_pos s (iter (icmap s) ''nodelist.node.'') (- 1, fst out, 0, 0)
          in (True, our_votes, nodecount, expected))"

definition votequorum_qdevice_is_configured :: "u32 \<Rightarrow> vq_state \<Rightarrow> bool \<times> u32 \<times> vq_state" where
  "votequorum_qdevice_is_configured qdevice_votes s =
     (case icmap_get_string ''quorum.device.model'' s of
        None \<Rightarrow> (False, qdevice_votes, s)
      | Some qdevice_model \<Rightarrow>
          if length qdevice_model \<noteq> 0
          then (True, get_u32 ''quorum.device.votes'' (- 1) s,
                update_qdevice_can_operate 1
                  (s\<lparr>qdevice_timeout := get_u32 ''quorum.device.timeout'' VOTEQUORUM_QDEVICE_DEFAULT_TIMEOUT s,
                     qdevice_sync_timeout :=
                       get_u32 ''quorum.device.sync_timeout'' VOTEQUORUM_QDEVICE_DEFAULT_SYNC_TIMEOUT s\<rparr>))
          else (False, qdevice_votes, s))"

section \<open>Reading the configuration\<close>

text \<open>
  The result is the error string (\<open>None\<close> for the null pointer) and the state.
  \<open>cfg_incompatible\<close> is the pattern of the checks: at start-up an error is returned, at run time
  the quorum device is disabled and the function goes on.
\<close>

type_synonym cfg_result = "(string option \<times> vq_state) c_result"

definition cfg_incompatible ::
  "bool \<Rightarrow> bool \<Rightarrow> string \<Rightarrow> vq_state \<Rightarrow> (vq_state \<Rightarrow> cfg_result) \<Rightarrow> cfg_result" where
  "cfg_incompatible runtime bad msg s k =
     (if bad then if \<not> runtime then Inr (Some msg, s) else k (update_qdevice_can_operate 0 s)
      else k s)"

text \<open>The features that are only read at start-up: flags, tie breaker, tracking of the expectation.\<close>

definition readconfig_flags :: "vq_state \<Rightarrow> vq_state" where
  "readconfig_flags s =
     (let s1 = s\<lparr>allow_downscale := get_u8 ''quorum.allow_downscale'' (allow_downscale s) s\<rparr>;
          s2 = (case icmap_get_uint8 ''quorum.wait_for_all'' s1 of
                  Some v \<Rightarrow> s1\<lparr>wait_for_all := v\<rparr> | None \<Rightarrow> s1\<lparr>wait_for_all_autoset := 1\<rparr>)
      in s2\<lparr>last_man_standing := get_u8 ''quorum.last_man_standing'' (last_man_standing s2) s2,
            last_man_standing_window :=
              get_u32 ''quorum.last_man_standing_window'' (last_man_standing_window s2) s2,
            ev_tracking := get_u8 ''quorum.expected_votes_tracking'' (ev_tracking s2) s2\<rparr>)"

definition readconfig_atb :: "vq_state \<Rightarrow> vq_state c_result" where
  "readconfig_atb s =
     (let atb = get_u8 ''quorum.auto_tie_breaker'' 0 s;
          atb_string = icmap_get_string ''quorum.auto_tie_breaker_node'' s;
          s1 = (if atb \<noteq> 0 then set_atb_type (s\<lparr>auto_tie_breaker := ATB_LOWEST\<rparr>)
                else s\<lparr>auto_tie_breaker := ATB_NONE\<rparr>)
      in bindE (case atb_string of
                  Some str \<Rightarrow> if atb \<noteq> 0 then parse_atb_string str s1 else Inr s1
                | None \<Rightarrow> Inr s1) (\<lambda>s2.
           Inr (s2\<lparr>initial_auto_tie_breaker := auto_tie_breaker s2\<rparr>)))"

definition readconfig_tracking :: "vq_state \<Rightarrow> bool \<times> vq_state" where
  "readconfig_tracking s =
     (let s1 = (if allow_downscale s \<noteq> 0 then s\<lparr>ev_tracking := 1\<rparr> else s)
      in if ev_tracking s1 \<noteq> 0
         then let (res, s2) = load_ev_tracking_barrier s1
              in if res < 0 then (False, s2)
                 else (True, update_ev_tracking_barrier (ev_tracking_barrier s2) s2)
         else (True, s1))"

definition readconfig_features :: "vq_state \<Rightarrow> (bool \<times> vq_state) c_result" where
  "readconfig_features s =
     bindE (readconfig_atb (readconfig_flags s)) (\<lambda>s1. Inr (readconfig_tracking s1))"

text \<open>The last part: the votes and expectations are put in force.\<close>

definition apply_our_votes :: "bool \<Rightarrow> u32 \<Rightarrow> u32 \<Rightarrow> u32 \<Rightarrow> vq_state \<Rightarrow> vq_state" where
  "apply_our_votes have_nodelist node_votes node_expected_votes ev s =
     (let s1 = (if have_nodelist
                then us_upd (\<lambda>n. n\<lparr>votes := node_votes, expected_votes := node_expected_votes\<rparr>) s
                else us_upd (\<lambda>n. n\<lparr>votes := get_u32 ''quorum.votes'' 1 s\<rparr>) s)
      in if ev \<noteq> 0 then us_upd (\<lambda>n. n\<lparr>expected_votes := ev\<rparr>) s1 else s1)"

definition apply_qdevice_votes :: "bool \<Rightarrow> u32 \<Rightarrow> vq_state \<Rightarrow> vq_state" where
  "apply_qdevice_votes have_qdevice qdevice_votes s =
     (let s1 = (if \<not> have_qdevice then node_upd (qdevice s) (\<lambda>n. n\<lparr>votes := 0\<rparr>) s else s)
      in if qdevice_votes \<noteq> - 1 then node_upd (qdevice s1) (\<lambda>n. n\<lparr>votes := qdevice_votes\<rparr>) s1 else s1)"

definition apply_wait_for_all :: "bool \<Rightarrow> vq_state \<Rightarrow> vq_state" where
  "apply_wait_for_all runtime s =
     (if wait_for_all s \<noteq> 0
      then if \<not> runtime then update_wait_for_all_status 1 s else s
      else if wait_for_all_autoset s \<noteq> 0 \<and> wait_for_all_status s \<noteq> 0
      then update_wait_for_all_status 0 s else s)"

definition readconfig_apply ::
  "bool \<Rightarrow> bool \<Rightarrow> bool \<Rightarrow> u32 \<Rightarrow> u32 \<Rightarrow> u32 \<Rightarrow> u32 \<Rightarrow> u32 \<Rightarrow> vq_state \<Rightarrow> cfg_result" where
  "readconfig_apply runtime have_nodelist have_qdevice node_votes node_count
       node_expected_votes0 cfg_expected qdevice_votes0 s =
     (let auto = (have_qdevice \<and> qdevice_votes0 = - 1 \<and> cfg_expected = 0 \<and> have_nodelist \<and>
                  node_count = node_expected_votes0);
          qdevice_votes = (if auto then node_expected_votes0 - 1 else qdevice_votes0);
          node_expected_votes = (if auto then node_expected_votes0 + qdevice_votes else node_expected_votes0);
          ev = (if ev_tracking s \<noteq> 0 then ev_tracking_barrier s else cfg_expected);
          s1 = apply_qdevice_votes have_qdevice qdevice_votes
                 (apply_our_votes have_nodelist node_votes node_expected_votes ev s);
          s2 = update_two_node (update_ev_barrier (expected_votes (us_node s1)) s1)
      in Inr (None, apply_wait_for_all runtime s2))"

text \<open>The middle part: features that exclude each other.\<close>

definition readconfig_verify ::
  "bool \<Rightarrow> bool \<Rightarrow> bool \<Rightarrow> u32 \<Rightarrow> u32 \<Rightarrow> u32 \<Rightarrow> u32 \<Rightarrow> u32 \<Rightarrow> vq_state \<Rightarrow> cfg_result" where
  "readconfig_verify runtime have_nodelist have_qdevice node_votes node_count
       node_expected_votes cfg_expected qdevice_votes s =
     (let s1 = (if wait_for_all_autoset s \<noteq> 0 then s\<lparr>wait_for_all := two_node s\<rparr> else s);
          s2 = (if two_node s1 \<noteq> 0 \<and> auto_tie_breaker s1 \<noteq> ATB_NONE then s1\<lparr>two_node := 0\<rparr> else s1)
      in if auto_tie_breaker s2 \<noteq> ATB_NONE \<and> node_expected_votes mod 2 \<noteq> 0 \<and> wait_for_all s2 = 0 \<and>
            last_man_standing s2 \<noteq> 0
         then Inr (Some ''configuration error: auto_tie_breaker & last_man_standing not available in odd sized cluster'', s2)
         else
           let s3 = (if auto_tie_breaker s2 \<noteq> ATB_NONE \<and> node_expected_votes mod 2 \<noteq> 0 \<and> wait_for_all s2 = 0
                     then set_atb_type (s2\<lparr>auto_tie_breaker := ATB_NONE\<rparr>) else s2)
           in cfg_incompatible runtime (have_qdevice \<and> last_man_standing s3 \<noteq> 0)
                ''configuration error: quorum.device is not compatible with last_man_standing'' s3
             (\<lambda>s4. cfg_incompatible runtime (have_qdevice \<and> auto_tie_breaker s4 \<noteq> ATB_NONE)
                ''configuration error: quorum.device is not compatible with auto_tie_breaker'' s4
             (\<lambda>s5. cfg_incompatible runtime (have_qdevice \<and> allow_downscale s5 \<noteq> 0)
                ''configuration error: quorum.device is not compatible with allow_downscale'' s5
             (\<lambda>s6. cfg_incompatible runtime (cfg_expected \<noteq> 0 \<and> have_qdevice \<and> qdevice_votes = - 1)
                ''configuration error: quorum.device.votes must be specified when quorum.expected_votes is set'' s6
             (\<lambda>s7. cfg_incompatible runtime (have_qdevice \<and> qdevice_votes = - 1 \<and> have_nodelist \<and>
                                             node_count \<noteq> node_expected_votes)
                ''configuration error: quorum.device.votes must be specified when not all nodes votes 1'' s7
             (\<lambda>s8. cfg_incompatible runtime (qdevice_votes > 0 \<and> cfg_expected \<noteq> 0 \<and>
                                             sint (cfg_expected - qdevice_votes) < 2)
                ''configuration error: quorum.device.votes is too high or expected_votes is too low'' s8
             (\<lambda>s9. readconfig_apply runtime have_nodelist have_qdevice node_votes node_count
                     node_expected_votes cfg_expected qdevice_votes s9)))))))"

definition votequorum_readconfig :: "icmap_iter \<Rightarrow> bool \<Rightarrow> vq_state \<Rightarrow> cfg_result" where
  "votequorum_readconfig iter runtime s =
     (let s1 = (if runtime
                then set_atb_type (s\<lparr>two_node := 0, auto_tie_breaker := initial_auto_tie_breaker s\<rparr>) else s);
          cfg_expected = get_u32 ''quorum.expected_votes'' 0 s1;
          (have_nodelist, node_votes, node_count, node_expected_votes) =
            votequorum_read_nodelist_configuration iter s1 (0, 0, 0);
          (have_qdevice, qdevice_votes, s2) = votequorum_qdevice_is_configured 0 s1;
          s3 = s2\<lparr>two_node := get_u8 ''quorum.two_node'' (two_node s2) s2\<rparr>
      in if \<not> have_nodelist \<and> cfg_expected = 0
         then if \<not> runtime
              then Inr (Some ''configuration error: nodelist or quorum.expected_votes must be configured!'', s3)
              else Inr (None, s3)
         else if two_node s3 \<noteq> 0 \<and> have_qdevice \<and> \<not> runtime
         then Inr (Some ''configuration error: two_node and quorum device cannot be configured at the same time!'', s3)
         else
           let s4 = (if two_node s3 \<noteq> 0 \<and> have_qdevice
                     then if has_flag (flags (us_node s3)) NODE_FLAGS_QDEVICE_REGISTERED
                          then s3\<lparr>two_node := 0\<rparr> else update_qdevice_can_operate 0 s3
                     else s3)
           in bindE (if \<not> runtime then readconfig_features s4 else Inr (True, s4)) (\<lambda>(ok, s5).
                if \<not> ok then Inr (Some ''Unable to load ev_tracking file!'', s5)
                else readconfig_verify runtime have_nodelist have_qdevice node_votes node_count
                       node_expected_votes cfg_expected qdevice_votes s5))"

section \<open>Configuration changes\<close>

text \<open>The last part of \<open>votequorum_refresh_config\<close>: reload and tell the others.\<close>

definition refresh_reload :: "icmap_iter \<Rightarrow> vq_state \<Rightarrow> vq_state c_result" where
  "refresh_reload iter s =
     (let old_votes = votes (us_node s); old_expected_votes = expected_votes (us_node s)
      in bindE (votequorum_readconfig iter True s) (\<lambda>(_, s1).
           let (_, s2) = votequorum_exec_send_nodeinfo (node_id (us_node s1)) s1;
               (_, s3) = votequorum_exec_send_nodeinfo VOTEQUORUM_QDEVICE_NODEID s2;
               s4 = (if votes (us_node s3) \<noteq> old_votes
                     then snd (votequorum_exec_send_reconfigure VOTEQUORUM_RECONFIG_PARAM_NODE_VOTES
                            (node_id (us_node s3)) (votes (us_node s3)) s3)
                     else s3);
               s5 = (if expected_votes (us_node s4) \<noteq> old_expected_votes
                     then snd (votequorum_exec_send_reconfigure VOTEQUORUM_RECONFIG_PARAM_EXPECTED_VOTES
                            (node_id (us_node s4)) (expected_votes (us_node s4)) s4)
                     else s4)
           in Inr s5))"

text \<open>
  The callback of the map. \<open>cancel_wfa\<close> is not initialised in the code: \<open>junk\<close> is the value it has
  when the key is absent. Setting the key back to 0 is itself a change of a tracked key: \<open>notified\<close>
  is what the nested callback does.
\<close>

definition refresh_config_step ::
  "icmap_iter \<Rightarrow> u8 \<Rightarrow> (string \<Rightarrow> vq_state \<Rightarrow> vq_state c_result) \<Rightarrow> string \<Rightarrow> vq_state \<Rightarrow> vq_state c_result" where
  "refresh_config_step iter junk notified key_name s =
     (if (case icmap_get_uint8 ''config.totemconfig_reload_in_progress'' s of
            Some reloading \<Rightarrow> reloading \<noteq> 0 | None \<Rightarrow> False)
      then Inr s
      else if key_name = ''config.totemconfig_reload_in_progress'' \<and>
              (case icmap_get_int32 ''config.reload_status'' s of
                 Some reload_status \<Rightarrow> reload_status \<noteq> 1 | None \<Rightarrow> False)
      then Inr s
      else
        let cancel_wfa = get_u8 ''quorum.cancel_wait_for_all'' junk s
        in if key_name = ''quorum.cancel_wait_for_all'' \<and> cancel_wfa \<ge> 1
           then bindE (notified key_name (icmap_set_uint8 ''quorum.cancel_wait_for_all'' 0 s)) (\<lambda>s1.
                  Inr (snd (votequorum_exec_send_reconfigure VOTEQUORUM_RECONFIG_PARAM_CANCEL_WFA
                              (node_id (us_node s1)) 0 s1)))
           else refresh_reload iter s)"

definition votequorum_refresh_config :: "icmap_iter \<Rightarrow> u8 \<Rightarrow> string \<Rightarrow> vq_state \<Rightarrow> vq_state c_result" where
  "votequorum_refresh_config iter junk =
     refresh_config_step iter junk (refresh_config_step iter junk (\<lambda>_ s. Inr s))"

definition votequorum_exec_add_config_notification :: "vq_state \<Rightarrow> vq_state" where
  "votequorum_exec_add_config_notification s =
     emit (IcmapTrackAdd ''config.totemconfig_reload_in_progress'')
       (emit (IcmapTrackAdd ''quorum.'') (emit (IcmapTrackAdd ''nodelist.'') s))"

definition votequorum_set_icmap_ro_keys :: "vq_state \<Rightarrow> vq_state" where
  "votequorum_set_icmap_ro_keys s =
     fold (\<lambda>k. emit (IcmapSetRo k))
       [''quorum.allow_downscale'', ''quorum.wait_for_all'', ''quorum.last_man_standing'',
        ''quorum.last_man_standing_window'', ''quorum.expected_votes_tracking'',
        ''quorum.auto_tie_breaker'', ''quorum.auto_tie_breaker_node''] s"

end
