(* ===== verification/Swab.thy ===== *)
theory Swab
  imports Prelude
begin

text \<open>
  The byte swaps of \<^verbatim>\<open>include/corosync/swab.h\<close>, with which messages of nodes of the other byte
  order are converted.
\<close>

definition swab16 :: "u16 \<Rightarrow> u16" where
  "swab16 x = push_bit 8 (x AND 0x00ff) OR drop_bit 8 (x AND 0xff00)"

definition swab32 :: "u32 \<Rightarrow> u32" where
  "swab32 x = push_bit 24 (x AND 0x000000ff) OR push_bit 8 (x AND 0x0000ff00) OR
              drop_bit 8 (x AND 0x00ff0000) OR drop_bit 24 (x AND 0xff000000)"

definition swab64 :: "u64 \<Rightarrow> u64" where
  "swab64 x =
     push_bit 56 (x AND 0x00000000000000ff) OR push_bit 40 (x AND 0x000000000000ff00) OR
     push_bit 24 (x AND 0x0000000000ff0000) OR push_bit 8 (x AND 0x00000000ff000000) OR
     drop_bit 8 (x AND 0x000000ff00000000) OR drop_bit 24 (x AND 0x0000ff0000000000) OR
     drop_bit 40 (x AND 0x00ff000000000000) OR drop_bit 56 (x AND 0xff00000000000000)"

text \<open>The masks of the macros as the bits they select.\<close>

lemma byte_masks16: "(0x00ff :: u16) = mask 8" "(0xff00 :: u16) = push_bit 8 (mask 8)"
  by (simp_all add: mask_eq_exp_minus_1 push_bit_eq_mult)

lemma byte_masks32:
  "(0x000000ff :: u32) = mask 8" "(0x0000ff00 :: u32) = push_bit 8 (mask 8)"
  "(0x00ff0000 :: u32) = push_bit 16 (mask 8)" "(0xff000000 :: u32) = push_bit 24 (mask 8)"
  by (simp_all add: mask_eq_exp_minus_1 push_bit_eq_mult)

lemma byte_masks64:
  "(0x00000000000000ff :: u64) = push_bit 0 (mask 8)" "(0x000000000000ff00 :: u64) = push_bit 8 (mask 8)"
  "(0x0000000000ff0000 :: u64) = push_bit 16 (mask 8)"
  "(0x00000000ff000000 :: u64) = push_bit 24 (mask 8)"
  "(0x000000ff00000000 :: u64) = push_bit 32 (mask 8)"
  "(0x0000ff0000000000 :: u64) = push_bit 40 (mask 8)"
  "(0x00ff000000000000 :: u64) = push_bit 48 (mask 8)"
  "(0xff00000000000000 :: u64) = push_bit 56 (mask 8)"
  by (simp_all add: mask_eq_exp_minus_1 push_bit_eq_mult)

lemma bit_push_byte:
  "bit (push_bit k (x AND push_bit m (mask 8)) :: u64) n \<longleftrightarrow>
     n < 64 \<and> m + k \<le> n \<and> n < m + k + 8 \<and> bit x (n - k)"
  by (auto simp: bit_simps)

lemma bit_drop_byte:
  "bit (drop_bit k (x AND push_bit m (mask 8)) :: u64) n \<longleftrightarrow>
     m \<le> n + k \<and> n + k < m + 8 \<and> n + k < 64 \<and> bit x (n + k)"
  by (auto simp: bit_simps add.commute)

text \<open>Bit \<open>n\<close> of the result is the same bit of the mirrored byte.\<close>

lemma bit_swab16: "bit (swab16 x) n \<longleftrightarrow> n < 16 \<and> bit x (if n < 8 then n + 8 else n - 8)"
  unfolding swab16_def byte_masks16 by (auto simp: bit_simps add.commute)

lemma bit_swab32:
  "bit (swab32 x) n \<longleftrightarrow> n < 32 \<and>
     bit x (if n < 8 then n + 24 else if n < 16 then n + 8 else if n < 24 then n - 8 else n - 24)"
  unfolding swab32_def byte_masks32 by (auto simp: bit_simps add.commute)

lemma bit_swab64:
  "bit (swab64 x) n \<longleftrightarrow> n < 64 \<and>
     bit x (if n < 8 then n + 56 else if n < 16 then n + 40 else if n < 24 then n + 24
            else if n < 32 then n + 8 else if n < 40 then n - 8 else if n < 48 then n - 24
            else if n < 56 then n - 40 else n - 56)"
  unfolding swab64_def byte_masks64 bit_or_iff bit_push_byte bit_drop_byte by simp

lemma swab16_swab16 [simp]: "swab16 (swab16 x) = x"
  by (rule bit_word_eqI) (auto simp: bit_swab16)

lemma swab32_swab32 [simp]: "swab32 (swab32 x) = x"
  by (rule bit_word_eqI) (auto simp: bit_swab32)

lemma swab64_swab64 [simp]: "swab64 (swab64 x) = x"
  by (rule bit_word_eqI) (auto simp: bit_swab64)

end
