(* ===== verification/Vq_Exec.thy ===== *)
theory Vq_Exec
  imports Vq_Config Swab
begin

text \<open>
  The executive part of \<^verbatim>\<open>exec/votequorum.c\<close>: the handlers of the messages between nodes, start and
  exit of the service, the timers and the synchronisation after a membership change.
\<close>

section \<open>Byte order\<close>

definition exec_votequorum_nodeinfo_endian_convert ::
  "req_exec_quorum_nodeinfo \<Rightarrow> req_exec_quorum_nodeinfo" where
  "exec_votequorum_nodeinfo_endian_convert m =
     m\<lparr>ni_nodeid := swab32 (ni_nodeid m), ni_votes := swab32 (ni_votes m),
       ni_expected_votes := swab32 (ni_expected_votes m), ni_flags := swab32 (ni_flags m)\<rparr>"

definition exec_votequorum_reconfigure_endian_convert ::
  "req_exec_quorum_reconfigure \<Rightarrow> req_exec_quorum_reconfigure" where
  "exec_votequorum_reconfigure_endian_convert m =
     m\<lparr>rc_nodeid := swab32 (rc_nodeid m), rc_value := swab32 (rc_value m)\<rparr>"

definition exec_votequorum_qdevice_reg_endian_convert ::
  "req_exec_quorum_qdevice_reg \<Rightarrow> req_exec_quorum_qdevice_reg" where
  "exec_votequorum_qdevice_reg_endian_convert m = m\<lparr>qr_operation := swab32 (qr_operation m)\<rparr>"

definition exec_votequorum_qdevice_reconfigure_endian_convert ::
  "req_exec_quorum_qdevice_reconfigure \<Rightarrow> req_exec_quorum_qdevice_reconfigure" where
  "exec_votequorum_qdevice_reconfigure_endian_convert m = m"

definition exec_votequorum_qdevice_set_extra_info_endian_convert ::
  "req_exec_quorum_qdevice_set_extra_info \<Rightarrow> req_exec_quorum_qdevice_set_extra_info" where
  "exec_votequorum_qdevice_set_extra_info_endian_convert m =
     m\<lparr>ex_ei_size := swab32 (ex_ei_size m), ex_nodeid := swab32 (ex_nodeid m)\<rparr>"

section \<open>Quorum device names\<close>

text \<open>
  \<^verbatim>\<open>strcpy\<close> into \<open>qdevice_name\<close>, and \<^verbatim>\<open>strncmp\<close> up to the size of a name. A name that fills its field
  without a terminating zero is a string of that length or more.
\<close>

definition set_qdevice_name :: "string \<Rightarrow> vq_state \<Rightarrow> vq_state c_result" where
  "set_qdevice_name name s =
     (if length name < VOTEQUORUM_QDEVICE_MAX_NAME_LEN then Inr (s\<lparr>qdevice_name := name\<rparr>)
      else Inl OutOfBounds)"

definition same_name :: "string \<Rightarrow> string \<Rightarrow> bool" where
  "same_name a b \<longleftrightarrow> take VOTEQUORUM_QDEVICE_MAX_NAME_LEN a = take VOTEQUORUM_QDEVICE_MAX_NAME_LEN b"

definition message_handler_req_exec_votequorum_qdevice_reconfigure ::
  "req_exec_quorum_qdevice_reconfigure \<Rightarrow> u32 \<Rightarrow> vq_state \<Rightarrow> vq_state c_result" where
  "message_handler_req_exec_votequorum_qdevice_reconfigure m nodeid s =
     (if qc_oldname m = qdevice_name s then set_qdevice_name (qc_newname m) s else Inr s)"

definition message_handler_req_exec_votequorum_qdevice_reg ::
  "req_exec_quorum_qdevice_reg \<Rightarrow> u32 \<Rightarrow> vq_state \<Rightarrow> vq_state c_result" where
  "message_handler_req_exec_votequorum_qdevice_reg m nodeid s =
     (if qr_operation m = VOTEQUORUM_QDEVICE_OPERATION_REGISTER
      then if nodeid \<noteq> node_id (us_node s)
           then if qdevice_name s = [] then set_qdevice_name (qr_qdevice_name m) s else Inr s
           else if has_flag (flags (us_node s)) NODE_FLAGS_QDEVICE_REGISTERED then Inr s
           else case qdevice_reg_conn s of
                  None \<Rightarrow> Inr s
                | Some conn \<Rightarrow>
                    bindE (if qdevice_name s = [] then set_qdevice_name (qr_qdevice_name m) s else Inr s) (\<lambda>s1.
                      let (error, s2) =
                            (if same_name (qr_qdevice_name m) (qdevice_name s1)
                             then let s2 = us_flags_upd (set_flag NODE_FLAGS_QDEVICE_REGISTERED) s1;
                                      (_, s3) = votequorum_exec_send_nodeinfo VOTEQUORUM_QDEVICE_NODEID s2;
                                      (_, s4) = votequorum_exec_send_nodeinfo (node_id (us_node s3)) s3
                                  in (CS_OK, s4)
                             else (CS_ERR_EXIST, s1))
                      in Inr ((emit (IpcResponse conn (ResStatus error)) s2)\<lparr>qdevice_reg_conn := None\<rparr>))
      else if qr_operation m = VOTEQUORUM_QDEVICE_OPERATION_UNREGISTER
      then let wipe = fold (\<lambda>node wipe. if state node = NODESTATE_MEMBER \<and>
                                           has_flag (flags node) NODE_FLAGS_QDEVICE_REGISTERED
                                        then False else wipe) (listed s) True
           in Inr (if wipe then s\<lparr>qdevice_name := []\<rparr> else s)
      else Inr s)"

section \<open>Node information\<close>

text \<open>Last man standing is switched off by a node with more than one vote.\<close>

definition nodeinfo_check_lms :: "nat \<Rightarrow> vq_state \<Rightarrow> vq_state" where
  "nodeinfo_check_lms i s =
     (if last_man_standing s \<noteq> 0 \<and> votes (node_at s i) > 1
      then let s1 = s\<lparr>last_man_standing := 0\<rparr>
           in if last_man_standing_timer_set s1
              then (emit (TimerDelete LastManStandingTimer) s1)\<lparr>last_man_standing_timer_set := False\<rparr>
              else s1
      else s)"

text \<open>The message applied to the node it is about: result are \<open>allow_downgrade\<close>, \<open>by_node\<close>, state.\<close>

definition nodeinfo_update_node ::
  "req_exec_quorum_nodeinfo \<Rightarrow> nat \<Rightarrow> vq_state \<Rightarrow> bool \<times> bool \<times> vq_state" where
  "nodeinfo_update_node m i s =
     (let fl = ni_flags m;
          leaving = has_flag fl NODE_FLAGS_LEAVING;
          s1 = node_upd i (\<lambda>n. n\<lparr>flags := fl, votes := ni_votes m,
                                 state := (if leaving then NODESTATE_LEAVING else NODESTATE_MEMBER)\<rparr>) s;
          join = (cluster_is_quorate s1 = 0 \<and> has_flag fl NODE_FLAGS_QUORATE);
          s2 = (if join then us_upd (\<lambda>n. n\<lparr>expected_votes := ni_expected_votes m\<rparr>) s1 else s1);
          ev = (if has_flag fl NODE_FLAGS_QUORATE \<or> ev_tracking s2 \<noteq> 0 then ni_expected_votes m
                else expected_votes (us_node s2));
          s3 = node_upd i (\<lambda>n. n\<lparr>expected_votes := ev\<rparr>) s2
      in (leaving \<or> join, leaving, nodeinfo_check_lms i s3))"

definition message_handler_req_exec_votequorum_nodeinfo ::
  "req_exec_quorum_nodeinfo \<Rightarrow> u32 \<Rightarrow> vq_state \<Rightarrow> vq_state c_result" where
  "message_handler_req_exec_votequorum_nodeinfo m sender_nodeid s =
     (let nodeid = ni_nodeid m
      in bindE (case find_node_by_nodeid nodeid s of
                  Some i \<Rightarrow> Inr (Some i, s) | None \<Rightarrow> allocate_node nodeid s) (\<lambda>(node, s1).
           case node of
             None \<Rightarrow> Inr (emit ErrorMemoryFailure s1)
           | Some i \<Rightarrow>
               let new_node = (find_node_by_nodeid nodeid s = None);
                   old_votes = (if new_node then 0 else votes (node_at s1 i));
                   old_expected = (if new_node then 0 else expected_votes (node_at s1 i));
                   old_state = (if new_node then NODESTATE_DEAD else state (node_at s1 i));
                   old_flags = (if new_node then 0 else flags (node_at s1 i))
               in bindE (if nodeid = VOTEQUORUM_QDEVICE_NODEID
                         then case find_node_by_nodeid sender_nodeid s1 of
                                None \<Rightarrow> Inl AssertFailed
                              | Some j \<Rightarrow>
                                  Inr (False, False,
                                       if cluster_is_quorate s1 = 0 \<and> has_flag (flags (node_at s1 j)) NODE_FLAGS_QUORATE
                                       then node_upd i (\<lambda>n. n\<lparr>votes := ni_votes m\<rparr>) s1
                                       else node_upd i (\<lambda>n. n\<lparr>votes := c_max (votes n) (ni_votes m)\<rparr>) s1)
                         else Inr (nodeinfo_update_node m i s1)) (\<lambda>(allow_downgrade, by_node, s2).
                  bindE (if new_node \<or> nodeid = node_id (us_node s2) \<or>
                            has_flag (flags (node_at s2 i)) NODE_FLAGS_FIRST \<or>
                            old_votes \<noteq> votes (node_at s2 i) \<or> old_expected \<noteq> expected_votes (node_at s2 i) \<or>
                            old_flags \<noteq> flags (node_at s2 i) \<or> old_state \<noteq> state (node_at s2 i)
                         then recalculate_quorum allow_downgrade by_node s2 else Inr s2) (\<lambda>s3.
                    Inr (if wait_for_all s3 \<noteq> 0 \<and>
                            \<not> has_flag (flags (node_at s3 i)) NODE_FLAGS_WFASTATUS \<and>
                            has_flag (flags (node_at s3 i)) NODE_FLAGS_QUORATE
                         then update_wait_for_all_status 0 s3 else s3)))))"

definition message_handler_req_exec_votequorum_reconfigure ::
  "req_exec_quorum_reconfigure \<Rightarrow> u32 \<Rightarrow> vq_state \<Rightarrow> vq_state c_result" where
  "message_handler_req_exec_votequorum_reconfigure m nodeid s =
     (if rc_param m = VOTEQUORUM_RECONFIG_PARAM_EXPECTED_VOTES
      then let s1 = votequorum_exec_send_expectedvotes_notification (update_node_expected_votes (rc_value m) s);
               s2 = update_ev_barrier (rc_value m) s1;
               s3 = (if ev_tracking s2 \<noteq> 0
                     then us_upd (\<lambda>n. n\<lparr>expected_votes := c_max (expected_votes n) (ev_tracking_barrier s2)\<rparr>) s2
                     else s2)
           in recalculate_quorum True False s3
      else if rc_param m = VOTEQUORUM_RECONFIG_PARAM_NODE_VOTES
      then case find_node_by_nodeid (rc_nodeid m) s of
             None \<Rightarrow> Inr s
           | Some i \<Rightarrow> recalculate_quorum True False (node_upd i (\<lambda>n. n\<lparr>votes := rc_value m\<rparr>) s)
      else if rc_param m = VOTEQUORUM_RECONFIG_PARAM_CANCEL_WFA
      then recalculate_quorum False False (update_wait_for_all_status 0 s)
      else Inr s)"

definition message_handler_req_exec_votequorum_qdevice_set_extra_info ::
  "req_exec_quorum_qdevice_set_extra_info \<Rightarrow> u32 \<Rightarrow> vq_state \<Rightarrow> vq_state" where
  "message_handler_req_exec_votequorum_qdevice_set_extra_info m nodeid s =
     (if ex_ei_size m > VOTEQUORUM_QDEVICE_EXTRA_NODEINFO_MAXSIZE then s
      else case find_node_by_nodeid nodeid s of
             None \<Rightarrow> s
           | Some i \<Rightarrow>
               votequorum_exec_send_qdevice_extra_info_notification nodeid
                 (if ex_ei_size m = 0
                  then node_upd i (\<lambda>n. n\<lparr>flags := clear_flag NODE_FLAGS_QDEVICE_EXTRA_INFO_SET (flags n),
                                         ei_size := 0\<rparr>) s
                  else node_upd i (\<lambda>n. n\<lparr>ei_size := ex_ei_size m,
                         extra_nodeinfo := take (unat (ex_ei_size m)) (ex_extra_info m) @
                                           drop (unat (ex_ei_size m)) (extra_nodeinfo n),
                         flags := set_flag NODE_FLAGS_QDEVICE_EXTRA_INFO_SET (flags n)\<rparr>) s))"

text \<open>The dispatch table of the messages, after conversion from the sender's byte order.\<close>

definition votequorum_exec_engine :: "exec_msg \<Rightarrow> u32 \<Rightarrow> vq_state \<Rightarrow> vq_state c_result" where
  "votequorum_exec_engine msg nodeid s =
     (case msg of
        ExecNodeinfo m \<Rightarrow> message_handler_req_exec_votequorum_nodeinfo m nodeid s
      | ExecReconfigure m \<Rightarrow> message_handler_req_exec_votequorum_reconfigure m nodeid s
      | ExecQdeviceReg m \<Rightarrow> message_handler_req_exec_votequorum_qdevice_reg m nodeid s
      | ExecQdeviceReconfigure m \<Rightarrow> message_handler_req_exec_votequorum_qdevice_reconfigure m nodeid s
      | ExecQdeviceExtraNodeinfo m \<Rightarrow> Inr (message_handler_req_exec_votequorum_qdevice_set_extra_info m nodeid s))"

section \<open>Start and exit\<close>

definition votequorum_exec_exit_fn :: "vq_state \<Rightarrow> int \<times> vq_state" where
  "votequorum_exec_exit_fn s =
     (let (ret, s1) = (if allow_downscale s \<noteq> 0
                       then let s0 = us_flags_upd (set_flag NODE_FLAGS_LEAVING) s
                            in votequorum_exec_send_nodeinfo (node_id (us_node s0)) s0
                       else (0, s));
          s2 = (if ev_tracking s1 \<noteq> 0 \<and> ev_tracking_fd s1 \<noteq> - 1
                then s1\<lparr>os := os_close (ev_tracking_fd s1) (os s1)\<rparr> else s1)
      in (ret, s2))"

text \<open>The first part of the start: a clean database with the quorum device and this node.\<close>

definition exec_init_nodes :: "vq_state \<Rightarrow> (string option \<times> vq_state) c_result" where
  "exec_init_nodes s0 =
     (let s = s0\<lparr>cluster_members_list := [], trackers_list := [],
                 cluster_nodes := replicate (PROCESSOR_COUNT_MAX + 2) node_zero\<rparr>
      in bindE (allocate_node VOTEQUORUM_QDEVICE_NODEID s) (\<lambda>(q, s1).
           case q of
             None \<Rightarrow> Inr (Some ''Could not allocate node.'', s1)
           | Some qi \<Rightarrow>
               let s2 = (node_upd qi (\<lambda>n. n\<lparr>votes := 0\<rparr>) (s1\<lparr>qdevice := qi\<rparr>))\<lparr>qdevice_name := []\<rparr>
               in bindE (allocate_node (totem_nodeid_get (corosync_api s2)) s2) (\<lambda>(u, s3).
                    case u of
                      None \<Rightarrow> Inr (Some ''Could not allocate node.'', s3)
                    | Some ui \<Rightarrow>
                        let s4 = s3\<lparr>us := ui\<rparr>;
                            s5 = icmap_set_uint32 ''runtime.votequorum.this_node_id'' (node_id (us_node s4)) s4
                        in Inr (None, us_upd (\<lambda>n. n\<lparr>state := NODESTATE_MEMBER, votes := 1,
                                                  flags := set_flag NODE_FLAGS_FIRST (flags n)\<rparr>) s5))))"

definition votequorum_exec_init_fn :: "icmap_iter \<Rightarrow> vq_state \<Rightarrow> (string option \<times> vq_state) c_result" where
  "votequorum_exec_init_fn iter s =
     bindE (exec_init_nodes s) (\<lambda>(error, s1).
       case error of
         Some e \<Rightarrow> Inr (Some e, s1)
       | None \<Rightarrow>
           bindE (votequorum_readconfig iter False s1) (\<lambda>(error, s2).
             case error of
               Some e \<Rightarrow> Inr (Some e, s2)
             | None \<Rightarrow>
                 bindE (recalculate_quorum False False s2) (\<lambda>s3.
                   let s4 = votequorum_exec_add_config_notification (votequorum_set_icmap_ro_keys s3)
                   in Inr (None, snd (votequorum_exec_send_nodeinfo (node_id (us_node s4)) s4)))))"

text \<open>
  The entry point of the quorum provider. \<open>link_and_init\<close>, an argument, is what the service manager
  does to link and start the service; \<open>q_set_quorate_fn\<close> is \<open>None\<close> for the null pointer. The callback
  itself is the effect \<open>QuorumCallback\<close>.
\<close>

definition votequorum_init ::
  "(vq_state \<Rightarrow> (string option \<times> vq_state) c_result) \<Rightarrow> corosync_api_v1 \<Rightarrow> unit option \<Rightarrow> vq_state \<Rightarrow>
   (string option \<times> vq_state) c_result" where
  "votequorum_init link_and_init api q_set_quorate_fn s =
     (if q_set_quorate_fn = None then Inr (Some ''Quorate function not set'', s)
      else link_and_init (s\<lparr>corosync_api := api\<rparr>))"

section \<open>Timers and synchronisation\<close>

definition votequorum_last_man_standing_timer_fn :: "vq_state \<Rightarrow> vq_state c_result" where
  "votequorum_last_man_standing_timer_fn s =
     (let s1 = s\<lparr>last_man_standing_timer_set := False\<rparr>
      in if cluster_is_quorate s1 \<noteq> 0 then recalculate_quorum True True s1 else Inr s1)"

definition qdevice_timer_fn :: "vq_state \<Rightarrow> vq_state" where
  "qdevice_timer_fn s =
     (if \<not> has_flag (flags (us_node s)) NODE_FLAGS_QDEVICE_ALIVE \<or> \<not> qdevice_timer_set s then s
      else let s1 = us_flags_upd (clear_flag NODE_FLAGS_QDEVICE_CAST_VOTE)
                      (us_flags_upd (clear_flag NODE_FLAGS_QDEVICE_ALIVE) s);
               s2 = snd (votequorum_exec_send_nodeinfo (node_id (us_node s1)) s1)
           in s2\<lparr>qdevice_timer_set := False, sync_wait_for_poll_or_timeout := False\<rparr>)"

text \<open>The loop that marks the nodes that left; the Boolean is \<open>left_nodes\<close>.\<close>

fun mark_left :: "u32 list \<Rightarrow> u32 list \<Rightarrow> bool \<times> vq_state \<Rightarrow> bool \<times> vq_state" where
  "mark_left member_list [] acc = acc"
| "mark_left member_list (m # ms) (left_nodes, s) =
     (if is_in_nodelist m member_list then mark_left member_list ms (left_nodes, s)
      else mark_left member_list ms
             (True, case find_node_by_nodeid m s of
                      Some i \<Rightarrow> node_upd i (\<lambda>n. n\<lparr>state := NODESTATE_DEAD\<rparr>) s
                    | None \<Rightarrow> s))"

text \<open>The two timers that a membership change may start.\<close>

definition sync_lms_timer :: "u32 list \<Rightarrow> bool \<Rightarrow> vq_state \<Rightarrow> vq_state" where
  "sync_lms_timer member_list left_nodes s =
     (if last_man_standing s \<noteq> 0 \<and>
         (length member_list \<ge> unat (quorum s) \<and> left_nodes \<or>
          length member_list \<le> unat (quorum s) \<and> auto_tie_breaker s \<noteq> ATB_NONE \<and>
            check_low_node_id_partition s)
      then let s1 = (if last_man_standing_timer_set s
                     then emit (TimerDelete LastManStandingTimer) s else s)
           in (emit (TimerAdd LastManStandingTimer
                      (ucast (last_man_standing_window s1) * 1000000)) s1)
                \<lparr>last_man_standing_timer_set := True\<rparr>
      else s)"

definition sync_qdevice_timer :: "vq_state \<Rightarrow> vq_state" where
  "sync_qdevice_timer s =
     (if has_flag (flags (us_node s)) NODE_FLAGS_QDEVICE_REGISTERED \<and>
         has_flag (flags (us_node s)) NODE_FLAGS_QDEVICE_ALIVE
      then let s1 = (if qdevice_timer_set s then emit (TimerDelete QdeviceTimer) s else s)
           in (emit (TimerAdd QdeviceTimer (ucast (qdevice_sync_timeout s1) * 1000000)) s1)
                \<lparr>qdevice_timer_set := True, sync_wait_for_poll_or_timeout := True\<rparr>
      else s)"

definition votequorum_sync_init :: "u32 list \<Rightarrow> memb_ring_id \<Rightarrow> vq_state \<Rightarrow> vq_state c_result" where
  "votequorum_sync_init member_list ring_id s =
     (let s1 = s\<lparr>sync_in_progress := True, sync_nodeinfo_sent := False,
                 sync_wait_for_poll_or_timeout := False\<rparr>;
          s2 = (if length member_list > 1 then us_flags_upd (clear_flag NODE_FLAGS_FIRST) s1 else s1);
          (left_nodes, s3) = mark_left member_list (quorum_members s2) (False, s2);
          s4 = sync_lms_timer member_list left_nodes s3
      in if length member_list > PROCESSOR_COUNT_MAX then Inl OutOfBounds
         else Inr (sync_qdevice_timer (s4\<lparr>previous_quorum_members := quorum_members s4,
                     quorum_members := member_list, quorum_ringid := ring_id\<rparr>)))"

definition votequorum_sync_process :: "vq_state \<Rightarrow> (int \<times> vq_state) c_result" where
  "votequorum_sync_process s =
     bindE (if \<not> sync_nodeinfo_sent s
            then let s1 = snd (votequorum_exec_send_nodeinfo (node_id (us_node s)) s);
                     s2 = (if has_flag (flags (us_node s1)) NODE_FLAGS_QDEVICE_EXTRA_INFO_SET
                           then votequorum_exec_send_set_qdevice_extra_info (node_id (us_node s1)) s1 else s1);
                     s3 = snd (votequorum_exec_send_nodeinfo VOTEQUORUM_QDEVICE_NODEID s2)
                 in bindE (if qdevice_name s3 \<noteq> []
                           then votequorum_exec_send_qdevice_reg VOTEQUORUM_QDEVICE_OPERATION_REGISTER
                                  (qdevice_name s3) s3
                           else Inr (0, s3)) (\<lambda>(_, s4).
                      Inr ((votequorum_exec_send_nodelist_notification None 0 s4)\<lparr>sync_nodeinfo_sent := True\<rparr>))
            else Inr s) (\<lambda>s5.
       Inr (if has_flag (flags (us_node s5)) NODE_FLAGS_QDEVICE_REGISTERED \<and> sync_wait_for_poll_or_timeout s5
            then - 1 else 0, s5))"

definition votequorum_sync_activate :: "vq_state \<Rightarrow> vq_state c_result" where
  "votequorum_sync_activate s =
     bindE (recalculate_quorum False False s) (\<lambda>s1.
       let s2 = emit (QuorumCallback (quorum_members s1) (cluster_is_quorate s1) (quorum_ringid s1)) s1
       in Inr ((votequorum_exec_send_quorum_notification None 0 s2)\<lparr>sync_in_progress := False\<rparr>))"

definition votequorum_sync_abort :: "vq_state \<Rightarrow> vq_state" where
  "votequorum_sync_abort s = s"

end
