(* ===== verification/Vq_Lib.thy ===== *)
theory Vq_Lib
  imports Vq_Exec
begin

text \<open>
  The handlers of \<^verbatim>\<open>exec/votequorum.c\<close> for requests of library clients. The request structures are
  passed field by field; a connection is a number and its private data is \<open>quorum_pds\<close>.
\<close>

section \<open>Constants\<close>

definition VOTEQUORUM_INFO_TWONODE :: u32 where "VOTEQUORUM_INFO_TWONODE = 1"
definition VOTEQUORUM_INFO_QUORATE :: u32 where "VOTEQUORUM_INFO_QUORATE = 2"
definition VOTEQUORUM_INFO_WAIT_FOR_ALL :: u32 where "VOTEQUORUM_INFO_WAIT_FOR_ALL = 4"
definition VOTEQUORUM_INFO_LAST_MAN_STANDING :: u32 where "VOTEQUORUM_INFO_LAST_MAN_STANDING = 8"
definition VOTEQUORUM_INFO_AUTO_TIE_BREAKER :: u32 where "VOTEQUORUM_INFO_AUTO_TIE_BREAKER = 16"
definition VOTEQUORUM_INFO_ALLOW_DOWNSCALE :: u32 where "VOTEQUORUM_INFO_ALLOW_DOWNSCALE = 32"
definition VOTEQUORUM_INFO_QDEVICE_REGISTERED :: u32 where "VOTEQUORUM_INFO_QDEVICE_REGISTERED = 64"
definition VOTEQUORUM_INFO_QDEVICE_ALIVE :: u32 where "VOTEQUORUM_INFO_QDEVICE_ALIVE = 128"
definition VOTEQUORUM_INFO_QDEVICE_CAST_VOTE :: u32 where "VOTEQUORUM_INFO_QDEVICE_CAST_VOTE = 256"
definition VOTEQUORUM_INFO_QDEVICE_MASTER_WINS :: u32 where "VOTEQUORUM_INFO_QDEVICE_MASTER_WINS = 512"
definition VOTEQUORUM_INFO_QDEVICE_HAS_EXTRA_INFO :: u32 where "VOTEQUORUM_INFO_QDEVICE_HAS_EXTRA_INFO = 1024"
definition CS_TRACK_CURRENT :: u32 where "CS_TRACK_CURRENT = 0x01"
definition CS_TRACK_CHANGES :: u32 where "CS_TRACK_CHANGES = 0x02"
definition CS_TRACK_CHANGES_ONLY :: u32 where "CS_TRACK_CHANGES_ONLY = 0x04"

lemmas vq_info_defs =
  VOTEQUORUM_INFO_TWONODE_def VOTEQUORUM_INFO_QUORATE_def VOTEQUORUM_INFO_WAIT_FOR_ALL_def
  VOTEQUORUM_INFO_LAST_MAN_STANDING_def VOTEQUORUM_INFO_AUTO_TIE_BREAKER_def
  VOTEQUORUM_INFO_ALLOW_DOWNSCALE_def VOTEQUORUM_INFO_QDEVICE_REGISTERED_def
  VOTEQUORUM_INFO_QDEVICE_ALIVE_def VOTEQUORUM_INFO_QDEVICE_CAST_VOTE_def
  VOTEQUORUM_INFO_QDEVICE_MASTER_WINS_def VOTEQUORUM_INFO_QDEVICE_HAS_EXTRA_INFO_def

section \<open>Connections\<close>

definition pd_upd :: "conn \<Rightarrow> (quorum_pd \<Rightarrow> quorum_pd) \<Rightarrow> vq_state \<Rightarrow> vq_state" where
  "pd_upd conn f s = s\<lparr>quorum_pds := (quorum_pds s)(conn := f (quorum_pds s conn))\<rparr>"

definition respond :: "conn \<Rightarrow> cs_error \<Rightarrow> vq_state \<Rightarrow> vq_state" where
  "respond conn error s = emit (IpcResponse conn (ResStatus error)) s"

text \<open>The private data of a new connection is zeroed by the caller; the list link is initialised here.\<close>

definition quorum_lib_init_fn :: "conn \<Rightarrow> vq_state \<Rightarrow> vq_state" where
  "quorum_lib_init_fn conn s = s"

definition quorum_lib_exit_fn :: "conn \<Rightarrow> vq_state \<Rightarrow> vq_state" where
  "quorum_lib_exit_fn conn s =
     (if tracking_enabled (quorum_pds s conn)
      then s\<lparr>trackers_list := remove1 conn (trackers_list s)\<rparr> else s)"

section \<open>Information and votes\<close>

text \<open>\<open>cond\<close> adds a bit to the flags of the response.\<close>

definition info_bit :: "bool \<Rightarrow> u32 \<Rightarrow> u32 \<Rightarrow> u32" where
  "info_bit cond b fl = (if cond then fl OR b else fl)"

definition getinfo_flags :: "cluster_node \<Rightarrow> vq_state \<Rightarrow> u32" where
  "getinfo_flags node s =
     info_bit (has_flag (flags node) NODE_FLAGS_QDEVICE_EXTRA_INFO_SET) VOTEQUORUM_INFO_QDEVICE_HAS_EXTRA_INFO
     (info_bit (has_flag (flags node) NODE_FLAGS_QDEVICE_MASTER_WINS) VOTEQUORUM_INFO_QDEVICE_MASTER_WINS
     (info_bit (has_flag (flags node) NODE_FLAGS_QDEVICE_CAST_VOTE) VOTEQUORUM_INFO_QDEVICE_CAST_VOTE
     (info_bit (has_flag (flags node) NODE_FLAGS_QDEVICE_ALIVE) VOTEQUORUM_INFO_QDEVICE_ALIVE
     (info_bit (has_flag (flags node) NODE_FLAGS_QDEVICE_REGISTERED) VOTEQUORUM_INFO_QDEVICE_REGISTERED
     (info_bit (allow_downscale s \<noteq> 0) VOTEQUORUM_INFO_ALLOW_DOWNSCALE
     (info_bit (auto_tie_breaker s \<noteq> ATB_NONE) VOTEQUORUM_INFO_AUTO_TIE_BREAKER
     (info_bit (last_man_standing s \<noteq> 0) VOTEQUORUM_INFO_LAST_MAN_STANDING
     (info_bit (wait_for_all s \<noteq> 0) VOTEQUORUM_INFO_WAIT_FOR_ALL
     (info_bit (cluster_is_quorate s \<noteq> 0) VOTEQUORUM_INFO_QUORATE
     (info_bit (two_node s \<noteq> 0) VOTEQUORUM_INFO_TWONODE 0))))))))))"

definition message_handler_req_lib_votequorum_getinfo :: "conn \<Rightarrow> u32 \<Rightarrow> vq_state \<Rightarrow> vq_state" where
  "message_handler_req_lib_votequorum_getinfo conn req_nodeid s =
     (let nodeid = (if req_nodeid = VOTEQUORUM_QDEVICE_NODEID then node_id (us_node s) else req_nodeid)
      in case find_node_by_nodeid nodeid s of
           None \<Rightarrow> emit (IpcResponse conn (ResGetinfo CS_ERR_NOT_EXIST None)) s
         | Some i \<Rightarrow>
             let node = node_at s i;
                 (highest_expected, votes0, _) = tally (listed s);
                 total = (if has_flag (flags node) NODE_FLAGS_QDEVICE_CAST_VOTE
                          then votes0 + votes (qdevice_node s) else votes0)
             in emit (IpcResponse conn (ResGetinfo CS_OK (Some
                  \<lparr>gi_nodeid = node_id node, gi_state = state node, gi_votes = votes node,
                   gi_expected_votes = expected_votes node, gi_highest_expected = highest_expected,
                   gi_total_votes = total, gi_quorum = ucast (quorum s), gi_flags = getinfo_flags node s,
                   gi_qdevice_votes = votes (qdevice_node s), gi_qdevice_name = qdevice_name s\<rparr>))) s)"

definition message_handler_req_lib_votequorum_setexpected :: "conn \<Rightarrow> u32 \<Rightarrow> vq_state \<Rightarrow> vq_state" where
  "message_handler_req_lib_votequorum_setexpected conn ev s =
     (let (newquorum, total_votes) = calculate_quorum True ev (s\<lparr>allow_downscale := 0\<rparr>)
      in if ev < total_votes \<or> cluster_is_quorate s \<noteq> 0 \<and> newquorum > total_votes
         then respond conn CS_ERR_INVALID_PARAM s
         else
           let s1 = update_node_expected_votes ev s;
               (ret, s2) = votequorum_exec_send_reconfigure VOTEQUORUM_RECONFIG_PARAM_EXPECTED_VOTES
                             (node_id (us_node s1)) ev s1
           in respond conn (if ret \<noteq> 0 then CS_ERR_NO_RESOURCES else CS_OK) s2)"

definition message_handler_req_lib_votequorum_setvotes :: "conn \<Rightarrow> u32 \<Rightarrow> u32 \<Rightarrow> vq_state \<Rightarrow> vq_state" where
  "message_handler_req_lib_votequorum_setvotes conn nodeid new_votes s =
     (case find_node_by_nodeid nodeid s of
        None \<Rightarrow> respond conn CS_ERR_NAME_NOT_FOUND s
      | Some i \<Rightarrow>
          let s1 = node_upd i (\<lambda>n. n\<lparr>votes := new_votes\<rparr>) s;
              (newquorum, total_votes) = calculate_quorum True 0 s1
          in if newquorum < total_votes div 2 \<or> newquorum > total_votes
             then respond conn CS_ERR_INVALID_PARAM (node_upd i (\<lambda>n. n\<lparr>votes := votes (node_at s i)\<rparr>) s1)
             else
               let (ret, s2) = votequorum_exec_send_reconfigure VOTEQUORUM_RECONFIG_PARAM_NODE_VOTES
                                 nodeid new_votes s1
               in respond conn (if ret \<noteq> 0 then CS_ERR_NO_RESOURCES else CS_OK) s2)"

section \<open>Tracking\<close>

definition message_handler_req_lib_votequorum_trackstart ::
  "conn \<Rightarrow> u64 \<Rightarrow> u32 \<Rightarrow> vq_state \<Rightarrow> vq_state" where
  "message_handler_req_lib_votequorum_trackstart conn context tr_flags s =
     (let s1 = (if has_flag tr_flags CS_TRACK_CURRENT \<or> has_flag tr_flags CS_TRACK_CHANGES
                then votequorum_exec_send_all_qdevice_extra_info_notification conn context
                       (votequorum_exec_send_quorum_notification (Some conn) context
                         (votequorum_exec_send_nodelist_notification (Some conn) context s))
                else s)
      in if tracking_enabled (quorum_pds s1 conn) then respond conn CS_ERR_EXIST s1
         else
           let s2 = (if has_flag tr_flags CS_TRACK_CHANGES \<or> has_flag tr_flags CS_TRACK_CHANGES_ONLY
                     then (pd_upd conn (\<lambda>pd. pd\<lparr>track_flags := ucast tr_flags, tracking_enabled := True,
                                               tracking_context := context\<rparr>) s1)
                            \<lparr>trackers_list := conn # trackers_list s1\<rparr>
                     else s1)
           in respond conn CS_OK s2)"

definition message_handler_req_lib_votequorum_trackstop :: "conn \<Rightarrow> vq_state \<Rightarrow> vq_state" where
  "message_handler_req_lib_votequorum_trackstop conn s =
     (if tracking_enabled (quorum_pds s conn)
      then respond conn CS_OK
             ((pd_upd conn (\<lambda>pd. pd\<lparr>tracking_enabled := False\<rparr>) s)
                \<lparr>trackers_list := remove1 conn (trackers_list s)\<rparr>)
      else respond conn CS_ERR_NOT_EXIST s)"

section \<open>Quorum device\<close>

definition message_handler_req_lib_votequorum_qdevice_register ::
  "conn \<Rightarrow> string \<Rightarrow> vq_state \<Rightarrow> vq_state c_result" where
  "message_handler_req_lib_votequorum_qdevice_register conn name s =
     (if qdevice_can_operate s = 0 then Inr (respond conn CS_ERR_ACCESS s)
      else if has_flag (flags (us_node s)) NODE_FLAGS_QDEVICE_REGISTERED
      then Inr (respond conn (if same_name name (qdevice_name s) then CS_OK else CS_ERR_EXIST) s)
      else if qdevice_reg_conn s \<noteq> None then Inr (respond conn CS_ERR_TRY_AGAIN s)
      else bindE (votequorum_exec_send_qdevice_reg VOTEQUORUM_QDEVICE_OPERATION_REGISTER name
                    (s\<lparr>qdevice_reg_conn := Some conn\<rparr>)) (\<lambda>(ret, s1).
             Inr (if ret \<noteq> 0 then respond conn CS_ERR_TRY_AGAIN (s1\<lparr>qdevice_reg_conn := None\<rparr>) else s1)))"

definition message_handler_req_lib_votequorum_qdevice_unregister ::
  "conn \<Rightarrow> string \<Rightarrow> vq_state \<Rightarrow> vq_state c_result" where
  "message_handler_req_lib_votequorum_qdevice_unregister conn name s =
     (if \<not> has_flag (flags (us_node s)) NODE_FLAGS_QDEVICE_REGISTERED
      then Inr (respond conn CS_ERR_NOT_EXIST s)
      else if \<not> same_name name (qdevice_name s) then Inr (respond conn CS_ERR_INVALID_PARAM s)
      else
        let s1 = (if qdevice_timer_set s
                  then (emit (TimerDelete QdeviceTimer) s)
                         \<lparr>qdevice_timer_set := False, sync_wait_for_poll_or_timeout := False\<rparr>
                  else s);
            s2 = us_upd (\<lambda>n. n\<lparr>flags :=
                     clear_flag NODE_FLAGS_QDEVICE_EXTRA_INFO_SET
                       (clear_flag NODE_FLAGS_QDEVICE_MASTER_WINS
                         (clear_flag NODE_FLAGS_QDEVICE_CAST_VOTE
                           (clear_flag NODE_FLAGS_QDEVICE_ALIVE
                             (clear_flag NODE_FLAGS_QDEVICE_REGISTERED (flags n))))),
                   ei_size := 0\<rparr>) s1;
            s3 = votequorum_exec_send_set_qdevice_extra_info (node_id (us_node s2)) s2;
            s4 = snd (votequorum_exec_send_nodeinfo (node_id (us_node s3)) s3)
        in bindE (votequorum_exec_send_qdevice_reg VOTEQUORUM_QDEVICE_OPERATION_UNREGISTER name s4) (\<lambda>(_, s5).
             Inr (respond conn CS_OK s5)))"

definition message_handler_req_lib_votequorum_qdevice_update ::
  "conn \<Rightarrow> string \<Rightarrow> string \<Rightarrow> vq_state \<Rightarrow> vq_state c_result" where
  "message_handler_req_lib_votequorum_qdevice_update conn oldname newname s =
     (if \<not> has_flag (flags (us_node s)) NODE_FLAGS_QDEVICE_REGISTERED
      then Inr (respond conn CS_ERR_NOT_EXIST s)
      else if \<not> same_name oldname (qdevice_name s) then Inr (respond conn CS_ERR_INVALID_PARAM s)
      else bindE (votequorum_exec_send_qdevice_reconfigure oldname newname s) (\<lambda>(_, s1).
             Inr (respond conn CS_OK s1)))"

definition message_handler_req_lib_votequorum_qdevice_poll ::
  "conn \<Rightarrow> string \<Rightarrow> bool \<Rightarrow> memb_ring_id \<Rightarrow> vq_state \<Rightarrow> vq_state" where
  "message_handler_req_lib_votequorum_qdevice_poll conn name cast_vote ring_id s =
     (if qdevice_can_operate s = 0 then respond conn CS_ERR_ACCESS s
      else if \<not> has_flag (flags (us_node s)) NODE_FLAGS_QDEVICE_REGISTERED
      then respond conn CS_ERR_NOT_EXIST s
      else if \<not> (ring_nodeid ring_id = ring_nodeid (quorum_ringid s) \<and>
                 ring_seq ring_id = ring_seq (quorum_ringid s))
      then respond conn CS_ERR_MESSAGE_ERROR s
      else if \<not> same_name name (qdevice_name s) then respond conn CS_ERR_INVALID_PARAM s
      else
        let s1 = (if qdevice_timer_set s
                  then (emit (TimerDelete QdeviceTimer) s)\<lparr>qdevice_timer_set := False\<rparr> else s);
            oldflags = flags (us_node s1);
            s2 = us_flags_upd (set_flag NODE_FLAGS_QDEVICE_ALIVE) s1;
            s3 = (if cast_vote then us_flags_upd (set_flag NODE_FLAGS_QDEVICE_CAST_VOTE) s2
                  else us_flags_upd (clear_flag NODE_FLAGS_QDEVICE_CAST_VOTE) s2);
            s4 = (if flags (us_node s3) \<noteq> oldflags
                  then snd (votequorum_exec_send_nodeinfo (node_id (us_node s3)) s3) else s3);
            s5 = (emit (TimerAdd QdeviceTimer (ucast (qdevice_timeout s4) * 1000000)) s4)
                   \<lparr>qdevice_timer_set := True, sync_wait_for_poll_or_timeout := False\<rparr>
        in respond conn CS_OK s5)"

definition message_handler_req_lib_votequorum_qdevice_master_wins ::
  "conn \<Rightarrow> string \<Rightarrow> u32 \<Rightarrow> vq_state \<Rightarrow> vq_state" where
  "message_handler_req_lib_votequorum_qdevice_master_wins conn name allow s =
     (let oldflags = flags (us_node s)
      in if qdevice_can_operate s = 0 then respond conn CS_ERR_ACCESS s
         else if \<not> has_flag (flags (us_node s)) NODE_FLAGS_QDEVICE_REGISTERED
         then respond conn CS_ERR_NOT_EXIST s
         else if \<not> same_name name (qdevice_name s) then respond conn CS_ERR_INVALID_PARAM s
         else
           let s1 = us_flags_upd (if allow \<noteq> 0 then set_flag NODE_FLAGS_QDEVICE_MASTER_WINS
                                  else clear_flag NODE_FLAGS_QDEVICE_MASTER_WINS) s;
               s2 = (if flags (us_node s1) \<noteq> oldflags
                     then snd (votequorum_exec_send_nodeinfo (node_id (us_node s1)) s1) else s1)
           in respond conn CS_OK (update_qdevice_master_wins (ucast allow) s2))"

definition message_handler_req_lib_votequorum_qdevice_set_extra_info ::
  "conn \<Rightarrow> u32 \<Rightarrow> u8 list \<Rightarrow> vq_state \<Rightarrow> vq_state" where
  "message_handler_req_lib_votequorum_qdevice_set_extra_info conn req_size info s =
     (if qdevice_can_operate s = 0 then respond conn CS_ERR_ACCESS s
      else if req_size > VOTEQUORUM_QDEVICE_EXTRA_NODEINFO_MAXSIZE then respond conn CS_ERR_INVALID_PARAM s
      else if \<not> has_flag (flags (us_node s)) NODE_FLAGS_QDEVICE_REGISTERED
      then respond conn CS_ERR_NOT_EXIST s
      else
        let s1 = (if req_size = 0
                  then us_upd (\<lambda>n. n\<lparr>flags := clear_flag NODE_FLAGS_QDEVICE_EXTRA_INFO_SET (flags n),
                                     ei_size := 0\<rparr>) s
                  else us_upd (\<lambda>n. n\<lparr>ei_size := req_size,
                         extra_nodeinfo := take (unat req_size) info @ drop (unat req_size) (extra_nodeinfo n),
                         flags := set_flag NODE_FLAGS_QDEVICE_EXTRA_INFO_SET (flags n)\<rparr>) s)
        in respond conn CS_OK (votequorum_exec_send_set_qdevice_extra_info (node_id (us_node s1)) s1))"

definition message_handler_req_lib_votequorum_qdevice_get_extra_info ::
  "conn \<Rightarrow> u32 \<Rightarrow> vq_state \<Rightarrow> vq_state" where
  "message_handler_req_lib_votequorum_qdevice_get_extra_info conn nodeid s =
     (if qdevice_can_operate s = 0
      then emit (IpcResponse conn (ResGetExtraInfo CS_ERR_ACCESS None)) s
      else case find_node_by_nodeid nodeid s of
             None \<Rightarrow> emit (IpcResponse conn (ResGetExtraInfo CS_ERR_NOT_EXIST None)) s
           | Some i \<Rightarrow>
               let node = node_at s i
               in if has_flag (flags node) NODE_FLAGS_QDEVICE_EXTRA_INFO_SET
                  then emit (IpcResponse conn (ResGetExtraInfo CS_OK (Some (ei_size node,
                         take (unat (ei_size node)) (extra_nodeinfo node))))) s
                  else emit (IpcResponse conn (ResGetExtraInfo CS_OK (Some (0, [])))) s)"

end
