(* ===== verification/Vq_Majority.thy ===== *)
theory Vq_Majority
  imports Vq_Quorum
begin

text \<open>
  What the quorum calculation guarantees: the quorum is a majority of the votes and of the
  highest expectation, wait-for-all never grants quorum early and never trips its assertion, and
  of two partitions at most one is quorate, with and without the tie breaker.
\<close>

section \<open>The tally\<close>

definition is_member :: "cluster_node \<Rightarrow> bool" where
  "is_member n \<longleftrightarrow> state n = NODESTATE_MEMBER"

definition member_nodes :: "vq_state \<Rightarrow> cluster_node list" where
  "member_nodes s = filter is_member (listed s)"

definition member_ids :: "vq_state \<Rightarrow> u32 set" where
  "member_ids s = node_id ` set (member_nodes s)"

lemma tally_fold:
  "fold (\<lambda>node (h, v, c). if state node = NODESTATE_MEMBER
       then (c_max h (expected_votes node), v + votes node, c + 1) else (h, v, c)) ns (h, v, c :: u32) =
   (fold max (map expected_votes (filter is_member ns)) h,
    v + sum_list (map votes (filter is_member ns)), c + of_nat (length (filter is_member ns)))"
  by (induction ns arbitrary: h v c) (auto simp: is_member_def max.commute)

lemma tally_eq:
  "tally ns = (Max (insert 0 (expected_votes ` set (filter is_member ns))),
     sum_list (map votes (filter is_member ns)), of_nat (length (filter is_member ns)))"
proof -
  have "fold max (map expected_votes (filter is_member ns)) 0 =
      Max (set (0 # map expected_votes (filter is_member ns)))"
    by (rule Max.set_eq_fold [symmetric])
  then show ?thesis by (simp add: tally_def tally_fold)
qed

lemma total_fold:
  "fold (\<lambda>node (t, m). if state node = NODESTATE_MEMBER then (t + votes node, m + 1) else (t, m))
     ns (t, m :: u32) =
   (t + sum_list (map votes (filter is_member ns)), m + of_nat (length (filter is_member ns)))"
  by (induction ns arbitrary: t m) (auto simp: is_member_def)

lemma get_total_votes_eq:
  "get_total_votes s =
    (if votes (qdevice_node s) \<noteq> 0
     then (sum_list (map votes (member_nodes s)) + votes (qdevice_node s),
           of_nat (length (member_nodes s)) + 1)
     else (sum_list (map votes (member_nodes s)), of_nat (length (member_nodes s))))"
  by (simp add: get_total_votes_def total_fold member_nodes_def)

text \<open>The expectation the calculation starts from.\<close>

definition vq_expectation :: "bool \<Rightarrow> u32 \<Rightarrow> vq_state \<Rightarrow> u32" where
  "vq_expectation allow_decrease max_expected s =
     (if max_expected \<noteq> 0
      then (if allow_downscale s \<noteq> 0 \<and> allow_decrease then max (ev_barrier s) max_expected else max_expected)
      else Max (insert 0 (expected_votes ` set (member_nodes s))))"

definition vq_total_votes :: "vq_state \<Rightarrow> u32" where
  "vq_total_votes s = sum_list (map votes (member_nodes s)) +
     (if has_flag (flags (us_node s)) NODE_FLAGS_QDEVICE_CAST_VOTE then votes (qdevice_node s) else 0)"

definition vq_total_nodes :: "vq_state \<Rightarrow> u32" where
  "vq_total_nodes s = of_nat (length (member_nodes s)) +
     (if has_flag (flags (us_node s)) NODE_FLAGS_QDEVICE_CAST_VOTE then 1 else 0)"

lemma word_max_pos: "b \<noteq> 0 \<Longrightarrow> 0 < max a (b :: u32)"
  by (metis less_max_iff_disj word_neq_0_conv)

lemma calculate_quorum_eq:
  "calculate_quorum d m s =
    (if two_node s \<noteq> 0 \<and> vq_total_nodes s \<le> 2 then 1
     else let q = max ((vq_expectation d m s + 2) div 2) ((vq_total_votes s + 2) div 2)
          in if d then q else max (ucast (quorum s)) q,
     vq_total_votes s)"
proof -
  have "0 < m \<longleftrightarrow> m \<noteq> 0" by (simp add: word_gt_0)
  then show ?thesis
    by (cases "m = 0") (simp_all add: calculate_quorum_def vq_expectation_def vq_total_votes_def
        vq_total_nodes_def tally_eq member_nodes_def Let_def word_max_pos)
qed

lemma half_up: "unat (x :: u32) + 2 < 2 ^ 32 \<Longrightarrow> unat ((x + 2) div 2) = Suc (unat x div 2)"
  by (simp add: unat_div unat_plus_if')

lemma half_less: "Suc (a div 2) \<le> b \<Longrightarrow> a < 2 * b" for a b :: nat
  by arith

lemma unat_max: "unat (max a b) = max (unat a) (unat (b :: 'w::len word))"
  by (simp add: max_def word_le_nat_alt)

lemma calculate_quorum_majority:
  assumes calc: "calculate_quorum d m s = (q, t)" and normal: "two_node s = 0 \<or> 2 < vq_total_nodes s"
  shows "unat t + 2 < 2 ^ 32 \<Longrightarrow> unat t < 2 * unat q"
    "unat (vq_expectation d m s) + 2 < 2 ^ 32 \<Longrightarrow> unat (vq_expectation d m s) < 2 * unat q"
    "\<not> d \<Longrightarrow> unat (quorum s) \<le> unat q"
proof -
  let ?q = "max ((vq_expectation d m s + 2) div 2) ((vq_total_votes s + 2) div 2)"
  have t: "t = vq_total_votes s" using calc by (simp add: calculate_quorum_eq)
  have "q = (if d then ?q else max (ucast (quorum s)) ?q)"
    using calc normal by (auto simp: calculate_quorum_eq Let_def)
  then have ge: "unat ?q \<le> unat q" and "\<not> d \<Longrightarrow> unat (ucast (quorum s) :: u32) \<le> unat q"
    by (auto simp: unat_max)
  moreover have "unat (ucast (quorum s) :: u32) = unat (quorum s)"
    by simp
  ultimately show "\<not> d \<Longrightarrow> unat (quorum s) \<le> unat q" by simp
  show "unat t < 2 * unat q" if "unat t + 2 < 2 ^ 32"
    using that ge half_up [of t] by (intro half_less) (simp add: t unat_max)
  show "unat (vq_expectation d m s) < 2 * unat q" if "unat (vq_expectation d m s) + 2 < 2 ^ 32"
    using that ge half_up [of "vq_expectation d m s"] by (intro half_less) (simp add: unat_max)
qed

section \<open>The decision\<close>

lemma wfa_update_fields [simp]:
  "cluster_members_list (update_wait_for_all_status v s) = cluster_members_list s"
  "quorum (update_wait_for_all_status v s) = quorum s"
  "auto_tie_breaker (update_wait_for_all_status v s) = auto_tie_breaker s"
  "lowest_node_id (update_wait_for_all_status v s) = lowest_node_id s"
  "highest_node_id (update_wait_for_all_status v s) = highest_node_id s"
  "quorum_members (update_wait_for_all_status v s) = quorum_members s"
  "previous_quorum_members (update_wait_for_all_status v s) = previous_quorum_members s"
  "atb_nodelist (update_wait_for_all_status v s) = atb_nodelist s"
  "qdevice_master_wins (update_wait_for_all_status v s) = qdevice_master_wins s"
  "us (update_wait_for_all_status v s) = us s" "qdevice (update_wait_for_all_status v s) = qdevice s"
  "wait_for_all (update_wait_for_all_status v s) = wait_for_all s"
  "wait_for_all_status (update_wait_for_all_status v s) = v"
  "cluster_is_quorate (update_wait_for_all_status v s) = cluster_is_quorate s"
  "sync_in_progress (update_wait_for_all_status v s) = sync_in_progress s"
  "length (cluster_nodes (update_wait_for_all_status v s)) = length (cluster_nodes s)"
  "cluster_nodes_entries (update_wait_for_all_status v s) = cluster_nodes_entries s"
  by (simp_all add: vq_upd)

lemma wfa_update_node:
  "node_at (update_wait_for_all_status v s) i =
     node_at (us_flags_upd (if v \<noteq> 0 then set_flag NODE_FLAGS_WFASTATUS
                            else clear_flag NODE_FLAGS_WFASTATUS) s) i"
  by (simp add: vq_upd node_at_def)

text \<open>Setting or clearing one flag leaves the others as they are.\<close>

lemma and_or_disjoint: "(f :: u32) AND g = 0 \<Longrightarrow> (fl OR f) AND g = fl AND g"
  by (simp add: bit.conj_disj_distrib2)

lemma and_not_disjoint: "(f :: u32) AND g = 0 \<Longrightarrow> (fl AND NOT f) AND g = fl AND g"
proof -
  assume "f AND g = 0"
  then have "bit f n \<Longrightarrow> bit g n \<Longrightarrow> False" for n
    by (metis bit_0_eq bit_and_iff bot_apply bot_bool_def)
  then show ?thesis by (auto intro!: bit_word_eqI simp: bit_simps)
qed

lemma has_flag_set: "f AND g = 0 \<Longrightarrow> has_flag (set_flag f fl) g \<longleftrightarrow> has_flag fl g"
  by (simp add: has_flag_def set_flag_def and_or_disjoint)

lemma has_flag_clear: "f AND g = 0 \<Longrightarrow> has_flag (clear_flag f fl) g \<longleftrightarrow> has_flag fl g"
  by (simp add: has_flag_def clear_flag_def and_not_disjoint)

lemma has_flag_same [simp]: "f \<noteq> 0 \<Longrightarrow> has_flag (set_flag f fl) f" "\<not> has_flag (clear_flag f fl) f"
  by (simp_all add: has_flag_def set_flag_def clear_flag_def bit.conj_disj_distrib2 and.assoc)

lemma wfa_update_has_flag:
  assumes "NODE_FLAGS_WFASTATUS AND g = 0"
  shows "has_flag (flags (node_at (update_wait_for_all_status v s) i)) g \<longleftrightarrow>
    has_flag (flags (node_at s i)) g"
  using assms by (simp add: wfa_update_node us_flags_upd_flags has_flag_set has_flag_clear)

lemma checks_wfa [simp]:
  "check_auto_tie_breaker (update_wait_for_all_status v s) = check_auto_tie_breaker s"
  "check_qdevice_master (update_wait_for_all_status v s) = check_qdevice_master s"
proof -
  show "check_auto_tie_breaker (update_wait_for_all_status v s) = check_auto_tie_breaker s"
    by (simp add: check_auto_tie_breaker_def check_low_node_id_partition_iff
        check_high_node_id_partition_iff wfa_update_node)
  have "state (node_at (update_wait_for_all_status v s) i) = state (node_at s i)" for i
    by (simp add: wfa_update_node)
  moreover have "NODE_FLAGS_WFASTATUS AND NODE_FLAGS_QDEVICE_MASTER_WINS = 0"
    "NODE_FLAGS_WFASTATUS AND NODE_FLAGS_QDEVICE_CAST_VOTE = 0"
    by (simp_all add: node_flags_defs)
  ultimately show "check_qdevice_master (update_wait_for_all_status v s) = check_qdevice_master s"
    by (simp add: check_qdevice_master_iff wfa_update_has_flag)
qed

lemma quorate_finish_fields:
  "cluster_is_quorate (quorate_finish b s) = (if b then 1 else 0)"
  "wait_for_all (quorate_finish b s) = wait_for_all s"
  "wait_for_all_status (quorate_finish b s) =
     (if wait_for_all s \<noteq> 0 then (if b then 0 else 1) else wait_for_all_status s)"
  by (auto simp: quorate_finish_def vq_upd)

text \<open>Why a partition may be quorate: by votes, by the tie breaker or by master-wins.\<close>

definition quorate_by_atb :: "u32 \<Rightarrow> vq_state \<Rightarrow> bool" where
  "quorate_by_atb t s \<longleftrightarrow> auto_tie_breaker s \<noteq> ATB_NONE \<and> t = expected_votes (us_node s) div 2 \<and>
     int (length (previous_quorum_members s)) - int (length (quorum_members s)) < uint (quorum s) \<and>
     check_auto_tie_breaker s"

lemma are_we_quorate_granted:
  assumes res: "are_we_quorate t s = Inr s'" and q: "cluster_is_quorate s' \<noteq> 0"
  shows "ucast (quorum s) \<le> t \<or> quorate_by_atb t s \<or>
    qdevice_master_wins s \<noteq> 0 \<and> check_qdevice_master s"
proof (cases "wait_for_all s \<noteq> 0 \<and> wait_for_all_status s \<noteq> 0 \<and> t \<noteq> expected_votes (us_node s)")
  case True
  then show ?thesis using res q by (auto simp: are_we_quorate_def bindE_eq_Inr assertE_eq_Inr)
next
  case False
  define s1 where "s1 = (if wait_for_all s \<noteq> 0 \<and> wait_for_all_status s \<noteq> 0
                  then update_wait_for_all_status 0 s else s)"
  obtain b s2 where d: "quorate_decide t s1 = (b, s2)" by fastforce
  then have "s' = quorate_finish b s2"
    using False res by (simp add: are_we_quorate_def s1_def Let_def split: if_splits)
  then have "b" using q by (simp add: quorate_finish_fields split: if_splits)
  moreover have "quorum s1 = quorum s" "quorate_by_atb t s1 = quorate_by_atb t s"
    "qdevice_master_wins s1 = qdevice_master_wins s" "check_qdevice_master s1 = check_qdevice_master s"
    by (simp_all add: s1_def quorate_by_atb_def us_node_def wfa_update_node)
  ultimately show ?thesis
    using d by (auto simp: quorate_decide_def quorate_by_atb_def not_le split: if_splits)
qed

section \<open>Wait for all\<close>

text \<open>While the node still waits for all, it is not quorate.\<close>

definition wfa_inv :: "vq_state \<Rightarrow> bool" where
  "wfa_inv s \<longleftrightarrow> (wait_for_all s \<noteq> 0 \<longrightarrow> wait_for_all_status s \<noteq> 0 \<longrightarrow> cluster_is_quorate s = 0)"

lemma are_we_quorate_wfa:
  assumes "wfa_inv s"
  shows "\<exists>s'. are_we_quorate t s = Inr s' \<and> wfa_inv s'"
proof (cases "wait_for_all s \<noteq> 0 \<and> wait_for_all_status s \<noteq> 0 \<and> t \<noteq> expected_votes (us_node s)")
  case True
  then show ?thesis using assms by (auto simp: are_we_quorate_def wfa_inv_def)
next
  case False
  then show ?thesis
    by (simp add: are_we_quorate_def Let_def split: prod.splits)
       (auto simp: wfa_inv_def quorate_finish_fields)
qed

lemma recalculate_quorum_wfa:
  assumes "wfa_inv s"
  shows "\<exists>s'. recalculate_quorum d b s = Inr s' \<and> wfa_inv s'"
proof -
  obtain q t where qt: "calculate_quorum d (if b then snd (get_total_votes s) else 0) (vq_raise s) = (q, t)"
    by fastforce
  show ?thesis
    unfolding recalculate_quorum_eq Let_def qt prod.case
    using assms by (intro are_we_quorate_wfa) (simp add: wfa_inv_def)
qed

text \<open>A node that waits for all is granted quorum only when all the expected votes are there.\<close>

lemma are_we_quorate_waiting:
  assumes "wait_for_all s \<noteq> 0" "wait_for_all_status s \<noteq> 0" "are_we_quorate t s = Inr s'"
    "cluster_is_quorate s' \<noteq> 0"
  shows "t = expected_votes (us_node s)"
  using assms by (auto simp: are_we_quorate_def bindE_eq_Inr assertE_eq_Inr split: if_splits)

section \<open>Votes of a partition\<close>

lemma unat_sum_list:
  fixes f :: "'a \<Rightarrow> u32"
  shows "sum_list (map (\<lambda>x. unat (f x)) xs) < 2 ^ 32 \<Longrightarrow>
    unat (sum_list (map f xs)) = sum_list (map (\<lambda>x. unat (f x)) xs)"
  by (induction xs) (simp_all add: unat_plus_if')

text \<open>
  \<open>vq_view v E s\<close>: the node in state \<open>s\<close> plays by votes alone (no two-node mode, no quorum device),
  knows the votes \<open>v\<close> of the members of its partition and expects \<open>E\<close> votes in all.
\<close>

definition vq_view :: "(u32 \<Rightarrow> nat) \<Rightarrow> nat \<Rightarrow> vq_state \<Rightarrow> bool" where
  "vq_view v E s \<longleftrightarrow>
     vq_db_inv s \<and> is_member (us_node s) \<and> two_node s = 0 \<and> qdevice_master_wins s = 0 \<and>
     votes (qdevice_node s) = 0 \<and> \<not> has_flag (flags (us_node s)) NODE_FLAGS_QDEVICE_CAST_VOTE \<and>
     E \<le> unat (expected_votes (us_node s)) \<and>
     (\<forall>n \<in> set (member_nodes s). unat (votes n) = v (node_id n) \<and> unat (expected_votes n) \<le> 508)"

lemma member_ids_distinct: "vq_db_inv s \<Longrightarrow> distinct (map node_id (member_nodes s))"
  by (simp add: vq_db_inv_def member_nodes_def distinct_map_filter)

lemma us_in_members:
  "vq_db_inv s \<Longrightarrow> is_member (us_node s) \<Longrightarrow> us_node s \<in> set (member_nodes s)"
  using vq_db_invD(5) [of s] by (simp add: member_nodes_def)

lemma vq_view_votes:
  assumes view: "vq_view v E s" and le: "sum v (member_ids s) \<le> E"
  shows "unat (sum_list (map votes (member_nodes s))) = sum v (member_ids s)"
    "sum v (member_ids s) \<le> 508" "E \<le> 508"
proof -
  have inv: "vq_db_inv s" and us: "us_node s \<in> set (member_nodes s)"
    using view us_in_members by (auto simp: vq_view_def)
  show E: "E \<le> 508" using view us by (fastforce simp: vq_view_def)
  then show "sum v (member_ids s) \<le> 508" using le by simp
  have "sum_list (map (\<lambda>n. unat (votes n)) (member_nodes s)) =
      sum_list (map v (map node_id (member_nodes s)))"
    using view by (auto simp: vq_view_def comp_def intro!: arg_cong [of _ _ sum_list])
  also have "\<dots> = sum v (member_ids s)"
    using sum_list_distinct_conv_sum_set [OF member_ids_distinct [OF inv], of v]
    by (simp add: member_ids_def)
  finally show "unat (sum_list (map votes (member_nodes s))) = sum v (member_ids s)"
    using unat_sum_list [of votes "member_nodes s"] le E by simp
qed

lemma vq_view_raise:
  assumes view: "vq_view v E s" and le: "sum v (member_ids s) \<le> E"
  shows "node_at (vq_raise s) = node_at s"
proof -
  have "fst (get_total_votes s) \<le> expected_votes (us_node s)"
    using vq_view_votes [OF assms] view le
    by (simp add: get_total_votes_eq vq_view_def word_le_nat_alt)
  then show ?thesis by (auto simp: node_at_raise us_node_def max_def)
qed

lemma vq_view_quorum:
  assumes view: "vq_view v E s" and le: "sum v (member_ids s) \<le> E"
    and calc: "calculate_quorum d 0 (vq_raise s) = (q, t)"
  shows "unat t = sum v (member_ids s)" "unat (ucast q :: u8) = unat q" "E < 2 * unat q"
    "(\<forall>n \<in> set (member_nodes s). unat (expected_votes n) = E) \<Longrightarrow> unat (quorum s) \<le> Suc (E div 2) \<Longrightarrow>
       unat q = Suc (E div 2)"
proof -
  have nodes: "listed (vq_raise s) = listed s" "us_node (vq_raise s) = us_node s"
    "member_nodes (vq_raise s) = member_nodes s"
    using vq_view_raise [OF view le] by (simp_all add: listed_def us_node_def member_nodes_def)
  let ?h = "Max (insert 0 (expected_votes ` set (member_nodes s)))"
  have us: "us_node s \<in> set (member_nodes s)"
    using view us_in_members by (auto simp: vq_view_def)
  have exp: "vq_expectation d 0 (vq_raise s) = ?h"
    by (simp add: vq_expectation_def nodes)
  have tot: "vq_total_votes (vq_raise s) = sum_list (map votes (member_nodes s))"
    using view by (simp add: vq_total_votes_def nodes vq_view_def)
  have q: "q = (let q = max ((?h + 2) div 2) ((t + 2) div 2) in if d then q else max (ucast (quorum s)) q)"
    and t: "t = sum_list (map votes (member_nodes s))"
    using calc view by (auto simp: calculate_quorum_eq exp tot vq_view_def Let_def)
  show tV: "unat t = sum v (member_ids s)" using vq_view_votes [OF view le] t by simp
  have h: "?h \<in> insert 0 (expected_votes ` set (member_nodes s))" by (rule Max_in) auto
  then have h508: "unat ?h \<le> 508" using view by (auto simp: vq_view_def)
  have t508: "unat t \<le> E" "E \<le> 508" using vq_view_votes [OF view le] tV le by auto
  have "expected_votes (us_node s) \<le> ?h" using us by (intro Max_ge) auto
  then have Eh: "E \<le> unat ?h" using view by (auto simp: vq_view_def word_le_nat_alt)
  have uq: "unat q = (let q = max (Suc (unat ?h div 2)) (Suc (unat t div 2))
      in if d then q else max (unat (quorum s)) q)"
    using h508 t508 by (simp add: q Let_def unat_max half_up)
  then have "unat q < 256"
    using h508 t508 unat_u8_less [of "quorum s"] by (auto simp: Let_def)
  then show "unat (ucast q :: u8) = unat q" by (simp add: unat_ucast_u32_u8)
  have "Suc (unat ?h div 2) \<le> unat q" using uq by (auto simp: Let_def le_max_iff_disj)
  then show "E < 2 * unat q" using Eh half_less [of "unat ?h" "unat q"] by simp
  show "unat q = Suc (E div 2)"
    if all: "\<forall>n \<in> set (member_nodes s). unat (expected_votes n) = E" and "unat (quorum s) \<le> Suc (E div 2)"
  proof -
    have "unat ?h = E" using h all Eh by auto
    moreover have "unat t div 2 \<le> E div 2" using t508(1) by (rule div_le_mono)
    ultimately show ?thesis using uq that(2) by (simp add: Let_def max_def)
  qed
qed

text \<open>
  Why the node is quorate after a recalculation, in terms of the votes present in its partition.
\<close>

lemma vq_view_granted:
  assumes view: "vq_view v E s" and le: "sum v (member_ids s) \<le> E"
    and rec: "recalculate_quorum d False s = Inr s'" and q: "cluster_is_quorate s' \<noteq> 0"
  shows "\<exists>Q. E < 2 * Q \<and>
    (Q \<le> sum v (member_ids s) \<or>
     auto_tie_breaker s \<noteq> ATB_NONE \<and> check_auto_tie_breaker s \<and>
       int (length (previous_quorum_members s)) - int (length (quorum_members s)) < int Q) \<and>
    ((\<forall>n \<in> set (member_nodes s). unat (expected_votes n) = E) \<longrightarrow> unat (quorum s) \<le> Suc (E div 2) \<longrightarrow>
       Q = Suc (E div 2))"
proof -
  obtain q t where qt: "calculate_quorum d 0 (vq_raise s) = (q, t)" by fastforce
  let ?s = "(vq_raise s)\<lparr>quorum := ucast q\<rparr>"
  have "are_we_quorate t ?s = Inr s'"
    using rec qt by (simp add: recalculate_quorum_eq update_node_expected_votes_def)
  from are_we_quorate_granted [OF this q]
  have g: "ucast (ucast q :: u8) \<le> t \<or> quorate_by_atb t ?s"
    using view by (simp add: vq_view_def)
  note V = vq_view_quorum [OF view le qt]
  have at: "node_at ?s i = node_at s i" for i
    using vq_view_raise [OF view le] by (simp add: node_at_def fun_eq_iff)
  have "unat (ucast (ucast q :: u8) :: u32) = unat q" using V(2) by simp
  then have "unat q \<le> sum v (member_ids s)" if "ucast (ucast q :: u8) \<le> t"
    using that V(1) by (simp add: word_le_nat_alt)
  moreover have "auto_tie_breaker s \<noteq> ATB_NONE \<and> check_auto_tie_breaker s \<and>
      int (length (previous_quorum_members s)) - int (length (quorum_members s)) < int (unat q)"
    if "quorate_by_atb t ?s"
  proof -
    have "check_auto_tie_breaker ?s = check_auto_tie_breaker s"
      by (simp add: check_auto_tie_breaker_def check_low_node_id_partition_iff
          check_high_node_id_partition_iff at)
    moreover have "uint (ucast q :: u8) = int (unat q)" using V(2) by (metis uint_nat)
    ultimately show ?thesis using that by (simp add: quorate_by_atb_def)
  qed
  ultimately show ?thesis using V(3,4) g by blast
qed

section \<open>At most one partition\<close>

text \<open>The sets of members are finite; disjoint ones share the votes.\<close>

lemma member_ids_finite [simp]: "finite (member_ids s)"
  by (simp add: member_ids_def)

lemma sum_disjoint_members:
  "member_ids s1 \<inter> member_ids s2 = {} \<Longrightarrow>
   sum v (member_ids s1 \<union> member_ids s2) = sum v (member_ids s1) + sum v (member_ids s2)"
  by (simp add: sum.union_disjoint)

text \<open>
  \<open>atb_view P E s\<close>: the node comes out of the membership \<open>P\<close>, in which it expected \<open>E\<close> votes, and
  its current membership is the partition it counts the votes of.
\<close>

definition atb_view :: "u32 list \<Rightarrow> nat \<Rightarrow> vq_state \<Rightarrow> bool" where
  "atb_view P E s \<longleftrightarrow>
     previous_quorum_members s = P \<and> distinct (quorum_members s) \<and>
     set (quorum_members s) = member_ids s \<and> member_ids s \<subseteq> set P \<and>
     (\<forall>n \<in> set (member_nodes s). unat (expected_votes n) = E) \<and> unat (quorum s) \<le> Suc (E div 2)"

lemma member_ids_iff:
  "x \<in> member_ids s \<longleftrightarrow> (\<exists>i \<in> set (cluster_members_list s).
     state (node_at s i) = NODESTATE_MEMBER \<and> node_id (node_at s i) = x)"
  unfolding member_ids_def member_nodes_def listed_def is_member_def image_iff by auto

lemma lowest_in_partition:
  "check_low_node_id_partition s \<longleftrightarrow> lowest_node_id s \<in> member_ids s"
  "check_high_node_id_partition s \<longleftrightarrow> highest_node_id s \<in> member_ids s"
  by (simp_all add: check_low_node_id_partition_iff check_high_node_id_partition_iff member_ids_iff)

text \<open>Two disjoint partitions of the same membership cannot both win the tie break.\<close>

lemma atb_list_exclusive:
  assumes "atb_list_loop A P [] L" "atb_list_loop B P [] L" "set A \<subseteq> set P" "set B \<subseteq> set P"
  shows "set A \<inter> set B \<noteq> {}"
proof -
  obtain bs a cs where a: "L = bs @ a # cs" "a \<in> set A" "set bs \<inter> set P = {}"
    using assms(1) by (auto simp: atb_list_loop_iff)
  obtain bs' b cs' where b: "L = bs' @ b # cs'" "b \<in> set B" "set bs' \<inter> set P = {}"
    using assms(2) by (auto simp: atb_list_loop_iff)
  have "bs = bs' \<or> a \<in> set bs' \<or> b \<in> set bs"
    using a(1) b(1) by (auto simp: append_eq_append_conv2 Cons_eq_append_conv append_eq_Cons_conv)
  then have "a = b" using a b assms(3,4) by auto
  then show ?thesis using a(2) b(2) by blast
qed

lemma atb_exclusive:
  assumes v: "atb_view P E s1" "atb_view P E s2" and dis: "member_ids s1 \<inter> member_ids s2 = {}"
    and same: "auto_tie_breaker s1 = auto_tie_breaker s2" "lowest_node_id s1 = lowest_node_id s2"
      "highest_node_id s1 = highest_node_id s2" "atb_nodelist s1 = atb_nodelist s2"
  shows "\<not> (check_auto_tie_breaker s1 \<and> check_auto_tie_breaker s2)"
proof -
  have "\<not> (atb_list_loop (quorum_members s1) P [] (atb_nodelist s2) \<and>
           atb_list_loop (quorum_members s2) P [] (atb_nodelist s2))"
    using atb_list_exclusive [of "quorum_members s1" P "atb_nodelist s2" "quorum_members s2"] v dis
    by (auto simp: atb_view_def)
  moreover have "\<not> (lowest_node_id s2 \<in> member_ids s1 \<and> lowest_node_id s2 \<in> member_ids s2)"
    "\<not> (highest_node_id s2 \<in> member_ids s1 \<and> highest_node_id s2 \<in> member_ids s2)"
    using dis by blast+
  ultimately show ?thesis
    using v same by (auto simp: check_auto_tie_breaker_def atb_view_def lowest_in_partition)
qed

text \<open>When every node has one vote, a partition with the votes leaves the others none by tie break.\<close>

lemma atb_vs_votes:
  assumes view: "atb_view P E s1" "atb_view P E s2" and dis: "member_ids s1 \<inter> member_ids s2 = {}"
    and P: "distinct P" and votes: "Q \<le> card (member_ids s1)"
    and few: "int (length (previous_quorum_members s2)) - int (length (quorum_members s2)) < int Q"
  shows False
proof -
  have "card (member_ids s1) + card (member_ids s2) = card (member_ids s1 \<union> member_ids s2)"
    using dis by (simp add: card_Un_disjoint)
  also have "\<dots> \<le> card (set P)" using view by (intro card_mono) (auto simp: atb_view_def)
  also have "\<dots> = length P" using P by (rule distinct_card)
  finally have "card (member_ids s1) + card (member_ids s2) \<le> length P" .
  moreover have "card (member_ids s2) = length (quorum_members s2)"
    using view(2) distinct_card [of "quorum_members s2"] by (simp add: atb_view_def)
  moreover have "previous_quorum_members s2 = P" using view(2) by (simp add: atb_view_def)
  ultimately show False using few votes by simp
qed

section \<open>Example states\<close>

text \<open>
  A node whose partition has the given members (id and votes), the first of them itself, in a
  cluster of which all expect \<open>E\<close> votes.
\<close>

definition demo_node :: "u32 \<Rightarrow> u32 \<times> u32 \<Rightarrow> cluster_node" where
  "demo_node E m = node_zero\<lparr>node_id := fst m, state := NODESTATE_MEMBER, votes := snd m, expected_votes := E\<rparr>"

definition demo_api :: corosync_api_v1 where
  "demo_api = \<lparr>totem_mcast = \<lambda>_ _. 0, totem_nodeid_get = 1\<rparr>"

definition demo_os :: os_state where
  "demo_os = \<lparr>os_fds = Map.empty, os_content = Map.empty, os_open_fd = \<lambda>_. 3,
     os_write = \<lambda>old new. new @ drop (length new) old\<rparr>"

definition demo_state :: "(u32 \<times> u32) list \<Rightarrow> u32 \<Rightarrow> vq_state" where
  "demo_state ms E = (vq_static_init demo_api Map.empty demo_os)\<lparr>
     cluster_nodes := node_zero # map (demo_node E) ms @ replicate (PROCESSOR_COUNT_MAX + 1 - length ms) node_zero,
     cluster_nodes_entries := Suc (length ms), qdevice := 0, us := 1,
     cluster_members_list := map Suc [0..<length ms], quorum_members := map fst ms\<rparr>"

lemma demo_fields [simp]:
  "cluster_members_list (demo_state ms E) = map Suc [0..<length ms]"
  "us (demo_state ms E) = 1" "qdevice (demo_state ms E) = 0"
  "cluster_nodes_entries (demo_state ms E) = Suc (length ms)"
  "quorum_members (demo_state ms E) = map fst ms" "previous_quorum_members (demo_state ms E) = []"
  "two_node (demo_state ms E) = 0" "qdevice_master_wins (demo_state ms E) = 0"
  "auto_tie_breaker (demo_state ms E) = ATB_NONE" "wait_for_all (demo_state ms E) = 0"
  "wait_for_all_status (demo_state ms E) = 0" "quorum (demo_state ms E) = 0"
  "cluster_is_quorate (demo_state ms E) = 0" "ev_tracking (demo_state ms E) = 0"
  "lowest_node_id (demo_state ms E) = - 1" "highest_node_id (demo_state ms E) = - 1"
  "sync_in_progress (demo_state ms E) = False" "atb_nodelist (demo_state ms E) = []"
  by (simp_all add: demo_state_def vq_static_init_def)

lemma demo_nodes:
  "node_at (demo_state ms E) 0 = node_zero"
  "i < length ms \<Longrightarrow> node_at (demo_state ms E) (Suc i) = demo_node E (ms ! i)"
  by (simp_all add: demo_state_def node_at_def nth_append)

lemma demo_listed: "listed (demo_state ms E) = map (demo_node E) ms"
  by (auto simp: listed_def demo_nodes intro!: nth_equalityI)

lemma demo_members: "member_nodes (demo_state ms E) = map (demo_node E) ms"
  by (simp add: member_nodes_def demo_listed is_member_def demo_node_def filter_id_conv)

lemma demo_ids: "member_ids (demo_state ms E) = fst ` set ms"
  by (simp add: member_ids_def demo_members demo_node_def image_image)

lemma demo_special:
  assumes "ms \<noteq> []"
  shows "us_node (demo_state ms E) = demo_node E (hd ms)" "qdevice_node (demo_state ms E) = node_zero"
  using assms demo_nodes(2) [of 0 ms E]
  by (simp_all add: us_node_def qdevice_node_def demo_nodes hd_conv_nth)

lemma demo_inv:
  assumes "ms \<noteq> []" "length ms \<le> PROCESSOR_COUNT_MAX" "distinct (map fst ms)" "0 \<notin> fst ` set ms"
  shows "vq_db_inv (demo_state ms E)"
proof -
  have "map node_id (listed (demo_state ms E)) = map fst ms"
    by (simp add: demo_listed demo_node_def)
  moreover have "length (cluster_nodes (demo_state ms E)) = PROCESSOR_COUNT_MAX + 2"
    using assms(2) by (simp add: demo_state_def)
  moreover have "1 \<in> Suc ` {0..<length ms}" using assms(1) by force
  ultimately show ?thesis
    using assms by (auto simp: vq_db_inv_def demo_special VOTEQUORUM_QDEVICE_NODEID_def node_zero_def
        distinct_map)
qed

lemma demo_view:
  assumes "ms \<noteq> []" "length ms \<le> PROCESSOR_COUNT_MAX" "distinct (map fst ms)" "0 \<notin> fst ` set ms"
    "\<forall>m \<in> set ms. unat (snd m) = v (fst m)" "unat e \<le> 508" "E \<le> unat e"
  shows "vq_view v E (demo_state ms e)"
  using assms demo_inv [OF assms(1-4)]
  by (auto simp: vq_view_def demo_special demo_members demo_node_def is_member_def has_flag_def
      node_zero_def)

end
