(* ===== verification/Vq_Invariant.thy ===== *)
theory Vq_Invariant
  imports Vq_Lib Vq_Majority
begin

text \<open>
  The invariant of the votequorum service and that every handler keeps it. Most operations leave
  the shape of the node database, the states of the nodes and the trackers alone: \<open>vq_frame\<close> is
  that part of the state, and the rules below say so once for every operation.
\<close>

definition vq_frame ::
  "vq_state \<Rightarrow> (nat list \<times> nat \<times> nat \<times> nat \<times> (u32 \<times> nodestate) list) \<times> conn list \<times> (conn \<Rightarrow> quorum_pd)" where
  "vq_frame s = ((cluster_members_list s, us s, qdevice s, cluster_nodes_entries s,
      map (\<lambda>n. (node_id n, state n)) (cluster_nodes s)), trackers_list s, quorum_pds s)"

named_theorems vq_frames \<open>operations that leave the frame alone\<close>

lemma map_update_same: "i < length xs \<longrightarrow> f (g (xs ! i)) = f (xs ! i) \<Longrightarrow> map f (xs[i := g (xs ! i)]) = map f xs"
  by (cases "i < length xs") (auto simp: map_update list_update_beyond not_less intro: list_update_same_conv [THEN iffD2])

lemma frame_node_upd:
  assumes "\<And>n. node_id (f n) = node_id n" "\<And>n. state (f n) = state n"
  shows "vq_frame (node_upd i f s) = vq_frame s"
  using assms by (simp add: vq_frame_def node_upd_def node_at_def map_update_same)

lemma frame_us_upd:
  "(\<And>n. node_id (f n) = node_id n) \<Longrightarrow> (\<And>n. state (f n) = state n) \<Longrightarrow> vq_frame (us_upd f s) = vq_frame s"
  by (simp add: us_upd_def frame_node_upd)

lemma frame_basic [simp, vq_frames]:
  "vq_frame (us_flags_upd g s) = vq_frame s" "vq_frame (emit e s) = vq_frame s"
  "vq_frame (icmap_set_uint8 k v s) = vq_frame s" "vq_frame (icmap_set_uint32 k w s) = vq_frame s"
proof -
  show "vq_frame (us_flags_upd g s) = vq_frame s" by (simp add: us_flags_upd_def frame_us_upd)
qed (simp_all add: vq_frame_def emit_def icmap_set_uint8_def icmap_set_uint32_def)

lemma frame_fields [simp, vq_frames]:
  "vq_frame (s\<lparr>wait_for_all_status := a1\<rparr>) = vq_frame s" "vq_frame (s\<lparr>ev_barrier := a2\<rparr>) = vq_frame s"
  "vq_frame (s\<lparr>qdevice_can_operate := a3\<rparr>) = vq_frame s" "vq_frame (s\<lparr>qdevice_master_wins := a4\<rparr>) = vq_frame s"
  "vq_frame (s\<lparr>ev_tracking_barrier := a5\<rparr>) = vq_frame s" "vq_frame (s\<lparr>os := a6\<rparr>) = vq_frame s"
  "vq_frame (s\<lparr>lowest_node_id := a7\<rparr>) = vq_frame s" "vq_frame (s\<lparr>highest_node_id := a8\<rparr>) = vq_frame s"
  "vq_frame (s\<lparr>quorum := a9\<rparr>) = vq_frame s" "vq_frame (s\<lparr>cluster_is_quorate := a10\<rparr>) = vq_frame s"
  "vq_frame (s\<lparr>last_man_standing := a11\<rparr>) = vq_frame s"
  "vq_frame (s\<lparr>last_man_standing_timer_set := a12\<rparr>) = vq_frame s"
  "vq_frame (s\<lparr>qdevice_timer_set := a13\<rparr>) = vq_frame s"
  "vq_frame (s\<lparr>sync_wait_for_poll_or_timeout := a14\<rparr>) = vq_frame s"
  "vq_frame (s\<lparr>sync_nodeinfo_sent := a15\<rparr>) = vq_frame s" "vq_frame (s\<lparr>sync_in_progress := a16\<rparr>) = vq_frame s"
  "vq_frame (s\<lparr>quorum_members := a17\<rparr>) = vq_frame s" "vq_frame (s\<lparr>previous_quorum_members := a18\<rparr>) = vq_frame s"
  "vq_frame (s\<lparr>quorum_ringid := a19\<rparr>) = vq_frame s" "vq_frame (s\<lparr>qdevice_name := a20\<rparr>) = vq_frame s"
  "vq_frame (s\<lparr>qdevice_reg_conn := a21\<rparr>) = vq_frame s" "vq_frame (s\<lparr>two_node := a22\<rparr>) = vq_frame s"
  "vq_frame (s\<lparr>wait_for_all := a23\<rparr>) = vq_frame s" "vq_frame (s\<lparr>auto_tie_breaker := a24\<rparr>) = vq_frame s"
  "vq_frame (s\<lparr>initial_auto_tie_breaker := a25\<rparr>) = vq_frame s" "vq_frame (s\<lparr>atb_nodelist := a26\<rparr>) = vq_frame s"
  "vq_frame (s\<lparr>allow_downscale := a27\<rparr>) = vq_frame s" "vq_frame (s\<lparr>wait_for_all_autoset := a28\<rparr>) = vq_frame s"
  "vq_frame (s\<lparr>last_man_standing_window := a29\<rparr>) = vq_frame s" "vq_frame (s\<lparr>ev_tracking := a30\<rparr>) = vq_frame s"
  "vq_frame (s\<lparr>ev_tracking_fd := a31\<rparr>) = vq_frame s" "vq_frame (s\<lparr>qdevice_timeout := a32\<rparr>) = vq_frame s"
  "vq_frame (s\<lparr>qdevice_sync_timeout := a33\<rparr>) = vq_frame s"
  by (simp_all add: vq_frame_def)

lemma frame_small [simp, vq_frames]:
  "vq_frame (notify c x m s) = vq_frame s"
  "vq_frame (votequorum_exec_send_quorum_notification c x s) = vq_frame s"
  "vq_frame (votequorum_exec_send_nodelist_notification c x s) = vq_frame s"
  "vq_frame (votequorum_exec_send_expectedvotes_notification s) = vq_frame s"
  "vq_frame (get_lowest_node_id s) = vq_frame s" "vq_frame (get_highest_node_id s) = vq_frame s"
  "vq_frame (update_wait_for_all_status v s) = vq_frame s" "vq_frame (update_two_node s) = vq_frame s"
  "vq_frame (update_ev_barrier w s) = vq_frame s" "vq_frame (update_qdevice_can_operate v s) = vq_frame s"
  "vq_frame (update_qdevice_master_wins v s) = vq_frame s"
  "vq_frame (update_ev_tracking_barrier w s) = vq_frame s"
proof -
  show "vq_frame (update_wait_for_all_status v s) = vq_frame s"
    by (simp add: update_wait_for_all_status_def Let_def)
qed (simp_all add: vq_upd, simp_all add: vq_frame_def)

lemma frame_update_expected [simp, vq_frames]: "vq_frame (update_node_expected_votes v s) = vq_frame s"
proof -
  have "vq_frame (fold (\<lambda>i s. if state (node_at s i) = NODESTATE_MEMBER
      then node_upd i (\<lambda>n. n\<lparr>expected_votes := v\<rparr>) s else s) is s) = vq_frame s" for "is"
    by (induction "is" arbitrary: s) (simp_all add: frame_node_upd)
  then show ?thesis by (simp add: update_node_expected_votes_def)
qed

lemma frame_raise [simp, vq_frames]: "vq_frame (vq_raise s) = vq_frame s"
  by (simp add: vq_raise_def Let_def frame_us_upd)

lemma frame_quorate_finish [simp, vq_frames]: "vq_frame (quorate_finish b s) = vq_frame s"
  by (simp add: quorate_finish_def Let_def)

lemma frame_quorate_decide: "quorate_decide t s = (b, s') \<Longrightarrow> vq_frame s' = vq_frame s"
  by (auto simp: quorate_decide_def Let_def split: if_splits)

lemma frame_are_we_quorate: "are_we_quorate t s = Inr s' \<Longrightarrow> vq_frame s' = vq_frame s"
  by (auto simp: are_we_quorate_def bindE_eq_Inr Let_def dest!: frame_quorate_decide
      split: if_splits prod.splits)

lemma frame_recalculate: "recalculate_quorum d b s = Inr s' \<Longrightarrow> vq_frame s' = vq_frame s"
  by (auto simp: recalculate_quorum_eq Let_def dest!: frame_are_we_quorate split: prod.splits)

lemma frame_sends [simp, vq_frames]:
  "vq_frame (snd (mcast m s)) = vq_frame s"
  "vq_frame (snd (votequorum_exec_send_nodeinfo nodeid s)) = vq_frame s"
  "vq_frame (snd (votequorum_exec_send_reconfigure p nodeid v s)) = vq_frame s"
  "vq_frame (votequorum_exec_send_set_qdevice_extra_info nodeid s) = vq_frame s"
  "vq_frame (votequorum_exec_send_qdevice_extra_info_notification nodeid s) = vq_frame s"
  "vq_frame (votequorum_exec_send_all_qdevice_extra_info_notification c x s) = vq_frame s"
proof -
  have "vq_frame (fold (\<lambda>node s. if has_flag (flags node) NODE_FLAGS_QDEVICE_EXTRA_INFO_SET
      then emit (IpcDispatch c (fill_extra_info_notification node x)) s else s) ns s) = vq_frame s" for ns
    by (induction ns arbitrary: s) simp_all
  then show "vq_frame (votequorum_exec_send_all_qdevice_extra_info_notification c x s) = vq_frame s"
    by (simp add: votequorum_exec_send_all_qdevice_extra_info_notification_def)
qed (simp_all add: mcast_def votequorum_exec_send_nodeinfo_def votequorum_exec_send_reconfigure_def
      votequorum_exec_send_set_qdevice_extra_info_def
      votequorum_exec_send_qdevice_extra_info_notification_def Let_def split: option.splits)

lemma frame_send_names:
  "votequorum_exec_send_qdevice_reg op name s = Inr (r, s') \<Longrightarrow> vq_frame s' = vq_frame s"
  "votequorum_exec_send_qdevice_reconfigure old new s = Inr (r, s') \<Longrightarrow> vq_frame s' = vq_frame s"
  by (auto simp: votequorum_exec_send_qdevice_reg_def votequorum_exec_send_qdevice_reconfigure_def
      bindE_eq_Inr mcast_def)

text \<open>The configuration.\<close>

lemma frame_set_atb_type [simp, vq_frames]: "vq_frame (set_atb_type s) = vq_frame s"
  by (simp add: set_atb_type_def)

lemma frame_parse_atb: "parse_atb_string str s = Inr s' \<Longrightarrow> vq_frame s' = vq_frame s"
  by (auto simp: parse_atb_string_def Let_def bindE_eq_Inr split: if_splits)

lemma frame_load_barrier: "load_ev_tracking_barrier s = (r, s') \<Longrightarrow> vq_frame s' = vq_frame s"
  by (auto simp: load_ev_tracking_barrier_def Let_def split: prod.splits if_splits)

lemma frame_readconfig_flags [simp, vq_frames]: "vq_frame (readconfig_flags s) = vq_frame s"
  by (simp add: readconfig_flags_def Let_def split: option.splits)

lemma frame_readconfig_atb: "readconfig_atb s = Inr s' \<Longrightarrow> vq_frame s' = vq_frame s"
  by (auto simp: readconfig_atb_def Let_def bindE_eq_Inr dest!: frame_parse_atb
      split: if_splits option.splits)

lemma frame_readconfig_tracking: "readconfig_tracking s = (ok, s') \<Longrightarrow> vq_frame s' = vq_frame s"
  by (auto simp: readconfig_tracking_def Let_def dest!: frame_load_barrier split: if_splits prod.splits)

lemma frame_features: "readconfig_features s = Inr (ok, s') \<Longrightarrow> vq_frame s' = vq_frame s"
  by (auto simp: readconfig_features_def bindE_eq_Inr dest!: frame_readconfig_atb frame_readconfig_tracking)

lemma frame_apply [simp, vq_frames]:
  "vq_frame (apply_our_votes hn nv ne ev s) = vq_frame s"
  "vq_frame (apply_qdevice_votes hq qv s) = vq_frame s"
  "vq_frame (apply_wait_for_all rt s) = vq_frame s"
  by (simp_all add: apply_our_votes_def apply_qdevice_votes_def apply_wait_for_all_def Let_def
      frame_us_upd frame_node_upd)

lemma frame_readconfig_apply:
  "readconfig_apply rt hn hq nv nc ne ce qv s = Inr (e, s') \<Longrightarrow> vq_frame s' = vq_frame s"
  by (auto simp: readconfig_apply_def Let_def)

lemma cfg_incompatible_cases:
  assumes "cfg_incompatible rt bad msg s k = Inr (e, s')"
  obtains "s' = s" | s1 where "vq_frame s1 = vq_frame s" "k s1 = Inr (e, s')"
  using assms that(1) that(2) [of s] that(2) [of "update_qdevice_can_operate 0 s"]
  by (auto simp: cfg_incompatible_def split: if_splits)

lemma frame_readconfig_verify:
  assumes "readconfig_verify rt hn hq nv nc ne ce qv s = Inr (e, s')"
  shows "vq_frame s' = vq_frame s"
  using assms unfolding readconfig_verify_def Let_def
  by (auto split: if_splits elim!: cfg_incompatible_cases dest!: frame_readconfig_apply)

lemma frame_qdevice_configured:
  "votequorum_qdevice_is_configured qv s = (h, v, s') \<Longrightarrow> vq_frame s' = vq_frame s"
  by (auto simp: votequorum_qdevice_is_configured_def split: option.splits if_splits)

lemma frame_readconfig:
  assumes "votequorum_readconfig iter rt s = Inr (e, s')"
  shows "vq_frame s' = vq_frame s"
  using assms unfolding votequorum_readconfig_def Let_def
  by (auto simp: bindE_eq_Inr split: if_splits prod.splits
      dest!: frame_readconfig_verify frame_features frame_qdevice_configured)

lemma frame_refresh_reload: "refresh_reload iter s = Inr s' \<Longrightarrow> vq_frame s' = vq_frame s"
  by (auto simp: refresh_reload_def Let_def bindE_eq_Inr case_prod_beta dest!: frame_readconfig split: if_splits)

lemma frame_refresh_config:
  assumes "votequorum_refresh_config iter junk key s = Inr s'"
  shows "vq_frame s' = vq_frame s"
proof -
  have step: "vq_frame s' = vq_frame s"
    if "refresh_config_step iter junk f key s = Inr s'" "\<And>k s s'. f k s = Inr s' \<Longrightarrow> vq_frame s' = vq_frame s"
    for f key s s'
    using that by (auto simp: refresh_config_step_def Let_def bindE_eq_Inr dest!: frame_refresh_reload
        split: if_splits)
  show ?thesis
    using assms unfolding votequorum_refresh_config_def by (elim step) simp
qed

section \<open>The invariant\<close>

definition vq_inv :: "vq_state \<Rightarrow> bool" where
  "vq_inv s \<longleftrightarrow> vq_db_inv s \<and> state (us_node s) \<in> {NODESTATE_MEMBER, NODESTATE_LEAVING} \<and>
     distinct (trackers_list s) \<and> (\<forall>c \<in> set (trackers_list s). tracking_enabled (quorum_pds s c))"

lemma frame_nodes:
  assumes "vq_frame s' = vq_frame s"
  shows "cluster_members_list s' = cluster_members_list s" "us s' = us s" "qdevice s' = qdevice s"
    "cluster_nodes_entries s' = cluster_nodes_entries s" "trackers_list s' = trackers_list s"
    "quorum_pds s' = quorum_pds s" "length (cluster_nodes s') = length (cluster_nodes s)"
    "i < length (cluster_nodes s) \<Longrightarrow> node_id (node_at s' i) = node_id (node_at s i)"
    "i < length (cluster_nodes s) \<Longrightarrow> state (node_at s' i) = state (node_at s i)"
proof -
  have map: "map (\<lambda>n. (node_id n, state n)) (cluster_nodes s') = map (\<lambda>n. (node_id n, state n)) (cluster_nodes s)"
    using assms by (simp add: vq_frame_def)
  show len: "length (cluster_nodes s') = length (cluster_nodes s)" by (rule map_eq_imp_length_eq [OF map])
  show "node_id (node_at s' i) = node_id (node_at s i)" "state (node_at s' i) = state (node_at s i)"
    if "i < length (cluster_nodes s)"
    using that len arg_cong [OF map, of "\<lambda>l. l ! i"] by (simp_all add: node_at_def)
qed (use assms in \<open>simp_all add: vq_frame_def\<close>)

lemma vq_db_inv_frame:
  assumes "vq_frame s' = vq_frame s" "vq_db_inv s"
  shows "vq_db_inv s'"
proof -
  note eqs = frame_nodes [OF assms(1)]
  have "i < length (cluster_nodes s)" if "i \<in> set (cluster_members_list s)" for i
    using assms(2) that by (auto simp: vq_db_inv_alt)
  moreover have "qdevice s < length (cluster_nodes s)" using assms(2) by (auto simp: vq_db_inv_alt)
  ultimately show ?thesis
    using assms(2) by (auto simp: vq_db_inv_alt eqs inj_on_def)
qed

lemma vq_inv_frame:
  assumes "vq_frame s' = vq_frame s" "vq_inv s"
  shows "vq_inv s'"
  using assms vq_db_inv_frame [OF assms(1)] vq_db_invD(2) [of s] frame_nodes [OF assms(1)]
  by (auto simp: vq_inv_def us_node_def)

lemma vq_inv_us_member: "vq_inv s \<Longrightarrow> us s < length (cluster_nodes s)"
  using vq_db_invD(2) by (simp add: vq_inv_def)

lemma vq_inv_node_upd:
  assumes inv: "vq_inv s" and id: "\<And>n. node_id (f n) = node_id n"
    and st: "i = us s \<Longrightarrow> state (f (node_at s i)) \<in> {NODESTATE_MEMBER, NODESTATE_LEAVING}"
  shows "vq_inv (node_upd i f s)"
proof -
  have ids: "node_id (node_at (node_upd i f s) j) = node_id (node_at s j)" for j
    by (simp add: node_at_upd id)
  have same: "cluster_members_list (node_upd i f s) = cluster_members_list s" "us (node_upd i f s) = us s"
    "qdevice (node_upd i f s) = qdevice s" "cluster_nodes_entries (node_upd i f s) = cluster_nodes_entries s"
    "trackers_list (node_upd i f s) = trackers_list s" "quorum_pds (node_upd i f s) = quorum_pds s"
    "length (cluster_nodes (node_upd i f s)) = length (cluster_nodes s)"
    by (simp_all add: node_upd_def)
  have "vq_db_inv (node_upd i f s)"
    using inv unfolding vq_inv_def vq_db_inv_alt same ids by simp
  moreover have "state (us_node (node_upd i f s)) \<in> {NODESTATE_MEMBER, NODESTATE_LEAVING}"
    using inv st by (auto simp: vq_inv_def us_node_def same node_at_upd)
  ultimately show ?thesis using inv by (simp add: vq_inv_def same)
qed

section \<open>Messages between nodes\<close>

lemma frame_check_lms [simp, vq_frames]: "vq_frame (nodeinfo_check_lms i s) = vq_frame s"
  by (simp add: nodeinfo_check_lms_def Let_def)

lemma frame_nodeinfo_rest:
  assumes "nodeinfo_update_node m i s = (d, b, s')"
  shows "vq_frame s' = vq_frame (node_upd i (\<lambda>n. n\<lparr>flags := ni_flags m, votes := ni_votes m,
    state := (if has_flag (ni_flags m) NODE_FLAGS_LEAVING then NODESTATE_LEAVING else NODESTATE_MEMBER)\<rparr>) s)"
  using assms by (auto simp: nodeinfo_update_node_def Let_def frame_us_upd frame_node_upd split: if_splits)

lemma vq_inv_nodeinfo_update:
  "vq_inv s \<Longrightarrow> nodeinfo_update_node m i s = (d, b, s') \<Longrightarrow> vq_inv s'"
  by (rule vq_inv_frame [OF frame_nodeinfo_rest]) (auto intro: vq_inv_node_upd)

lemma vq_inv_allocate:
  assumes inv: "vq_inv s" and new: "find_node_by_nodeid nodeid s = None"
    and alloc: "allocate_node nodeid s = Inr (r, s')"
  shows "vq_inv s' \<and> r \<noteq> None"
proof -
  have "find_node_by_nodeid VOTEQUORUM_QDEVICE_NODEID s \<noteq> None"
    by (simp add: find_node_by_nodeid_def)
  then have id: "nodeid \<noteq> VOTEQUORUM_QDEVICE_NODEID" using new by auto
  have "vq_db_inv s" "state (us_node s) \<noteq> NODESTATE_DEAD" using inv by (auto simp: vq_inv_def)
  from allocate_node_ok [OF this(1) id new this(2) alloc] obtain cl where
    "r = Some cl" "vq_db_inv s'" "us s' = us s" "cl \<noteq> us s" "\<forall>i. i \<noteq> cl \<longrightarrow> node_at s' i = node_at s i"
    by blast
  moreover have "trackers_list s' = trackers_list s" "quorum_pds s' = quorum_pds s"
    using alloc by (auto simp: allocate_node_def node_start_def node_add_ordered_def node_upd_def Let_def
        split: if_splits option.splits)
  ultimately show ?thesis using inv by (auto simp: vq_inv_def us_node_def)
qed

lemma vq_inv_nodeinfo:
  assumes inv: "vq_inv s" and res: "message_handler_req_exec_votequorum_nodeinfo m sender s = Inr s'"
  shows "vq_inv s'"
proof -
  obtain node s1 where n: "(case find_node_by_nodeid (ni_nodeid m) s of
      Some i \<Rightarrow> Inr (Some i, s) | None \<Rightarrow> allocate_node (ni_nodeid m) s) = Inr (node, s1)"
    using res by (auto simp: message_handler_req_exec_votequorum_nodeinfo_def Let_def bindE_eq_Inr)
  then have inv1: "vq_inv s1" and "node \<noteq> None"
    using inv vq_inv_allocate [OF inv] by (auto split: option.splits dest: sym)
  then obtain i where i: "node = Some i" by blast
  obtain s2 s3 d b where
    s2: "(if ni_nodeid m = VOTEQUORUM_QDEVICE_NODEID
          then case find_node_by_nodeid sender s1 of
                 None \<Rightarrow> Inl AssertFailed
               | Some j \<Rightarrow> Inr (False, False,
                   if cluster_is_quorate s1 = 0 \<and> has_flag (flags (node_at s1 j)) NODE_FLAGS_QUORATE
                   then node_upd i (\<lambda>n. n\<lparr>votes := ni_votes m\<rparr>) s1
                   else node_upd i (\<lambda>n. n\<lparr>votes := c_max (votes n) (ni_votes m)\<rparr>) s1)
          else Inr (nodeinfo_update_node m i s1)) = Inr (d, b, s2)"
    and s3: "recalculate_quorum d b s2 = Inr s3 \<or> s3 = s2"
    and s': "s' = s3 \<or> s' = update_wait_for_all_status 0 s3"
    using res n i unfolding message_handler_req_exec_votequorum_nodeinfo_def Let_def
    by (auto simp: bindE_eq_Inr split: if_splits)
  have "vq_inv s2"
    using s2 inv1 vq_inv_nodeinfo_update
    by (auto split: if_splits option.splits intro: vq_inv_frame [OF frame_node_upd])
  then have "vq_inv s3" using s3 frame_recalculate vq_inv_frame by blast
  then show ?thesis using s' vq_inv_frame by auto
qed

lemma frame_reconfigure:
  "message_handler_req_exec_votequorum_reconfigure m nodeid s = Inr s' \<Longrightarrow> vq_frame s' = vq_frame s"
  by (auto simp: message_handler_req_exec_votequorum_reconfigure_def Let_def frame_us_upd frame_node_upd
      dest!: frame_recalculate split: if_splits option.splits)

lemma frame_set_qdevice_name: "set_qdevice_name name s = Inr s' \<Longrightarrow> vq_frame s' = vq_frame s"
  by (auto simp: set_qdevice_name_def split: if_splits)

lemma frame_qdevice_messages:
  "message_handler_req_exec_votequorum_qdevice_reconfigure m1 nodeid s = Inr s' \<Longrightarrow> vq_frame s' = vq_frame s"
  "message_handler_req_exec_votequorum_qdevice_reg m2 nodeid s = Inr s' \<Longrightarrow> vq_frame s' = vq_frame s"
  "vq_frame (message_handler_req_exec_votequorum_qdevice_set_extra_info m3 nodeid s) = vq_frame s"
  by (auto simp: message_handler_req_exec_votequorum_qdevice_reconfigure_def
      message_handler_req_exec_votequorum_qdevice_reg_def bindE_eq_Inr Let_def case_prod_beta
      message_handler_req_exec_votequorum_qdevice_set_extra_info_def frame_node_upd
      dest!: frame_set_qdevice_name split: if_splits option.splits)

lemma vq_inv_exec:
  assumes "vq_inv s" "votequorum_exec_engine msg nodeid s = Inr s'"
  shows "vq_inv s'"
  using assms vq_inv_nodeinfo
  by (auto simp: votequorum_exec_engine_def split: exec_msg.splits
      intro: vq_inv_frame dest!: frame_reconfigure frame_qdevice_messages(1,2))
     (auto intro: vq_inv_frame [OF frame_qdevice_messages(3)])

section \<open>Synchronisation and timers\<close>

lemma vq_inv_mark_left:
  assumes "vq_inv s" "node_id (us_node s) \<in> set members" "mark_left members ms (b, s) = (b', s')"
  shows "vq_inv s'"
  using assms
proof (induction ms arbitrary: b s)
  case Nil
  then show ?case by simp
next
  case (Cons m ms)
  show ?case
  proof (cases "m \<in> set members")
    case True
    then show ?thesis using Cons by simp
  next
    case False
    define s1 where "s1 = (case find_node_by_nodeid m s of
        Some i \<Rightarrow> node_upd i (\<lambda>n. n\<lparr>state := NODESTATE_DEAD\<rparr>) s | None \<Rightarrow> s)"
    have db: "vq_db_inv s" using Cons.prems(1) by (simp add: vq_inv_def)
    have "i \<noteq> us s" if "find_node_by_nodeid m s = Some i" for i
      using that False Cons.prems(2) find_node_by_nodeid_iff [OF db, of m i] vq_db_invD(4) [OF db]
      by (auto simp: us_node_def)
    then have "vq_inv s1"
      using Cons.prems(1) by (auto simp: s1_def intro!: vq_inv_node_upd split: option.splits)
    moreover have "node_id (us_node s1) \<in> set members"
      using Cons.prems(2) by (auto simp: s1_def us_node_def node_at_upd split: option.splits)
        (simp_all add: node_upd_def)
    ultimately show ?thesis using Cons.IH [of s1] Cons.prems(3) False by (simp add: s1_def)
  qed
qed

lemma frame_sync_timers [simp, vq_frames]:
  "vq_frame (sync_lms_timer members left_nodes s) = vq_frame s" "vq_frame (sync_qdevice_timer s) = vq_frame s"
  by (simp_all add: sync_lms_timer_def sync_qdevice_timer_def Let_def)

lemma vq_inv_sync_init:
  assumes inv: "vq_inv s" and us: "node_id (us_node s) \<in> set members"
    and res: "votequorum_sync_init members ring s = Inr s'"
  shows "vq_inv s'"
proof -
  define s2 where "s2 = (let s1 = s\<lparr>sync_in_progress := True, sync_nodeinfo_sent := False,
                 sync_wait_for_poll_or_timeout := False\<rparr>
      in if length members > 1 then us_flags_upd (clear_flag NODE_FLAGS_FIRST) s1 else s1)"
  obtain b s3 where s3: "mark_left members (quorum_members s2) (False, s2) = (b, s3)" by fastforce
  have f2: "vq_frame s2 = vq_frame s" by (simp add: s2_def Let_def)
  have "vq_inv s2" by (rule vq_inv_frame [OF f2 inv])
  moreover have "node_id (us_node s2) = node_id (us_node s)"
    using frame_nodes(2,8) [OF f2] vq_inv_us_member [OF inv] by (simp add: us_node_def)
  ultimately have inv3: "vq_inv s3" using vq_inv_mark_left [OF _ _ s3] us by simp
  have "vq_frame s' = vq_frame s3"
    using res s3 unfolding votequorum_sync_init_def s2_def Let_def by (auto split: if_splits)
  then show ?thesis using inv3 vq_inv_frame by blast
qed

lemma frame_sync:
  "votequorum_sync_process s = Inr (r, s') \<Longrightarrow> vq_frame s' = vq_frame s"
  "votequorum_sync_activate s = Inr s' \<Longrightarrow> vq_frame s' = vq_frame s"
  "votequorum_last_man_standing_timer_fn s = Inr s' \<Longrightarrow> vq_frame s' = vq_frame s"
  "vq_frame (qdevice_timer_fn s) = vq_frame s"
  by (auto simp: votequorum_sync_process_def votequorum_sync_activate_def qdevice_timer_fn_def
      votequorum_last_man_standing_timer_fn_def bindE_eq_Inr Let_def
      dest!: frame_recalculate frame_send_names split: if_splits)

section \<open>Library requests\<close>

lemma frame_respond [simp, vq_frames]: "vq_frame (respond c e s) = vq_frame s"
  by (simp add: respond_def)

lemma frame_lib:
  "vq_frame (message_handler_req_lib_votequorum_getinfo c n s) = vq_frame s"
  "vq_frame (message_handler_req_lib_votequorum_setexpected c v s) = vq_frame s"
  "vq_frame (message_handler_req_lib_votequorum_setvotes c n v s) = vq_frame s"
  "vq_frame (message_handler_req_lib_votequorum_qdevice_poll c name b ring s) = vq_frame s"
  "vq_frame (message_handler_req_lib_votequorum_qdevice_master_wins c name v s) = vq_frame s"
  "vq_frame (message_handler_req_lib_votequorum_qdevice_set_extra_info c v info s) = vq_frame s"
  "vq_frame (message_handler_req_lib_votequorum_qdevice_get_extra_info c n s) = vq_frame s"
  by (simp_all add: message_handler_req_lib_votequorum_getinfo_def
      message_handler_req_lib_votequorum_setexpected_def message_handler_req_lib_votequorum_setvotes_def
      message_handler_req_lib_votequorum_qdevice_poll_def
      message_handler_req_lib_votequorum_qdevice_master_wins_def
      message_handler_req_lib_votequorum_qdevice_set_extra_info_def
      message_handler_req_lib_votequorum_qdevice_get_extra_info_def Let_def case_prod_beta
      frame_us_upd frame_node_upd split: option.splits)

lemma frame_lib_qdevice:
  "message_handler_req_lib_votequorum_qdevice_register c name s = Inr s' \<Longrightarrow> vq_frame s' = vq_frame s"
  "message_handler_req_lib_votequorum_qdevice_unregister c name s = Inr s' \<Longrightarrow> vq_frame s' = vq_frame s"
  "message_handler_req_lib_votequorum_qdevice_update c old new s = Inr s' \<Longrightarrow> vq_frame s' = vq_frame s"
  by (auto simp: message_handler_req_lib_votequorum_qdevice_register_def
      message_handler_req_lib_votequorum_qdevice_unregister_def
      message_handler_req_lib_votequorum_qdevice_update_def bindE_eq_Inr Let_def frame_us_upd
      dest!: frame_send_names split: if_splits)

end
