(* ===== verification/Vq_Steps.thy ===== *)
theory Vq_Steps
  imports Vq_Invariant
begin

text \<open>
  The votequorum service as a transition system: its entry points as labelled steps, runs of steps
  from the start of the service, and the invariants of every reachable state.
\<close>

section \<open>Trackers\<close>

lemma vq_inv_trackers:
  assumes "vq_inv s" "cluster_members_list s' = cluster_members_list s" "us s' = us s" "qdevice s' = qdevice s"
    "cluster_nodes_entries s' = cluster_nodes_entries s" "cluster_nodes s' = cluster_nodes s"
    "distinct (trackers_list s')" "\<forall>c \<in> set (trackers_list s'). tracking_enabled (quorum_pds s' c)"
  shows "vq_inv s'"
proof -
  have "node_at s' = node_at s" using assms(6) by (simp add: fun_eq_iff node_at_def)
  then show ?thesis using assms by (simp add: vq_inv_def vq_db_inv_alt us_node_def)
qed

lemma vq_inv_trackstart:
  assumes "vq_inv s"
  shows "vq_inv (message_handler_req_lib_votequorum_trackstart c x fl s)"
proof -
  define s1 where "s1 = (if has_flag fl CS_TRACK_CURRENT \<or> has_flag fl CS_TRACK_CHANGES
                then votequorum_exec_send_all_qdevice_extra_info_notification c x
                       (votequorum_exec_send_quorum_notification (Some c) x
                         (votequorum_exec_send_nodelist_notification (Some c) x s))
                else s)"
  have "vq_frame s1 = vq_frame s" by (simp add: s1_def)
  then have inv1: "vq_inv s1" using assms vq_inv_frame by blast
  let ?s2 = "(pd_upd c (\<lambda>pd. pd\<lparr>track_flags := ucast fl, tracking_enabled := True,
                                tracking_context := x\<rparr>) s1)\<lparr>trackers_list := c # trackers_list s1\<rparr>"
  have "vq_inv ?s2" if "\<not> tracking_enabled (quorum_pds s1 c)"
    using inv1 that by (intro vq_inv_trackers [OF inv1]) (auto simp: pd_upd_def vq_inv_def)
  then show ?thesis
    using inv1 by (auto simp: message_handler_req_lib_votequorum_trackstart_def s1_def [symmetric] Let_def
        intro: vq_inv_frame [OF frame_respond])
qed

lemma vq_inv_trackstop:
  assumes "vq_inv s"
  shows "vq_inv (message_handler_req_lib_votequorum_trackstop c s)" "vq_inv (quorum_lib_exit_fn c s)"
proof -
  let ?s = "(pd_upd c (\<lambda>pd. pd\<lparr>tracking_enabled := False\<rparr>) s)\<lparr>trackers_list := remove1 c (trackers_list s)\<rparr>"
  have "vq_inv ?s"
    using assms by (intro vq_inv_trackers [OF assms]) (auto simp: pd_upd_def vq_inv_def)
  then show "vq_inv (message_handler_req_lib_votequorum_trackstop c s)"
    using assms by (auto simp: message_handler_req_lib_votequorum_trackstop_def
        intro: vq_inv_frame [OF frame_respond])
  have "vq_inv (s\<lparr>trackers_list := remove1 c (trackers_list s)\<rparr>)"
    using assms by (intro vq_inv_trackers [OF assms]) (auto simp: vq_inv_def)
  then show "vq_inv (quorum_lib_exit_fn c s)"
    using assms by (simp add: quorum_lib_exit_fn_def)
qed

section \<open>Start\<close>

lemma allocate_first:
  assumes "cluster_nodes_entries s \<le> PROCESSOR_COUNT_MAX + 1"
  shows "allocate_node nodeid s = Inr (Some (cluster_nodes_entries s),
    node_start nodeid (cluster_nodes_entries s) (s\<lparr>cluster_nodes_entries := cluster_nodes_entries s + 1\<rparr>))"
  using assms by (simp add: allocate_node_def Let_def)

text \<open>In a fresh process the start sets up a database with the quorum device and this node.\<close>

lemma exec_init_nodes_ok:
  assumes "cluster_nodes_entries s = 0" "totem_nodeid_get (corosync_api s) \<noteq> VOTEQUORUM_QDEVICE_NODEID"
  shows "\<exists>s'. exec_init_nodes s = Inr (None, s') \<and> vq_inv s' \<and>
    node_id (us_node s') = totem_nodeid_get (corosync_api s) \<and> cluster_members_list s' = [1] \<and>
    wait_for_all_status s' = wait_for_all_status s \<and> cluster_is_quorate s' = cluster_is_quorate s"
  using assms
  by (simp add: exec_init_nodes_def Let_def allocate_first node_start_def node_add_ordered_def
      PROCESSOR_COUNT_MAX_def vq_upd vq_inv_def vq_db_inv_alt us_node_def node_at_def
      VOTEQUORUM_QDEVICE_NODEID_def node_zero_def)

section \<open>Steps\<close>

datatype vq_event =
    ExecMessage exec_msg u32
  | SyncInit "u32 list" memb_ring_id
  | SyncProcess
  | SyncActivate
  | SyncAbort
  | LmsTimerFires
  | QdeviceTimerFires
  | ConfigChanged string u8
  | LibConnect conn
  | LibDisconnect conn
  | LibGetinfo conn u32
  | LibSetexpected conn u32
  | LibSetvotes conn u32 u32
  | LibTrackstart conn u64 u32
  | LibTrackstop conn
  | LibQdeviceRegister conn string
  | LibQdeviceUnregister conn string
  | LibQdeviceUpdate conn string string
  | LibQdevicePoll conn string bool memb_ring_id
  | LibQdeviceMasterWins conn string u32
  | LibQdeviceSetExtraInfo conn u32 "u8 list"
  | LibQdeviceGetExtraInfo conn u32

text \<open>The outcome of an event: the entry point of the service that the engine calls for it.\<close>

fun vq_react :: "icmap_iter \<Rightarrow> vq_event \<Rightarrow> vq_state \<Rightarrow> vq_state c_result" where
  "vq_react iter (ExecMessage msg nodeid) s = votequorum_exec_engine msg nodeid s"
| "vq_react iter (SyncInit members ring) s = votequorum_sync_init members ring s"
| "vq_react iter SyncProcess s = bindE (votequorum_sync_process s) (\<lambda>(_, s'). Inr s')"
| "vq_react iter SyncActivate s = votequorum_sync_activate s"
| "vq_react iter SyncAbort s = Inr (votequorum_sync_abort s)"
| "vq_react iter LmsTimerFires s = votequorum_last_man_standing_timer_fn s"
| "vq_react iter QdeviceTimerFires s = Inr (qdevice_timer_fn s)"
| "vq_react iter (ConfigChanged key junk) s = votequorum_refresh_config iter junk key s"
| "vq_react iter (LibConnect c) s = Inr (quorum_lib_init_fn c s)"
| "vq_react iter (LibDisconnect c) s = Inr (quorum_lib_exit_fn c s)"
| "vq_react iter (LibGetinfo c n) s = Inr (message_handler_req_lib_votequorum_getinfo c n s)"
| "vq_react iter (LibSetexpected c v) s = Inr (message_handler_req_lib_votequorum_setexpected c v s)"
| "vq_react iter (LibSetvotes c n v) s = Inr (message_handler_req_lib_votequorum_setvotes c n v s)"
| "vq_react iter (LibTrackstart c x fl) s = Inr (message_handler_req_lib_votequorum_trackstart c x fl s)"
| "vq_react iter (LibTrackstop c) s = Inr (message_handler_req_lib_votequorum_trackstop c s)"
| "vq_react iter (LibQdeviceRegister c name) s = message_handler_req_lib_votequorum_qdevice_register c name s"
| "vq_react iter (LibQdeviceUnregister c name) s = message_handler_req_lib_votequorum_qdevice_unregister c name s"
| "vq_react iter (LibQdeviceUpdate c old new) s = message_handler_req_lib_votequorum_qdevice_update c old new s"
| "vq_react iter (LibQdevicePoll c name b ring) s =
     Inr (message_handler_req_lib_votequorum_qdevice_poll c name b ring s)"
| "vq_react iter (LibQdeviceMasterWins c name v) s =
     Inr (message_handler_req_lib_votequorum_qdevice_master_wins c name v s)"
| "vq_react iter (LibQdeviceSetExtraInfo c v info) s =
     Inr (message_handler_req_lib_votequorum_qdevice_set_extra_info c v info s)"
| "vq_react iter (LibQdeviceGetExtraInfo c n) s =
     Inr (message_handler_req_lib_votequorum_qdevice_get_extra_info c n s)"

text \<open>What the engine guarantees of an event: this node is a member of every membership it is told.\<close>

fun vq_expected_event :: "vq_event \<Rightarrow> vq_state \<Rightarrow> bool" where
  "vq_expected_event (SyncInit members ring) s \<longleftrightarrow> node_id (us_node s) \<in> set members"
| "vq_expected_event _ s \<longleftrightarrow> True"

inductive vq_step :: "icmap_iter \<Rightarrow> vq_event \<Rightarrow> vq_state \<Rightarrow> vq_state \<Rightarrow> bool" where
  step: "vq_expected_event ev s \<Longrightarrow> vq_react iter ev s = Inr s' \<Longrightarrow> vq_step iter ev s s'"

inductive vq_run :: "icmap_iter \<Rightarrow> vq_event list \<Rightarrow> vq_state \<Rightarrow> vq_state \<Rightarrow> bool" for iter where
  stop: "vq_run iter [] s s"
| more: "vq_step iter ev s s1 \<Longrightarrow> vq_run iter evs s1 s2 \<Longrightarrow> vq_run iter (ev # evs) s s2"

inductive_cases vq_stepE: "vq_step iter ev s s'"
inductive_cases vq_runE: "vq_run iter (ev # evs) s s'"

code_pred vq_run .

lemma vq_inv_step:
  assumes "vq_inv s" "vq_step iter ev s s'"
  shows "vq_inv s'"
proof -
  have r: "vq_react iter ev s = Inr s'" and e: "vq_expected_event ev s"
    using assms(2) by (auto elim: vq_stepE)
  note frames = frame_sync(1-3) frame_refresh_config frame_lib_qdevice
  note all = frame_sync(4) frame_lib
  show ?thesis
    using r e assms(1)
    by (cases ev) (auto simp: votequorum_sync_abort_def quorum_lib_init_fn_def bindE_eq_Inr
        vq_inv_trackstart vq_inv_trackstop
        intro: vq_inv_exec vq_inv_sync_init vq_inv_frame [OF all(1)] vq_inv_frame [OF all(2)]
          vq_inv_frame [OF all(3)] vq_inv_frame [OF all(4)] vq_inv_frame [OF all(5)]
          vq_inv_frame [OF all(6)] vq_inv_frame [OF all(7)] vq_inv_frame [OF all(8)]
          dest!: frames [THEN vq_inv_frame])
qed

lemma vq_inv_run: "vq_run iter evs s s' \<Longrightarrow> vq_inv s \<Longrightarrow> vq_inv s'"
  by (induction rule: vq_run.induct) (auto dest: vq_inv_step)

lemma vq_inv_start:
  assumes fresh: "cluster_nodes_entries s = 0" "totem_nodeid_get (corosync_api s) \<noteq> VOTEQUORUM_QDEVICE_NODEID"
    and init: "votequorum_exec_init_fn iter s = Inr (None, s')"
  shows "vq_inv s'"
proof -
  obtain s1 where s1: "exec_init_nodes s = Inr (None, s1)" "vq_inv s1"
    using exec_init_nodes_ok [OF fresh] by blast
  obtain s2 s3 where "votequorum_readconfig iter False s1 = Inr (None, s2)"
    and s3: "recalculate_quorum False False s2 = Inr s3"
    and s': "s' = snd (votequorum_exec_send_nodeinfo
        (node_id (us_node (votequorum_exec_add_config_notification (votequorum_set_icmap_ro_keys s3))))
        (votequorum_exec_add_config_notification (votequorum_set_icmap_ro_keys s3)))"
    using init s1(1) by (auto simp: votequorum_exec_init_fn_def bindE_eq_Inr Let_def split: option.splits)
  then have "vq_frame s3 = vq_frame s1"
    using frame_recalculate [OF s3] frame_readconfig by simp
  moreover have "vq_frame s' = vq_frame s3"
    by (simp add: s' votequorum_exec_add_config_notification_def votequorum_set_icmap_ro_keys_def)
  ultimately show ?thesis using s1(2) vq_inv_frame by metis
qed

section \<open>Wait for all along a run\<close>

definition vq_wfa :: "vq_state \<Rightarrow> u8 \<times> u8 \<times> u8" where
  "vq_wfa s = (wait_for_all s, wait_for_all_status s, cluster_is_quorate s)"

lemma wfa_inv_cong: "vq_wfa s' = vq_wfa s \<Longrightarrow> wfa_inv s' = wfa_inv s"
  by (simp add: vq_wfa_def wfa_inv_def)

lemma wfa_basic [simp]:
  "vq_wfa (node_upd i f s) = vq_wfa s" "vq_wfa (us_upd f s) = vq_wfa s" "vq_wfa (us_flags_upd g s) = vq_wfa s"
  "vq_wfa (emit e s) = vq_wfa s" "vq_wfa (icmap_set_uint8 k v s) = vq_wfa s"
  "vq_wfa (icmap_set_uint32 k w s) = vq_wfa s" "vq_wfa (notify c x m s) = vq_wfa s"
  "vq_wfa (votequorum_exec_send_quorum_notification c x s) = vq_wfa s"
  "vq_wfa (votequorum_exec_send_nodelist_notification c x s) = vq_wfa s"
  "vq_wfa (votequorum_exec_send_expectedvotes_notification s) = vq_wfa s"
  "vq_wfa (update_ev_barrier w s) = vq_wfa s" "vq_wfa (update_qdevice_master_wins v s) = vq_wfa s"
  "vq_wfa (snd (mcast m' s)) = vq_wfa s" "vq_wfa (respond c' er s) = vq_wfa s"
  "vq_wfa (pd_upd c' pf s) = vq_wfa s"
  "vq_wfa (nodeinfo_check_lms i s) = vq_wfa s" "vq_wfa (update_node_expected_votes w s) = vq_wfa s"
  by (simp_all add: vq_wfa_def vq_upd mcast_def respond_def pd_upd_def nodeinfo_check_lms_def)

lemma wfa_sends [simp]:
  "vq_wfa (snd (votequorum_exec_send_nodeinfo nodeid s)) = vq_wfa s"
  "vq_wfa (snd (votequorum_exec_send_reconfigure p nodeid v s)) = vq_wfa s"
  "vq_wfa (votequorum_exec_send_set_qdevice_extra_info nodeid s) = vq_wfa s"
  "vq_wfa (votequorum_exec_send_qdevice_extra_info_notification nodeid s) = vq_wfa s"
  "vq_wfa (votequorum_exec_send_all_qdevice_extra_info_notification c x s) = vq_wfa s"
proof -
  have "vq_wfa (fold (\<lambda>node s. if has_flag (flags node) NODE_FLAGS_QDEVICE_EXTRA_INFO_SET
      then emit (IpcDispatch c (fill_extra_info_notification node x)) s else s) ns s) = vq_wfa s" for ns
    by (induction ns arbitrary: s) simp_all
  then show "vq_wfa (votequorum_exec_send_all_qdevice_extra_info_notification c x s) = vq_wfa s"
    by (simp add: votequorum_exec_send_all_qdevice_extra_info_notification_def)
qed (simp_all add: votequorum_exec_send_nodeinfo_def votequorum_exec_send_reconfigure_def
      votequorum_exec_send_set_qdevice_extra_info_def
      votequorum_exec_send_qdevice_extra_info_notification_def Let_def split: option.splits)

lemma wfa_send_names:
  "votequorum_exec_send_qdevice_reg op name s = Inr (r, s') \<Longrightarrow> vq_wfa s' = vq_wfa s"
  "votequorum_exec_send_qdevice_reconfigure old new s = Inr (r, s') \<Longrightarrow> vq_wfa s' = vq_wfa s"
  by (auto simp: votequorum_exec_send_qdevice_reg_def votequorum_exec_send_qdevice_reconfigure_def
      bindE_eq_Inr mcast_def)

lemma wfa_inv_recalculate: "wfa_inv s \<Longrightarrow> recalculate_quorum d b s = Inr s' \<Longrightarrow> wfa_inv s'"
  using recalculate_quorum_wfa [of s d b] by auto

lemma wfa_inv_update: "wfa_inv s \<Longrightarrow> wfa_inv (update_wait_for_all_status 0 s)"
  by (simp add: wfa_inv_def)

lemma wfa_allocate: "allocate_node nodeid s = Inr (r, s') \<Longrightarrow> vq_wfa s' = vq_wfa s"
  by (auto simp: allocate_node_def node_start_def node_add_ordered_def vq_wfa_def node_upd_def Let_def
      split: if_splits option.splits)

lemma wfa_nodeinfo_update: "nodeinfo_update_node m i s = (d, b, s') \<Longrightarrow> vq_wfa s' = vq_wfa s"
  by (auto simp: nodeinfo_update_node_def Let_def if_distrib [of vq_wfa] split: if_splits)

lemma wfa_inv_nodeinfo:
  assumes inv: "wfa_inv s" and res: "message_handler_req_exec_votequorum_nodeinfo m sender s = Inr s'"
  shows "wfa_inv s'"
proof -
  obtain node s1 where n: "(case find_node_by_nodeid (ni_nodeid m) s of
      Some i \<Rightarrow> Inr (Some i, s) | None \<Rightarrow> allocate_node (ni_nodeid m) s) = Inr (node, s1)"
    using res by (auto simp: message_handler_req_exec_votequorum_nodeinfo_def Let_def bindE_eq_Inr)
  then have inv1: "wfa_inv s1"
    using inv wfa_inv_cong [OF wfa_allocate] by (auto split: option.splits)
  show ?thesis
  proof (cases node)
    case None
    then show ?thesis using res n inv1 wfa_inv_cong [OF wfa_basic(4)]
      by (auto simp: message_handler_req_exec_votequorum_nodeinfo_def Let_def bindE_eq_Inr)
  next
    case (Some i)
    obtain s2 s3 d b where
      s2: "(if ni_nodeid m = VOTEQUORUM_QDEVICE_NODEID
            then case find_node_by_nodeid sender s1 of
                   None \<Rightarrow> Inl AssertFailed
                 | Some j \<Rightarrow> Inr (False, False,
                     if cluster_is_quorate s1 = 0 \<and> has_flag (flags (node_at s1 j)) NODE_FLAGS_QUORATE
                     then node_upd i (\<lambda>n. n\<lparr>votes := ni_votes m\<rparr>) s1
                     else node_upd i (\<lambda>n. n\<lparr>votes := c_max (votes n) (ni_votes m)\<rparr>) s1)
            else Inr (nodeinfo_update_node m i s1)) = Inr (d, b, s2)"
      and s3: "recalculate_quorum d b s2 = Inr s3 \<or> s3 = s2"
      and s': "s' = s3 \<or> s' = update_wait_for_all_status 0 s3"
      using res n Some unfolding message_handler_req_exec_votequorum_nodeinfo_def Let_def
      by (auto simp: bindE_eq_Inr split: if_splits)
    have "vq_wfa s2 = vq_wfa s1"
      using s2 wfa_nodeinfo_update by (auto split: if_splits option.splits)
    then have "wfa_inv s3" using inv1 s3 wfa_inv_recalculate wfa_inv_cong by blast
    then show ?thesis using s' wfa_inv_update by auto
  qed
qed

lemma wfa_inv_reconfigure:
  assumes inv: "wfa_inv s" and res: "message_handler_req_exec_votequorum_reconfigure m nodeid s = Inr s'"
  shows "wfa_inv s'"
proof -
  define s3 where "s3 = update_ev_barrier (rc_value m) (votequorum_exec_send_expectedvotes_notification
    (update_node_expected_votes (rc_value m) s))"
  have pre: "wfa_inv s3" "wfa_inv (us_upd f s3)" "wfa_inv (node_upd i g s)" "wfa_inv (update_wait_for_all_status 0 s)"
    for f g i
    using inv wfa_inv_cong [of s3 s] wfa_inv_cong [of "us_upd f s3" s] wfa_inv_cong [of "node_upd i g s" s]
    by (simp_all add: s3_def wfa_inv_update)
  obtain t d b where "recalculate_quorum d b t = Inr s' \<or> s' = s" "wfa_inv t"
    using res pre(4) pre(1-3) unfolding message_handler_req_exec_votequorum_reconfigure_def Let_def
      s3_def [symmetric]
    by (simp split: if_split_asm option.split_asm) blast+
  then show ?thesis using inv wfa_inv_recalculate by blast
qed

lemma wfa_qdevice_messages:
  "message_handler_req_exec_votequorum_qdevice_reconfigure m1 nodeid s = Inr s' \<Longrightarrow> vq_wfa s' = vq_wfa s"
  "message_handler_req_exec_votequorum_qdevice_reg m2 nodeid s = Inr s' \<Longrightarrow> vq_wfa s' = vq_wfa s"
  "vq_wfa (message_handler_req_exec_votequorum_qdevice_set_extra_info m3 nodeid s) = vq_wfa s"
proof -
  have name: "set_qdevice_name nm t = Inr t' \<Longrightarrow> vq_wfa t' = vq_wfa t" for nm t t'
    by (auto simp: set_qdevice_name_def vq_wfa_def split: if_splits)
  have fld: "vq_wfa (t\<lparr>qdevice_name := nm\<rparr>) = vq_wfa t" "vq_wfa (t\<lparr>qdevice_reg_conn := c\<rparr>) = vq_wfa t" for nm t c
    by (simp_all add: vq_wfa_def)
  show "message_handler_req_exec_votequorum_qdevice_reconfigure m1 nodeid s = Inr s' \<Longrightarrow> vq_wfa s' = vq_wfa s"
    "message_handler_req_exec_votequorum_qdevice_reg m2 nodeid s = Inr s' \<Longrightarrow> vq_wfa s' = vq_wfa s"
    "vq_wfa (message_handler_req_exec_votequorum_qdevice_set_extra_info m3 nodeid s) = vq_wfa s"
    by (auto simp: message_handler_req_exec_votequorum_qdevice_reconfigure_def
      message_handler_req_exec_votequorum_qdevice_reg_def bindE_eq_Inr Let_def case_prod_beta
      message_handler_req_exec_votequorum_qdevice_set_extra_info_def fld
      dest!: name split: if_splits option.splits)
qed

lemma wfa_inv_exec:
  assumes inv: "wfa_inv s" and res: "votequorum_exec_engine msg nodeid s = Inr s'"
  shows "wfa_inv s'"
proof (cases msg)
  case (ExecNodeinfo m)
  then show ?thesis using res wfa_inv_nodeinfo [OF inv] by (simp add: votequorum_exec_engine_def)
next
  case (ExecReconfigure m)
  then show ?thesis using res wfa_inv_reconfigure [OF inv] by (simp add: votequorum_exec_engine_def)
next
  case (ExecQdeviceReg m)
  then have "vq_wfa s' = vq_wfa s" using res wfa_qdevice_messages(2) by (simp add: votequorum_exec_engine_def)
  then show ?thesis using inv wfa_inv_cong by blast
next
  case (ExecQdeviceReconfigure m)
  then have "vq_wfa s' = vq_wfa s" using res wfa_qdevice_messages(1) by (simp add: votequorum_exec_engine_def)
  then show ?thesis using inv wfa_inv_cong by blast
next
  case (ExecQdeviceExtraNodeinfo m)
  then have "vq_wfa s' = vq_wfa s"
    using res wfa_qdevice_messages(3) by (auto simp: votequorum_exec_engine_def)
  then show ?thesis using inv wfa_inv_cong by blast
qed

lemma wfa_mark_left: "mark_left members ms (b, s) = (b', s') \<Longrightarrow> vq_wfa s' = vq_wfa s"
proof (induction ms arbitrary: b s)
  case (Cons m ms)
  then show ?case by (fastforce split: if_splits option.splits)
qed simp

lemma wfa_fields [simp]:
  "vq_wfa (s\<lparr>sync_in_progress := x1\<rparr>) = vq_wfa s" "vq_wfa (s\<lparr>sync_nodeinfo_sent := x1\<rparr>) = vq_wfa s"
  "vq_wfa (s\<lparr>sync_wait_for_poll_or_timeout := x1\<rparr>) = vq_wfa s"
  "vq_wfa (s\<lparr>qdevice_timer_set := x1\<rparr>) = vq_wfa s"
  "vq_wfa (s\<lparr>last_man_standing_timer_set := x1\<rparr>) = vq_wfa s"
  "vq_wfa (s\<lparr>quorum_ringid := x2\<rparr>) = vq_wfa s" "vq_wfa (s\<lparr>quorum_members := x3\<rparr>) = vq_wfa s"
  "vq_wfa (s\<lparr>previous_quorum_members := x3\<rparr>) = vq_wfa s" "vq_wfa (s\<lparr>trackers_list := x4\<rparr>) = vq_wfa s"
  "vq_wfa (s\<lparr>qdevice_reg_conn := x5\<rparr>) = vq_wfa s" "vq_wfa (s\<lparr>quorum_pds := x6\<rparr>) = vq_wfa s"
  by (simp_all add: vq_wfa_def)

lemma wfa_sync_timers [simp]:
  "vq_wfa (sync_lms_timer members left_nodes s) = vq_wfa s" "vq_wfa (sync_qdevice_timer s) = vq_wfa s"
  by (simp_all add: sync_lms_timer_def sync_qdevice_timer_def Let_def)

lemma wfa_sync_init:
  assumes "votequorum_sync_init members ring s = Inr s'"
  shows "vq_wfa s' = vq_wfa s"
proof -
  define s2 where "s2 = (let s1 = s\<lparr>sync_in_progress := True, sync_nodeinfo_sent := False,
                 sync_wait_for_poll_or_timeout := False\<rparr>
      in if length members > 1 then us_flags_upd (clear_flag NODE_FLAGS_FIRST) s1 else s1)"
  obtain b s3 where s3: "mark_left members (quorum_members s2) (False, s2) = (b, s3)" by fastforce
  have "vq_wfa s2 = vq_wfa s" by (simp add: s2_def Let_def)
  moreover have "vq_wfa s' = vq_wfa s3"
    using assms s3 unfolding votequorum_sync_init_def s2_def Let_def by (auto split: if_splits)
  ultimately show ?thesis using wfa_mark_left [OF s3] by simp
qed

lemma wfa_inv_activate:
  assumes "wfa_inv s" "votequorum_sync_activate s = Inr s'"
  shows "wfa_inv s'"
proof -
  obtain s1 where "recalculate_quorum False False s = Inr s1" "vq_wfa s' = vq_wfa s1"
    using assms(2) by (auto simp: votequorum_sync_activate_def bindE_eq_Inr Let_def)
  then show ?thesis using wfa_inv_recalculate assms(1) wfa_inv_cong by blast
qed

lemma wfa_timers:
  "votequorum_sync_process s = Inr (r, s') \<Longrightarrow> vq_wfa s' = vq_wfa s"
  "vq_wfa (qdevice_timer_fn s) = vq_wfa s"
  by (auto simp: votequorum_sync_process_def qdevice_timer_fn_def bindE_eq_Inr Let_def
      dest!: wfa_send_names split: if_splits)

lemma wfa_inv_lms_timer:
  assumes "wfa_inv s" "votequorum_last_man_standing_timer_fn s = Inr s'"
  shows "wfa_inv s'"
  using assms wfa_inv_recalculate [of "s\<lparr>last_man_standing_timer_set := False\<rparr>"] wfa_inv_cong [OF wfa_fields(5)]
  by (auto simp: votequorum_last_man_standing_timer_fn_def Let_def split: if_splits)

end
