(* ===== verification/Vq_Safety.thy ===== *)
theory Vq_Safety
  imports Vq_Majority
begin

text \<open>
  The properties of the quorum calculation of \<^verbatim>\<open>exec/votequorum.c\<close>: safety of partitions, the
  majority rule, wait-for-all, and the limits of the calculation.
\<close>

section \<open>Partitions\<close>



text \<open>(C2) The tie breaker never makes two halves quorate: when every node has one vote and two
disjoint partitions come out of the same membership with the same expectation, the same rule and the
same record of the lowest and the highest node, at most one of them is quorate, for each of the
rules \<open>lowest\<close>, \<open>highest\<close> and list of nodes.\<close>

theorem atb_no_split_brain:
  assumes "vq_view (\<lambda>_. 1) E s1" "vq_view (\<lambda>_. 1) E s2" "atb_view P E s1" "atb_view P E s2"
    and "distinct P" "length P \<le> E" "member_ids s1 \<inter> member_ids s2 = {}"
    and "auto_tie_breaker s1 = auto_tie_breaker s2" "lowest_node_id s1 = lowest_node_id s2"
      "highest_node_id s1 = highest_node_id s2" "atb_nodelist s1 = atb_nodelist s2"
    and "recalculate_quorum d1 False s1 = Inr s1'" "recalculate_quorum d2 False s2 = Inr s2'"
  shows "\<not> (cluster_is_quorate s1' \<noteq> 0 \<and> cluster_is_quorate s2' \<noteq> 0)"
proof
  assume q: "cluster_is_quorate s1' \<noteq> 0 \<and> cluster_is_quorate s2' \<noteq> 0"
  let ?Q = "Suc (E div 2)"
  have sub: "card (member_ids s1 \<union> member_ids s2) \<le> E"
    using card_mono [of "set P" "member_ids s1 \<union> member_ids s2"] card_length [of P] assms(3,4,6)
    by (simp add: atb_view_def)
  then have sum: "card (member_ids s1) + card (member_ids s2) \<le> E"
    using assms(7) by (simp add: card_Un_disjoint)
  have granted: "?Q \<le> card (member_ids s) \<or> check_auto_tie_breaker s \<and>
      int (length (previous_quorum_members s)) - int (length (quorum_members s)) < int ?Q"
    if "vq_view (\<lambda>_. 1) E s" "atb_view P E s" "card (member_ids s) \<le> E"
      "recalculate_quorum d False s = Inr s'" "cluster_is_quorate s' \<noteq> 0" for s s' d
    using vq_view_granted [OF that(1) _ that(4,5)] that(2,3) by (fastforce simp: atb_view_def)
  have g1: "?Q \<le> card (member_ids s1) \<or> check_auto_tie_breaker s1 \<and>
      int (length (previous_quorum_members s1)) - int (length (quorum_members s1)) < int ?Q"
    using granted [OF assms(1,3) _ assms(12)] q sum by simp
  have g2: "?Q \<le> card (member_ids s2) \<or> check_auto_tie_breaker s2 \<and>
      int (length (previous_quorum_members s2)) - int (length (quorum_members s2)) < int ?Q"
    using granted [OF assms(2,4) _ assms(13)] q sum by simp
  have "\<not> (?Q \<le> card (member_ids s1) \<and> ?Q \<le> card (member_ids s2))" using sum by linarith
  moreover have "member_ids s2 \<inter> member_ids s1 = {}" using assms(7) by blast
  ultimately show False
    using g1 g2 atb_exclusive [OF assms(3,4,7-11)] atb_vs_votes [OF assms(3,4,7,5)]
      atb_vs_votes [OF assms(4,3) _ assms(5)] by blast
qed

definition demo_half :: "(u32 \<times> u32) list \<Rightarrow> vq_state" where
  "demo_half ms = (demo_state ms 4)\<lparr>auto_tie_breaker := ATB_LOWEST, lowest_node_id := 1, highest_node_id := 4,
     previous_quorum_members := [1, 2, 3, 4]\<rparr>"

lemma demo_half_eqs [simp]:
  "listed (demo_half ms) = listed (demo_state ms 4)" "us_node (demo_half ms) = us_node (demo_state ms 4)"
  "qdevice_node (demo_half ms) = qdevice_node (demo_state ms 4)"
  "member_nodes (demo_half ms) = member_nodes (demo_state ms 4)"
  "member_ids (demo_half ms) = member_ids (demo_state ms 4)"
  "vq_db_inv (demo_half ms) = vq_db_inv (demo_state ms 4)"
proof -
  have "node_at (demo_half ms) = node_at (demo_state ms 4)"
    by (simp add: node_at_def demo_half_def fun_eq_iff)
  moreover have "cluster_members_list (demo_half ms) = cluster_members_list (demo_state ms 4)"
    "us (demo_half ms) = us (demo_state ms 4)" "qdevice (demo_half ms) = qdevice (demo_state ms 4)"
    "cluster_nodes (demo_half ms) = cluster_nodes (demo_state ms 4)"
    "cluster_nodes_entries (demo_half ms) = cluster_nodes_entries (demo_state ms 4)"
    by (simp_all add: demo_half_def)
  ultimately show l: "listed (demo_half ms) = listed (demo_state ms 4)"
    and "us_node (demo_half ms) = us_node (demo_state ms 4)"
    and "qdevice_node (demo_half ms) = qdevice_node (demo_state ms 4)"
    and "vq_db_inv (demo_half ms) = vq_db_inv (demo_state ms 4)"
    by (simp_all add: listed_def us_node_def qdevice_node_def vq_db_inv_def)
  then show "member_nodes (demo_half ms) = member_nodes (demo_state ms 4)"
    "member_ids (demo_half ms) = member_ids (demo_state ms 4)"
    by (simp_all add: member_nodes_def member_ids_def)
qed

lemma demo_half_view:
  assumes "vq_view v E (demo_state ms 4)"
  shows "vq_view v E (demo_half ms)"
  using assms by (simp add: vq_view_def) (simp add: demo_half_def)

theorem atb_no_split_brain_witness:
  "\<exists>s1' s2'. recalculate_quorum False False (demo_half [(1, 1), (2, 1)]) = Inr s1' \<and>
     recalculate_quorum False False (demo_half [(3, 1), (4, 1)]) = Inr s2' \<and>
     \<not> (cluster_is_quorate s1' \<noteq> 0 \<and> cluster_is_quorate s2' \<noteq> 0)"
proof -
  let ?s1 = "demo_half [(1, 1), (2, 1)]" and ?s2 = "demo_half [(3, 1), (4, 1)]"
  have "wfa_inv ?s1" "wfa_inv ?s2" by (simp_all add: wfa_inv_def demo_half_def)
  then obtain s1' s2' where r: "recalculate_quorum False False ?s1 = Inr s1'"
    "recalculate_quorum False False ?s2 = Inr s2'"
    using recalculate_quorum_wfa by blast
  have v: "vq_view (\<lambda>_. 1) 4 ?s1" "vq_view (\<lambda>_. 1) 4 ?s2"
    by (rule demo_half_view, rule demo_view; simp add: PROCESSOR_COUNT_MAX_def)+
  have a: "atb_view [1, 2, 3, 4] 4 ?s1" "atb_view [1, 2, 3, 4] 4 ?s2"
    by (simp_all add: atb_view_def demo_ids demo_members demo_node_def) (simp_all add: demo_half_def)
  have "auto_tie_breaker ?s1 = auto_tie_breaker ?s2" "lowest_node_id ?s1 = lowest_node_id ?s2"
    "highest_node_id ?s1 = highest_node_id ?s2" "atb_nodelist ?s1 = atb_nodelist ?s2"
    by (simp_all add: demo_half_def)
  from atb_no_split_brain [OF v a _ _ _ this r] show ?thesis
    using r by (simp add: demo_ids)
qed

section \<open>The quorum\<close>



section \<open>Wait for all\<close>

text \<open>(C15) With wait-for-all, recalculating the quorum never trips the assertion of
\<open>are_we_quorate\<close>, keeps the node inquorate as long as it waits, and ends the wait with a quorate
node only when the votes present are exactly the expected votes.\<close>

theorem recalculate_quorum_waits_for_all:
  assumes "wfa_inv s"
  shows "\<exists>s'. recalculate_quorum d b s = Inr s' \<and> wfa_inv s' \<and>
    (wait_for_all s \<noteq> 0 \<and> wait_for_all_status s \<noteq> 0 \<and> cluster_is_quorate s' \<noteq> 0 \<longrightarrow>
       vq_total_votes (vq_raise s) =
         expected_votes (us_node (update_node_expected_votes (if b then snd (get_total_votes s) else 0) (vq_raise s))))"
proof -
  let ?m = "if b then snd (get_total_votes s) else 0"
  obtain s' where s': "recalculate_quorum d b s = Inr s'" "wfa_inv s'"
    using recalculate_quorum_wfa [OF assms] by blast
  obtain q t where qt: "calculate_quorum d ?m (vq_raise s) = (q, t)" by fastforce
  then have t: "t = vq_total_votes (vq_raise s)" by (simp add: calculate_quorum_eq)
  let ?s = "update_node_expected_votes ?m ((vq_raise s)\<lparr>quorum := ucast q\<rparr>)"
  have are: "are_we_quorate t ?s = Inr s'"
    using s'(1) qt by (simp add: recalculate_quorum_eq Let_def)
  have "us_node ?s = us_node (update_node_expected_votes ?m (vq_raise s))"
    by (simp add: us_node_def node_at_update_expected) (simp add: node_at_def)
  then show ?thesis using s' t are_we_quorate_waiting [OF _ _ are] by fastforce
qed

theorem recalculate_quorum_waits_for_all_witness:
  "\<exists>s'. recalculate_quorum False False ((demo_state [(1, 1)] 3)\<lparr>wait_for_all := 1, wait_for_all_status := 1\<rparr>)
     = Inr s' \<and> wfa_inv s'"
  using recalculate_quorum_waits_for_all [of "(demo_state [(1, 1)] 3)\<lparr>wait_for_all := 1, wait_for_all_status := 1\<rparr>"
      False False]
  by (auto simp: wfa_inv_def)

section \<open>Limits\<close>

lemma are_we_quorate_iff:
  assumes "wait_for_all s = 0"
  shows "\<exists>s'. are_we_quorate t s = Inr s' \<and>
    (cluster_is_quorate s' \<noteq> 0 \<longleftrightarrow> ucast (quorum s) \<le> t \<or> quorate_by_atb t s \<or>
       qdevice_master_wins s \<noteq> 0 \<and> check_qdevice_master s)"
  using assms
  by (auto simp: are_we_quorate_def quorate_decide_def quorate_by_atb_def quorate_finish_fields not_le)

lemma recalculate_quorum_iff:
  assumes "wait_for_all s = 0" "calculate_quorum d 0 (vq_raise s) = (q, t)"
  shows "\<exists>s'. recalculate_quorum d False s = Inr s' \<and>
    (cluster_is_quorate s' \<noteq> 0 \<longleftrightarrow> ucast (ucast q :: u8) \<le> t \<or> quorate_by_atb t ((vq_raise s)\<lparr>quorum := ucast q\<rparr>) \<or>
       qdevice_master_wins s \<noteq> 0 \<and> check_qdevice_master ((vq_raise s)\<lparr>quorum := ucast q\<rparr>))"
  using are_we_quorate_iff [of "(vq_raise s)\<lparr>quorum := ucast q\<rparr>" t] assms
  by (simp add: recalculate_quorum_eq update_node_expected_votes_def)

lemma demo_raise:
  assumes "ms \<noteq> []" "sum_list (map snd ms) \<le> E"
  shows "vq_raise (demo_state ms E) = demo_state ms E"
proof -
  have "fst (get_total_votes (demo_state ms E)) = sum_list (map snd ms)"
    using assms(1) by (simp add: get_total_votes_eq demo_special demo_members demo_node_def node_zero_def comp_def)
  then show ?thesis using assms by (simp add: vq_raise_def demo_special demo_node_def not_less)
qed

lemma demo_calculate:
  assumes "ms \<noteq> []"
  shows "calculate_quorum d 0 (demo_state ms E) =
    (max ((E + 2) div 2) ((sum_list (map snd ms) + 2) div 2), sum_list (map snd ms))"
proof -
  have "insert 0 (expected_votes ` set (member_nodes (demo_state ms E))) = {0, E}"
    using assms by (simp add: demo_members demo_node_def image_image image_constant_conv)
  then have "Max (insert 0 (expected_votes ` set (member_nodes (demo_state ms E)))) = E"
    by simp
  then show ?thesis
    using assms by (simp add: calculate_quorum_eq vq_expectation_def vq_total_votes_def demo_special
        demo_node_def node_zero_def has_flag_def demo_members comp_def Let_def)
qed


definition demo_uneven :: "u32 \<times> u32 \<Rightarrow> vq_state" where
  "demo_uneven m = (demo_state [m] 5)\<lparr>auto_tie_breaker := ATB_LOWEST, lowest_node_id := 1,
     highest_node_id := 2, previous_quorum_members := [1, 2], quorum := 3\<rparr>"

text \<open>(C37) With uneven votes the tie breaker does split the cluster. Node 1 has two votes, node 2 has
three, five are expected and the lowest node breaks ties. Both come out of the membership of the two:
node 2 is quorate by its votes, node 1 by the tie breaker, because the guard against a quorate other
partition compares a number of nodes with a number of votes.\<close>

theorem atb_uneven_votes_split_brain:
  "\<exists>s1' s2'. recalculate_quorum False False (demo_uneven (1, 2)) = Inr s1' \<and>
     recalculate_quorum False False (demo_uneven (2, 3)) = Inr s2' \<and>
     cluster_is_quorate s1' \<noteq> 0 \<and> cluster_is_quorate s2' \<noteq> 0"
proof -
  have nodes: "us_node (demo_uneven m) = demo_node 5 m" "qdevice_node (demo_uneven m) = node_zero"
    "member_nodes (demo_uneven m) = [demo_node 5 m]" for m
  proof -
    have "node_at (demo_uneven m) = node_at (demo_state [m] 5)"
      by (simp add: node_at_def demo_uneven_def fun_eq_iff)
    then show "us_node (demo_uneven m) = demo_node 5 m" "qdevice_node (demo_uneven m) = node_zero"
      "member_nodes (demo_uneven m) = [demo_node 5 m]"
      using demo_special [of "[m]" 5] demo_members [of "[m]" 5]
      by (simp_all add: us_node_def qdevice_node_def member_nodes_def listed_def) (simp_all add: demo_uneven_def listed_def)
  qed
  have raise: "vq_raise (demo_uneven m) = demo_uneven m" if "snd m \<le> 5" for m
    using that by (simp add: vq_raise_def get_total_votes_eq nodes demo_node_def node_zero_def not_less)
      (simp add: demo_uneven_def)
  have "calculate_quorum False 0 (demo_uneven m) = (max 3 ((snd m + 2) div 2), snd m)" for m
    by (simp add: calculate_quorum_eq vq_expectation_def vq_total_votes_def nodes demo_node_def
        node_zero_def has_flag_def Let_def) (simp add: demo_uneven_def)
  then have calc: "calculate_quorum False 0 (vq_raise (demo_uneven (1, 2))) = (3, 2)"
    "calculate_quorum False 0 (vq_raise (demo_uneven (2, 3))) = (3, 3)"
    by (simp_all add: raise)
  have "wait_for_all (demo_uneven m) = 0" for m by (simp add: demo_uneven_def)
  note iff = recalculate_quorum_iff [OF this calc(1)] recalculate_quorum_iff [OF this calc(2)]
  have "quorate_by_atb 2 ((vq_raise (demo_uneven (1, 2)))\<lparr>quorum := 3\<rparr>)"
  proof -
    have "(vq_raise (demo_uneven (1, 2)))\<lparr>quorum := 3\<rparr> = demo_uneven (1, 2)"
      by (simp add: raise) (simp add: demo_uneven_def)
    then show ?thesis
      by (simp add: quorate_by_atb_def check_auto_tie_breaker_def lowest_in_partition member_ids_def
          nodes demo_node_def) (simp add: demo_uneven_def)
  qed
  then show ?thesis using iff by auto
qed


end
