(* ===== verification/Vq_Runs.thy ===== *)
theory Vq_Runs
  imports Vq_Steps Vq_Safety
begin

text \<open>
  Properties of the runs of the votequorum service, from its start through any sequence of messages,
  membership changes, timers, configuration changes and library requests.
\<close>

section \<open>Wait for all in the library requests\<close>

lemma wfa_lib:
  "vq_wfa (message_handler_req_lib_votequorum_getinfo c n s) = vq_wfa s"
  "vq_wfa (message_handler_req_lib_votequorum_setexpected c v s) = vq_wfa s"
  "vq_wfa (message_handler_req_lib_votequorum_setvotes c n v s) = vq_wfa s"
  "vq_wfa (message_handler_req_lib_votequorum_trackstart c x fl s) = vq_wfa s"
  "vq_wfa (message_handler_req_lib_votequorum_trackstop c s) = vq_wfa s"
  "vq_wfa (message_handler_req_lib_votequorum_qdevice_poll c name b ring s) = vq_wfa s"
  "vq_wfa (message_handler_req_lib_votequorum_qdevice_master_wins c name v s) = vq_wfa s"
  "vq_wfa (message_handler_req_lib_votequorum_qdevice_set_extra_info c v info s) = vq_wfa s"
  "vq_wfa (message_handler_req_lib_votequorum_qdevice_get_extra_info c n s) = vq_wfa s"
  "vq_wfa (quorum_lib_init_fn c s) = vq_wfa s" "vq_wfa (quorum_lib_exit_fn c s) = vq_wfa s"
  by (simp_all add: message_handler_req_lib_votequorum_getinfo_def
      message_handler_req_lib_votequorum_setexpected_def message_handler_req_lib_votequorum_setvotes_def
      message_handler_req_lib_votequorum_trackstart_def message_handler_req_lib_votequorum_trackstop_def
      message_handler_req_lib_votequorum_qdevice_poll_def
      message_handler_req_lib_votequorum_qdevice_master_wins_def
      message_handler_req_lib_votequorum_qdevice_set_extra_info_def
      message_handler_req_lib_votequorum_qdevice_get_extra_info_def
      quorum_lib_init_fn_def quorum_lib_exit_fn_def Let_def case_prod_beta split: option.splits)

lemma wfa_lib_qdevice:
  "message_handler_req_lib_votequorum_qdevice_register c name s = Inr s' \<Longrightarrow> vq_wfa s' = vq_wfa s"
  "message_handler_req_lib_votequorum_qdevice_unregister c name s = Inr s' \<Longrightarrow> vq_wfa s' = vq_wfa s"
  "message_handler_req_lib_votequorum_qdevice_update c old new s = Inr s' \<Longrightarrow> vq_wfa s' = vq_wfa s"
  by (auto simp: message_handler_req_lib_votequorum_qdevice_register_def
      message_handler_req_lib_votequorum_qdevice_unregister_def
      message_handler_req_lib_votequorum_qdevice_update_def bindE_eq_Inr Let_def
      dest!: wfa_send_names split: if_splits)

fun config_event :: "vq_event \<Rightarrow> bool" where
  "config_event (ConfigChanged key junk) \<longleftrightarrow> True"
| "config_event _ \<longleftrightarrow> False"

lemma wfa_inv_step:
  assumes inv: "wfa_inv s" and step: "vq_step iter ev s s'" and "\<not> config_event ev"
  shows "wfa_inv s'"
proof -
  have r: "vq_react iter ev s = Inr s'" using step by (auto elim: vq_stepE)
  consider (same) "vq_wfa s' = vq_wfa s" | (msg) msg n where "ev = ExecMessage msg n"
    | (activate) "ev = SyncActivate" | (timer) "ev = LmsTimerFires"
    using r assms(3)
    by (cases ev) (auto simp: bindE_eq_Inr votequorum_sync_abort_def wfa_lib wfa_timers(2)
        dest: wfa_timers(1) wfa_sync_init wfa_lib_qdevice)
  then show ?thesis
  proof cases
    case same
    then show ?thesis using inv wfa_inv_cong by blast
  next
    case msg
    then show ?thesis using r wfa_inv_exec [OF inv] by simp
  next
    case activate
    then show ?thesis using r wfa_inv_activate [OF inv] by simp
  next
    case timer
    then show ?thesis using r wfa_inv_lms_timer [OF inv] by simp
  qed
qed

lemma wfa_inv_run:
  "vq_run iter evs s s' \<Longrightarrow> wfa_inv s \<Longrightarrow> (\<forall>ev \<in> set evs. \<not> config_event ev) \<Longrightarrow> wfa_inv s'"
  by (induction rule: vq_run.induct) (auto dest: wfa_inv_step)

section \<open>Reading the configuration does not decide the quorum\<close>

named_theorems keeps_quorate \<open>operations that leave the decision alone\<close>

lemma quorate_basic [simp, keeps_quorate]:
  "cluster_is_quorate (node_upd i f s) = cluster_is_quorate s"
  "cluster_is_quorate (us_upd f s) = cluster_is_quorate s"
  "cluster_is_quorate (icmap_set_uint32 k w s) = cluster_is_quorate s"
  "cluster_is_quorate (icmap_set_uint8 k v s) = cluster_is_quorate s"
  "cluster_is_quorate (emit e s) = cluster_is_quorate s"
  "cluster_is_quorate (update_wait_for_all_status v s) = cluster_is_quorate s"
  "cluster_is_quorate (update_qdevice_can_operate v s) = cluster_is_quorate s"
  "cluster_is_quorate (update_two_node s) = cluster_is_quorate s"
  "cluster_is_quorate (update_ev_barrier w s) = cluster_is_quorate s"
  "cluster_is_quorate (update_ev_tracking_barrier w s) = cluster_is_quorate s"
  "cluster_is_quorate (set_atb_type s) = cluster_is_quorate s"
  "cluster_is_quorate (apply_our_votes hn nv ne ev s) = cluster_is_quorate s"
  "cluster_is_quorate (apply_qdevice_votes hq qv s) = cluster_is_quorate s"
  "cluster_is_quorate (apply_wait_for_all rt s) = cluster_is_quorate s"
  "cluster_is_quorate (readconfig_flags s) = cluster_is_quorate s"
  by (simp_all add: vq_upd set_atb_type_def apply_our_votes_def apply_qdevice_votes_def
      apply_wait_for_all_def readconfig_flags_def split: option.splits)

lemma quorate_parse_atb: "parse_atb_string str s = Inr s' \<Longrightarrow> cluster_is_quorate s' = cluster_is_quorate s"
  by (auto simp: parse_atb_string_def Let_def bindE_eq_Inr split: if_splits)

lemma quorate_features:
  assumes "readconfig_features s = Inr (ok, s')"
  shows "cluster_is_quorate s' = cluster_is_quorate s"
proof -
  obtain s1 where s1: "readconfig_atb (readconfig_flags s) = Inr s1" and s': "readconfig_tracking s1 = (ok, s')"
    using assms by (auto simp: readconfig_features_def bindE_eq_Inr)
  have "cluster_is_quorate s1 = cluster_is_quorate s"
    using s1 by (auto simp: readconfig_atb_def Let_def bindE_eq_Inr dest!: quorate_parse_atb
        split: if_splits option.splits)
  moreover have "cluster_is_quorate s' = cluster_is_quorate s1"
    using s' by (auto simp: readconfig_tracking_def load_ev_tracking_barrier_def Let_def
        split: if_splits prod.splits)
  ultimately show ?thesis by simp
qed

lemma cfg_incompatibleE:
  assumes "cfg_incompatible rt bad msg s k = Inr (e, s')"
  obtains "\<not> rt" "bad" "e = Some msg" "s' = s"
    | s1 where "s1 = s \<and> \<not> bad \<or> s1 = update_qdevice_can_operate 0 s \<and> rt" "k s1 = Inr (e, s')"
  using assms by (auto simp: cfg_incompatible_def split: if_splits)

lemma quorate_incompatible:
  assumes "cfg_incompatible rt bad msg s k = Inr (e, s')"
  obtains "cluster_is_quorate s' = cluster_is_quorate s"
    | s1 where "cluster_is_quorate s1 = cluster_is_quorate s" "k s1 = Inr (e, s')"
  using assms that(1) that(2) [of s] that(2) [of "update_qdevice_can_operate 0 s"]
  by (auto elim!: cfg_incompatibleE)

lemma quorate_apply:
  "readconfig_apply rt hn hq nv nc ne ce qv t = Inr (e, s') \<Longrightarrow> cluster_is_quorate s' = cluster_is_quorate t"
  by (auto simp: readconfig_apply_def Let_def)

lemma quorate_verify:
  assumes "readconfig_verify rt hn hq nv nc ne ce qv s = Inr (e, s')"
  shows "cluster_is_quorate s' = cluster_is_quorate s"
  using assms unfolding readconfig_verify_def Let_def
  by (auto split: if_splits elim!: quorate_incompatible dest!: quorate_apply)

lemma quorate_readconfig:
  assumes "votequorum_readconfig iter rt s = Inr (e, s')"
  shows "cluster_is_quorate s' = cluster_is_quorate s"
proof -
  have dev: "cluster_is_quorate t' = cluster_is_quorate t"
    if "votequorum_qdevice_is_configured qv t = (h, v, t')" for qv t h v t'
    using that by (auto simp: votequorum_qdevice_is_configured_def split: option.splits if_splits)
  show ?thesis
    using assms unfolding votequorum_readconfig_def Let_def
    by (auto simp: bindE_eq_Inr split: if_splits prod.splits dest!: quorate_verify quorate_features dev)
qed

section \<open>The start\<close>

lemma wfa_inv_start:
  assumes init: "votequorum_exec_init_fn iter s = Inr (None, s')"
    and fresh: "cluster_nodes_entries s = 0" "totem_nodeid_get (corosync_api s) \<noteq> VOTEQUORUM_QDEVICE_NODEID"
      "cluster_is_quorate s = 0"
  shows "wfa_inv s'"
proof -
  obtain s1 where s1: "exec_init_nodes s = Inr (None, s1)" "cluster_is_quorate s1 = cluster_is_quorate s"
    using exec_init_nodes_ok [OF fresh(1,2)] by blast
  obtain s2 s3 where s2: "votequorum_readconfig iter False s1 = Inr (None, s2)"
    and s3: "recalculate_quorum False False s2 = Inr s3"
    and s': "s' = snd (votequorum_exec_send_nodeinfo
        (node_id (us_node (votequorum_exec_add_config_notification (votequorum_set_icmap_ro_keys s3))))
        (votequorum_exec_add_config_notification (votequorum_set_icmap_ro_keys s3)))"
    using init s1(1) by (auto simp: votequorum_exec_init_fn_def bindE_eq_Inr Let_def split: option.splits)
  have "cluster_is_quorate s2 = 0" using quorate_readconfig [OF s2] s1(2) fresh(3) by simp
  then have "wfa_inv s3" using wfa_inv_recalculate [OF _ s3] by (simp add: wfa_inv_def)
  moreover have "vq_wfa s' = vq_wfa s3"
    by (simp add: s' votequorum_exec_add_config_notification_def votequorum_set_icmap_ro_keys_def)
  ultimately show ?thesis using wfa_inv_cong by blast
qed

text \<open>A configuration with nothing but the expected votes starts.\<close>

definition plain_map :: "u32 \<Rightarrow> (string \<rightharpoonup> icmap_value)" where
  "plain_map e = [''quorum.expected_votes'' \<mapsto> IC_U32 e]"

lemma plain_readconfig:
  assumes "icmap s = (plain_map e)(''runtime.votequorum.this_node_id'' \<mapsto> IC_U32 n)" "e \<noteq> 0"
    "two_node s = 0" "allow_downscale s = 0" "ev_tracking s = 0" "last_man_standing s = 0"
  shows "\<exists>s'. votequorum_readconfig iter False s = Inr (None, s')"
  using assms
  by (simp add: votequorum_readconfig_def votequorum_read_nodelist_configuration_def
      votequorum_qdevice_is_configured_def icmap_get_uint32_def icmap_get_uint8_def icmap_get_string_def
      get_u32_def get_u8_def plain_map_def readconfig_features_def readconfig_flags_def readconfig_atb_def
      readconfig_tracking_def readconfig_verify_def cfg_incompatible_def readconfig_apply_def Let_def)

lemma plain_start:
  assumes "totem_nodeid_get api \<noteq> VOTEQUORUM_QDEVICE_NODEID" "e \<noteq> 0"
  shows "\<exists>s'. votequorum_exec_init_fn iter (vq_static_init api (plain_map e) o1) = Inr (None, s')"
proof -
  let ?s = "vq_static_init api (plain_map e) o1"
  have "\<exists>s1. exec_init_nodes ?s = Inr (None, s1) \<and> cluster_is_quorate s1 = 0 \<and>
      icmap s1 = (plain_map e)(''runtime.votequorum.this_node_id'' \<mapsto> IC_U32 (totem_nodeid_get api)) \<and>
      two_node s1 = 0 \<and> allow_downscale s1 = 0 \<and> ev_tracking s1 = 0 \<and> last_man_standing s1 = 0"
    using assms(1)
    by (simp add: vq_static_init_def exec_init_nodes_def Let_def allocate_first node_start_def
        node_add_ordered_def PROCESSOR_COUNT_MAX_def vq_upd us_node_def node_at_def
        VOTEQUORUM_QDEVICE_NODEID_def node_zero_def)
  then obtain s1 where s1: "exec_init_nodes ?s = Inr (None, s1)" "cluster_is_quorate s1 = 0"
    "icmap s1 = (plain_map e)(''runtime.votequorum.this_node_id'' \<mapsto> IC_U32 (totem_nodeid_get api))"
    "two_node s1 = 0" "allow_downscale s1 = 0" "ev_tracking s1 = 0" "last_man_standing s1 = 0" by blast
  from plain_readconfig [OF s1(3) assms(2) s1(4-7)] obtain s2 where
    s2: "votequorum_readconfig iter False s1 = Inr (None, s2)" by blast
  have "wfa_inv s2" using quorate_readconfig [OF s2] s1(2) by (simp add: wfa_inv_def)
  then obtain s3 where "recalculate_quorum False False s2 = Inr s3" using recalculate_quorum_wfa by blast
  then show ?thesis using s1(1) s2 by (simp add: votequorum_exec_init_fn_def Let_def)
qed

lemma activate_returns: "wfa_inv s \<Longrightarrow> \<exists>s'. votequorum_sync_activate s = Inr s'"
  using recalculate_quorum_wfa [of s False False] by (auto simp: votequorum_sync_activate_def Let_def)

lemma lms_timer_returns: "wfa_inv s \<Longrightarrow> \<exists>s'. votequorum_last_man_standing_timer_fn s = Inr s'"
  using recalculate_quorum_wfa [of "s\<lparr>last_man_standing_timer_set := False\<rparr>" True True]
  by (auto simp: votequorum_last_man_standing_timer_fn_def Let_def wfa_inv_def)

lemma reconfigure_returns:
  assumes "wfa_inv s"
  shows "\<exists>s'. message_handler_req_exec_votequorum_reconfigure m nodeid s = Inr s'"
proof -
  have "wfa_inv t" if "vq_wfa t = vq_wfa s" for t using assms that wfa_inv_cong by blast
  then have "\<exists>s'. recalculate_quorum d b t = Inr s'" if "vq_wfa t = vq_wfa s" for d b t
    using that recalculate_quorum_wfa by blast
  then show ?thesis
    using recalculate_quorum_wfa [OF wfa_inv_update [OF assms], of False False]
    by (auto simp: message_handler_req_exec_votequorum_reconfigure_def Let_def split: option.splits)
qed

lemma demo_id: "totem_nodeid_get demo_api \<noteq> VOTEQUORUM_QDEVICE_NODEID"
  by (simp add: demo_api_def VOTEQUORUM_QDEVICE_NODEID_def)

lemma demo_run:
  "\<exists>s0 s. votequorum_exec_init_fn (\<lambda>_ _. []) (vq_static_init demo_api (plain_map 3) demo_os) = Inr (None, s0) \<and>
     vq_run (\<lambda>_ _. []) [SyncActivate] s0 s"
proof -
  have "\<exists>s0. votequorum_exec_init_fn (\<lambda>_ _. []) (vq_static_init demo_api (plain_map 3) demo_os) = Inr (None, s0)"
    by (rule plain_start [OF demo_id]) simp
  then obtain s0 where s0:
    "votequorum_exec_init_fn (\<lambda>_ _. []) (vq_static_init demo_api (plain_map 3) demo_os) = Inr (None, s0)" ..
  have "wfa_inv s0" by (rule wfa_inv_start [OF s0]) (simp_all add: vq_static_init_def demo_id)
  then obtain s where "votequorum_sync_activate s0 = Inr s" using activate_returns by blast
  then have "vq_run (\<lambda>_ _. []) [SyncActivate] s0 s" by (auto intro!: vq_run.intros vq_step.intros)
  then show ?thesis using s0 by blast
qed

section \<open>Properties\<close>

text \<open>(C16) Every state the service can reach is well-formed. After a successful start in a fresh process,
along any sequence of messages, membership changes, timers, configuration changes and library requests,
the node list holds this node and no node twice, the quorum device is outside it, and the list of
trackers holds exactly connections that track, none of them twice.\<close>

theorem vq_reachable_invariant:
  assumes "totem_nodeid_get api \<noteq> VOTEQUORUM_QDEVICE_NODEID"
    and "votequorum_exec_init_fn iter (vq_static_init api ic o1) = Inr (None, s0)"
    and "vq_run iter evs s0 s"
  shows "vq_inv s"
proof -
  have "vq_inv s0" by (rule vq_inv_start [OF _ _ assms(2)]) (simp_all add: vq_static_init_def assms(1))
  then show ?thesis using vq_inv_run [OF assms(3)] by blast
qed

theorem vq_reachable_invariant_witness:
  "\<exists>s0 s. votequorum_exec_init_fn (\<lambda>_ _. []) (vq_static_init demo_api (plain_map 3) demo_os) = Inr (None, s0) \<and>
     vq_run (\<lambda>_ _. []) [SyncActivate] s0 s \<and> vq_inv s"
  using demo_run vq_reachable_invariant [OF demo_id] by blast



end
