(* ===== verification/Vq_Behaviour.thy ===== *)
theory Vq_Behaviour
  imports Vq_Runs
begin

text \<open>
  Functional properties of the votequorum service: configuration, messages, membership changes and
  library requests.
\<close>

section \<open>The tie breaker string\<close>

definition spaced_ids :: "u32 list \<Rightarrow> string" where
  "spaced_ids ids = concat (map (\<lambda>i. CHR '' '' # dec_string (unat i)) ids)"

definition atb_print :: "u32 list \<Rightarrow> string" where
  "atb_print ids = tl (spaced_ids ids)"

lemma spaced_ids_simps:
  "spaced_ids [] = []" "spaced_ids (i # js) = CHR '' '' # dec_string (unat i) @ spaced_ids js"
  "no_digit_first (spaced_ids ids)"
  by (auto simp: spaced_ids_def no_digit_first_def c_isdigit_def split: list.splits) (cases ids; auto)

lemma c_int_nonzero:
  assumes "0 < x" "x < 2 ^ 32"
  shows "c_int x \<noteq> 0"
proof (cases "x < 2 ^ 31")
  case True
  then have "(x + 2 ^ 31) mod 2 ^ 32 = x + 2 ^ 31" using assms by (intro mod_pos_pos_trivial) simp_all
  then show ?thesis using assms by (simp add: c_int_def)
next
  case False
  have "(x + 2 ^ 31) mod 2 ^ 32 = (x - 2 ^ 31 + 2 ^ 32) mod 2 ^ 32" by (simp add: add.commute)
  also have "\<dots> = x - 2 ^ 31" using False assms by (simp only: mod_add_self2) (simp add: mod_pos_pos_trivial)
  finally show ?thesis using assms by (simp add: c_int_def)
qed

lemma strtol10_id:
  assumes "no_digit_first r"
  shows "strtol10 (dec_string (unat (i :: u32)) @ r) = (uint i, r)"
proof -
  have "uint i < 2 ^ 32" using uint_lt2p [of i] by simp
  then have "int (unat i) \<le> LONG_MAX" by (simp add: LONG_MAX_def)
  from strtol10_dec_string [OF assms this] show ?thesis by simp
qed

lemma strtol10_space: "strtol10 s = (x, r) \<Longrightarrow> x \<noteq> 0 \<Longrightarrow> strtol10 (CHR '' '' # s) = (x, r)"
  by (auto simp: strtol10_def Let_def c_isspace_def split: prod.splits if_splits)

lemma atb_scan_ids:
  assumes "0 \<notin> set ids" "length acc \<le> PROCESSOR_COUNT_MAX"
  shows "atb_scan (spaced_ids ids) acc =
    (if length acc + length ids \<le> PROCESSOR_COUNT_MAX then Inr (acc @ ids) else Inl OutOfBounds)"
  using assms
proof (induction ids arbitrary: acc)
  case Nil
  have "strtol10 [] = (0, [])" by (simp add: strtol10_def c_sign_def)
  then show ?case using Nil by (subst atb_scan.simps) (simp add: spaced_ids_simps)
next
  case (Cons i ids)
  then have "uint i \<noteq> 0" by (auto simp: uint_0_iff)
  then have scan: "strtol10 (spaced_ids (i # ids)) = (uint i, spaced_ids ids)"
    using strtol10_id [OF spaced_ids_simps(3)] strtol10_space by (simp add: spaced_ids_simps)
  show ?case
    using Cons.prems Cons.IH [of "acc @ [i]"] \<open>uint i \<noteq> 0\<close>
    by (subst atb_scan.simps) (simp add: scan)
qed

text \<open>(C29) A list of node ids in the configuration is read back as it was written: a space-separated list
of ids gives the tie breaker list with the same ids in the same order. A list of more than
\<open>PROCESSOR_COUNT_MAX\<close> ids overruns the array.\<close>

theorem parse_atb_string_list:
  assumes "ids \<noteq> []" "0 \<notin> set ids"
  shows "parse_atb_string (atb_print ids) s =
    (if length ids \<le> PROCESSOR_COUNT_MAX
     then Inr (set_atb_type (s\<lparr>atb_nodelist := ids, auto_tie_breaker := ATB_LIST\<rparr>))
     else Inl OutOfBounds)"
proof -
  obtain i js where ids: "ids = i # js" using assms(1) by (cases ids) auto
  define str where "str = dec_string (unat i) @ spaced_ids js"
  have str: "atb_print ids = str" by (simp add: atb_print_def ids spaced_ids_simps str_def)
  have i: "uint i \<noteq> 0" using assms(2) ids by (auto simp: uint_0_iff)
  have scan: "strtol10 str = (uint i, spaced_ids js)"
    unfolding str_def by (rule strtol10_id) (rule spaced_ids_simps)
  have "strtol10 (CHR '' '' # str) = strtol10 str" using strtol10_space [OF scan i] scan by simp
  then have "atb_scan str [] = atb_scan (spaced_ids ids) []"
    unfolding atb_scan.simps [of str] atb_scan.simps [of "spaced_ids ids"]
    by (simp add: ids spaced_ids_simps str_def)
  also have "\<dots> = (if length ids \<le> PROCESSOR_COUNT_MAX then Inr ids else Inl OutOfBounds)"
    using atb_scan_ids [OF assms(2), of "[]"] by simp
  finally have list: "atb_scan str [] = \<dots>" .
  have "0 < uint i" "uint i < 2 ^ 32" using i uint_lt2p [of i] by (simp_all add: order_less_le)
  then have "c_int (uint i) \<noteq> 0" by (rule c_int_nonzero)
  then have "atoi str \<noteq> 0" using scan by (simp add: atoi_def)
  moreover have "str \<noteq> ''highest''" "str \<noteq> ''lowest''"
  proof -
    have "fst (strtol10 ''highest'') = 0" "fst (strtol10 ''lowest'') = 0"
      by (simp_all add: strtol10_def c_sign_def c_isspace_def c_isdigit_def)
    then show "str \<noteq> ''highest''" "str \<noteq> ''lowest''" using scan i by auto
  qed
  ultimately show ?thesis
    by (simp add: str parse_atb_string_def Let_def list assms(1))
qed

theorem parse_atb_string_list_witness:
  "parse_atb_string (atb_print [3, 10, 1]) (demo_state [] 3) =
     Inr (set_atb_type ((demo_state [] 3)\<lparr>atb_nodelist := [3, 10, 1], auto_tie_breaker := ATB_LIST\<rparr>))"
  using parse_atb_string_list [of "[3, 10, 1]" "demo_state [] 3"] by (simp add: PROCESSOR_COUNT_MAX_def)

section \<open>The node list\<close>

definition node_key :: "u32 \<Rightarrow> string \<Rightarrow> string" where
  "node_key pos name = ''nodelist.node.'' @ dec_string (unat pos) @ CHR ''.'' # name"

definition node_keys :: "(u32 \<times> string list) list \<Rightarrow> string list" where
  "node_keys ns = concat (map (\<lambda>(pos, names). map (node_key pos) names) ns)"

abbreviation configured_votes :: "vq_state \<Rightarrow> u32 \<Rightarrow> u32" where
  "configured_votes s pos \<equiv> get_u32 (quorum_votes_key pos) 1 s"

lemma scan_node_key:
  assumes "dropWhile c_isspace name \<noteq> []"
  shows "scan_node_key (node_key pos name) = Some pos"
proof -
  have "unat pos < 2 ^ 64" using unat_u32_less [of pos] by simp
  then have "scan_u (dec_string (unat pos) @ CHR ''.'' # name) = Some (pos, CHR ''.'' # name)"
    using scan_u_dec_string [of "CHR ''.'' # name" "unat pos"] by (simp add: no_digit_first_def c_isdigit_def)
  then show ?thesis using assms by (simp add: scan_node_key_def node_key_def)
qed

lemma nodelist_loop_skip:
  assumes "\<forall>name \<in> set names. dropWhile c_isspace name \<noteq> []"
  shows "nodelist_loop our s (map (node_key pos) names @ ks) (pos, v, c, e) = nodelist_loop our s ks (pos, v, c, e)"
  using assms by (induction names) (simp_all add: scan_node_key)

lemma nodelist_loop_nodes:
  assumes "\<forall>(pos, names) \<in> set ns. names \<noteq> [] \<and> (\<forall>name \<in> set names. dropWhile c_isspace name \<noteq> [])"
    "distinct (map fst ns)" "p \<notin> fst ` set ns"
  shows "snd (nodelist_loop our s (node_keys ns) (p, v, c, e)) =
    (if our \<in> fst ` set ns then configured_votes s our else v, c + of_nat (length ns),
     e + sum_list (map (\<lambda>n. configured_votes s (fst n)) ns))"
  using assms
proof (induction ns arbitrary: p v c e)
  case Nil
  then show ?case by (simp add: node_keys_def)
next
  case (Cons n ns)
  obtain pos name names where n: "n = (pos, name # names)"
    using Cons.prems(1) by (cases n; cases "snd n") auto
  have names: "\<forall>nm \<in> set (name # names). dropWhile c_isspace nm \<noteq> []" and "p \<noteq> pos" and "pos \<notin> fst ` set ns"
    using Cons.prems n by auto
  then have "nodelist_loop our s (node_keys (n # ns)) (p, v, c, e) =
    nodelist_loop our s (node_keys ns)
      (pos, if pos = our then configured_votes s pos else v, c + 1, e + configured_votes s pos)"
    using nodelist_loop_skip [of names our s pos "node_keys ns"]
    by (simp add: n node_keys_def scan_node_key Let_def)
  then show ?case
    using Cons.IH [of pos] Cons.prems n \<open>pos \<notin> fst ` set ns\<close> by (auto simp: algebra_simps)
qed

text \<open>(C30) From a node list whose keys come grouped by node, the votes of this node, the number of nodes
and the expected votes are read correctly: the expectation is the sum of the votes of all nodes,
each of them once, and a node without a votes key has one vote.\<close>

theorem read_nodelist_sums_votes:
  assumes "icmap_get_uint32 ''nodelist.local_node_pos'' s = Some our"
    and "iter (icmap s) ''nodelist.node.'' = node_keys ns"
    and "\<forall>(pos, names) \<in> set ns. names \<noteq> [] \<and> (\<forall>name \<in> set names. dropWhile c_isspace name \<noteq> [])"
    and "distinct (map fst ns)" "- 1 \<notin> fst ` set ns" "our \<in> fst ` set ns"
  shows "votequorum_read_nodelist_configuration iter s out =
    (True, get_u32 (quorum_votes_key our) 1 s, of_nat (length ns),
     \<Sum>n\<leftarrow>ns. get_u32 (quorum_votes_key (fst n)) 1 s)"
  using nodelist_loop_nodes [OF assms(3-5), of our s "fst out" 0 0] assms(1,2,6)
  by (cases "nodelist_loop our s (node_keys ns) (- 1, fst out, 0, 0)")
     (simp add: votequorum_read_nodelist_configuration_def)

theorem read_nodelist_sums_votes_witness:
  "votequorum_read_nodelist_configuration (\<lambda>_ _. node_keys [(0, [''nodeid'', ''quorum_votes'']), (1, [''nodeid''])])
     (demo_state [] 3\<lparr>icmap := [''nodelist.local_node_pos'' \<mapsto> IC_U32 1,
        quorum_votes_key 0 \<mapsto> IC_U32 4]\<rparr>) (0, 0, 0) = (True, 1, 2, 5)"
  (is "votequorum_read_nodelist_configuration ?iter ?s _ = _")
proof -
  have keys: "quorum_votes_key 0 \<noteq> ''nodelist.local_node_pos''" "quorum_votes_key 1 \<noteq> ''nodelist.local_node_pos''"
    "quorum_votes_key 1 \<noteq> quorum_votes_key 0"
    by (simp_all add: quorum_votes_key_def dec_string.simps digit_char_def)
  then show ?thesis
    using read_nodelist_sums_votes [of ?s 1 ?iter "[(0, [''nodeid'', ''quorum_votes'']), (1, [''nodeid''])]" "(0, 0, 0)"]
    by (simp add: icmap_get_uint32_def get_u32_def c_isspace_def)
qed

section \<open>Features that exclude each other\<close>

definition vq_features :: "vq_state \<Rightarrow> u8 \<times> atb \<times> u8 \<times> u8 \<times> u8" where
  "vq_features s = (two_node s, auto_tie_breaker s, last_man_standing s, allow_downscale s, wait_for_all s)"

lemma features_basic [simp]:
  "vq_features (apply_our_votes hn nv ne ev s) = vq_features s"
  "vq_features (apply_qdevice_votes hq qv s) = vq_features s"
  "vq_features (apply_wait_for_all rt s) = vq_features s"
  "vq_features (update_two_node s) = vq_features s" "vq_features (update_ev_barrier w s) = vq_features s"
  by (simp_all add: vq_features_def vq_upd apply_our_votes_def apply_qdevice_votes_def apply_wait_for_all_def)

lemma readconfig_apply_features:
  "readconfig_apply rt hn hq nv nc ne ce qv s = Inr (e, s') \<Longrightarrow> vq_features s' = vq_features s"
  by (auto simp: readconfig_apply_def Let_def)

lemma cfg_incompatible_startup:
  "cfg_incompatible False bad msg s k = (if bad then Inr (Some msg, s) else k s)"
  by (simp add: cfg_incompatible_def)

lemma set_atb_type_fields [simp]:
  "two_node (set_atb_type s) = two_node s" "auto_tie_breaker (set_atb_type s) = auto_tie_breaker s"
  "last_man_standing (set_atb_type s) = last_man_standing s" "allow_downscale (set_atb_type s) = allow_downscale s"
  "wait_for_all (set_atb_type s) = wait_for_all s"
  by (simp_all add: set_atb_type_def vq_upd)

lemma readconfig_verify_startup:
  assumes "readconfig_verify False hn hq nv nc ne ce qv s = Inr (None, s')"
  shows "two_node s' = 0 \<or> auto_tie_breaker s' = ATB_NONE"
    and "auto_tie_breaker s' \<noteq> ATB_NONE \<Longrightarrow> ne mod 2 \<noteq> 0 \<Longrightarrow> wait_for_all s' \<noteq> 0"
    and "hq \<Longrightarrow> last_man_standing s' = 0 \<and> auto_tie_breaker s' = ATB_NONE \<and> allow_downscale s' = 0"
    and "two_node s = 0 \<Longrightarrow> two_node s' = 0"
proof -
  define s1 where "s1 = (if wait_for_all_autoset s \<noteq> 0 then s\<lparr>wait_for_all := two_node s\<rparr> else s)"
  define s2 where "s2 = (if two_node s1 \<noteq> 0 \<and> auto_tie_breaker s1 \<noteq> ATB_NONE then s1\<lparr>two_node := 0\<rparr> else s1)"
  define s3 where "s3 = (if auto_tie_breaker s2 \<noteq> ATB_NONE \<and> ne mod 2 \<noteq> 0 \<and> wait_for_all s2 = 0
                     then set_atb_type (s2\<lparr>auto_tie_breaker := ATB_NONE\<rparr>) else s2)"
  have "readconfig_apply False hn hq nv nc ne ce qv s3 = Inr (None, s') \<and> \<not> (hq \<and> last_man_standing s3 \<noteq> 0) \<and>
      \<not> (hq \<and> auto_tie_breaker s3 \<noteq> ATB_NONE) \<and> \<not> (hq \<and> allow_downscale s3 \<noteq> 0)"
    using assms unfolding readconfig_verify_def Let_def cfg_incompatible_startup
      s1_def [symmetric] s2_def [symmetric] s3_def [symmetric]
    by (simp split: if_split_asm)
  then have "vq_features s' = vq_features s3"
    "hq \<longrightarrow> last_man_standing s3 = 0 \<and> auto_tie_breaker s3 = ATB_NONE \<and> allow_downscale s3 = 0"
    using readconfig_apply_features by auto
  moreover have "two_node s3 = 0 \<or> auto_tie_breaker s3 = ATB_NONE" by (simp add: s3_def s2_def)
  moreover have "auto_tie_breaker s3 \<noteq> ATB_NONE \<longrightarrow> ne mod 2 \<noteq> 0 \<longrightarrow> wait_for_all s3 \<noteq> 0"
    by (simp add: s3_def)
  moreover have "two_node s = 0 \<longrightarrow> two_node s3 = 0" by (simp add: s3_def s2_def s1_def)
  ultimately show "two_node s' = 0 \<or> auto_tie_breaker s' = ATB_NONE"
    and "auto_tie_breaker s' \<noteq> ATB_NONE \<Longrightarrow> ne mod 2 \<noteq> 0 \<Longrightarrow> wait_for_all s' \<noteq> 0"
    and "hq \<Longrightarrow> last_man_standing s' = 0 \<and> auto_tie_breaker s' = ATB_NONE \<and> allow_downscale s' = 0"
    and "two_node s = 0 \<Longrightarrow> two_node s' = 0"
    by (auto simp: vq_features_def)
qed

lemma features_two_node:
  assumes "readconfig_features s = Inr (ok, s')"
  shows "two_node s' = two_node s"
proof -
  have parse: "two_node t' = two_node t" if "parse_atb_string str t = Inr t'" for str t t'
    using that by (auto simp: parse_atb_string_def Let_def bindE_eq_Inr split: if_splits)
  obtain s1 where s1: "readconfig_atb (readconfig_flags s) = Inr s1" and s': "readconfig_tracking s1 = (ok, s')"
    using assms by (auto simp: readconfig_features_def bindE_eq_Inr)
  have "two_node s1 = two_node s"
    using s1 by (auto simp: readconfig_atb_def readconfig_flags_def Let_def bindE_eq_Inr dest!: parse
        split: if_splits option.splits)
  moreover have "two_node s' = two_node s1"
    using s' by (auto simp: readconfig_tracking_def load_ev_tracking_barrier_def vq_upd Let_def
        split: if_splits prod.splits)
  ultimately show ?thesis by simp
qed

text \<open>(C31) A configuration that is accepted at start-up has no features that exclude each other: two-node
mode and the tie breaker are never both in force, and with a quorum device there is no two-node mode,
no last man standing, no tie breaker and no downscaling.\<close>

theorem startup_features_consistent:
  assumes "votequorum_readconfig iter False s = Inr (None, s')"
  shows "(two_node s' = 0 \<or> auto_tie_breaker s' = ATB_NONE) \<and>
    (icmap_get_string ''quorum.device.model'' s = Some model \<and> model \<noteq> [] \<longrightarrow>
      two_node s' = 0 \<and> last_man_standing s' = 0 \<and> auto_tie_breaker s' = ATB_NONE \<and> allow_downscale s' = 0)"
proof -
  obtain hn nv nc ne where nl: "votequorum_read_nodelist_configuration iter s (0, 0, 0) = (hn, nv, nc, ne)"
    by (cases "votequorum_read_nodelist_configuration iter s (0, 0, 0)") blast
  obtain hq qv s2 where qd: "votequorum_qdevice_is_configured 0 s = (hq, qv, s2)"
    by (cases "votequorum_qdevice_is_configured 0 s") blast
  define s3 where "s3 = s2\<lparr>two_node := get_u8 ''quorum.two_node'' (two_node s2) s2\<rparr>"
  have "\<not> (two_node s3 \<noteq> 0 \<and> hq)" and
    "bindE (readconfig_features s3) (\<lambda>(ok, s5).
       if \<not> ok then Inr (Some ''Unable to load ev_tracking file!'', s5)
       else readconfig_verify False hn hq nv nc ne (get_u32 ''quorum.expected_votes'' 0 s) qv s5) = Inr (None, s')"
    using assms unfolding votequorum_readconfig_def Let_def
    by (auto simp: nl qd s3_def split: if_split_asm)
  then obtain s5 where two: "\<not> (two_node s3 \<noteq> 0 \<and> hq)" and f: "readconfig_features s3 = Inr (True, s5)" and
    v: "readconfig_verify False hn hq nv nc ne (get_u32 ''quorum.expected_votes'' 0 s) qv s5 = Inr (None, s')"
    by (auto simp: bindE_eq_Inr split: if_split_asm)
  have "hq" if "icmap_get_string ''quorum.device.model'' s = Some model" "model \<noteq> []"
    using qd that by (auto simp: votequorum_qdevice_is_configured_def)
  then show ?thesis using readconfig_verify_startup [OF v] two features_two_node [OF f] by auto
qed

theorem startup_features_consistent_witness:
  "\<exists>s'. votequorum_readconfig (\<lambda>_ _. []) False (demo_state [(1, 1)] 3\<lparr>icmap := (plain_map 3)
       (''runtime.votequorum.this_node_id'' \<mapsto> IC_U32 1)\<rparr>) = Inr (None, s') \<and>
     (two_node s' = 0 \<or> auto_tie_breaker s' = ATB_NONE)"
proof -
  let ?s = "demo_state [(1, 1)] 3\<lparr>icmap := (plain_map 3)(''runtime.votequorum.this_node_id'' \<mapsto> IC_U32 1)\<rparr>"
  have "\<exists>s'. votequorum_readconfig (\<lambda>_ _. []) False ?s = Inr (None, s')"
    by (rule plain_readconfig [of _ 3 1]) (simp_all add: demo_state_def vq_static_init_def)
  then show ?thesis using startup_features_consistent by blast
qed

section \<open>The barrier on disk\<close>

lemma load_barrier_closed:
  "load_ev_tracking_barrier s = (0, s1) \<Longrightarrow> os_fds (os s1) (ev_tracking_fd s1) = None"
  by (auto simp: load_ev_tracking_barrier_def os_close_def Let_def split: if_splits prod.splits)



end
