(* ===== verification/Vq_Protocol.thy ===== *)
theory Vq_Protocol
  imports Vq_Runs
begin

text \<open>
  What the messages, membership changes and quorum device requests of the votequorum service do:
  the database holds what the nodes announced, departed nodes are marked, byte-order conversions are
  inverse to each other, polls count only for the current ring.
\<close>

section \<open>Recalculation leaves the announced data alone\<close>

text \<open>What a node announces of itself; the flags of this node are also changed by its own decisions.\<close>

definition announced :: "vq_state \<Rightarrow> nat \<Rightarrow> u32 \<times> nodestate \<times> u32 \<times> u32" where
  "announced s i = (node_id (node_at s i), state (node_at s i), votes (node_at s i),
     if i = us s then 0 else flags (node_at s i))"

lemma announced_same: "cluster_nodes t = cluster_nodes s \<Longrightarrow> us t = us s \<Longrightarrow> announced t i = announced s i"
  by (simp add: announced_def node_at_def)

lemma announced_basic [simp]:
  "announced (icmap_set_uint8 k v s) i = announced s i" "announced (emit e s) i = announced s i"
  "announced (notify c x m s) i = announced s i"
  "announced (votequorum_exec_send_quorum_notification c x s) i = announced s i"
  "announced (get_lowest_node_id s) i = announced s i" "announced (get_highest_node_id s) i = announced s i"
  "announced (s\<lparr>quorum := v\<rparr>) i = announced s i" "announced (s\<lparr>cluster_is_quorate := v\<rparr>) i = announced s i"
  "announced (s\<lparr>wait_for_all_status := v\<rparr>) i = announced s i"
  by (rule announced_same; simp add: vq_upd)+

lemma announced_flags [simp]: "announced (us_flags_upd g s) i = announced s i"
  by (simp add: announced_def us_flags_upd_flags) (simp add: vq_upd)

lemma announced_votes [simp]:
  "announced (update_wait_for_all_status v s) i = announced s i"
  "announced (vq_raise s) i = announced s i" "announced (update_node_expected_votes e s) i = announced s i"
  by (simp_all add: update_wait_for_all_status_def Let_def)
     (simp_all add: announced_def node_at_raise node_at_update_expected)

lemma announced_decide: "announced (snd (quorate_decide v s)) i = announced s i"
proof (cases "ucast (quorum s) > v")
  case True
  then show ?thesis by (simp add: quorate_decide_def Let_def)
next
  case False
  then show ?thesis by (simp add: quorate_decide_def Let_def)
qed

lemma announced_finish: "announced (quorate_finish q s) i = announced s i"
  by (simp add: quorate_finish_def Let_def)

lemma announced_recalculate:
  assumes "recalculate_quorum d b s = Inr s'"
  shows "announced s' i = announced s i"
proof -
  have "announced t' i = announced t i" if "are_we_quorate v t = Inr t'" for v t t'
  proof -
    have "t' = t \<or> (\<exists>q t1. t1 \<in> {t, update_wait_for_all_status 0 t} \<and>
        t' = quorate_finish q (snd (quorate_decide v t1)))"
      using that by (auto simp: are_we_quorate_def Let_def bindE_eq_Inr case_prod_beta split: if_split_asm)
    then show ?thesis by (auto simp: announced_decide announced_finish)
  qed
  then show ?thesis
    using assms by (auto simp: recalculate_quorum_eq Let_def split: prod.splits)
qed

section \<open>Node information\<close>

lemma announced_expected [simp]:
  "announced (node_upd i (\<lambda>n. n\<lparr>expected_votes := e\<rparr>) s) j = announced s j"
  "announced (us_upd (\<lambda>n. n\<lparr>expected_votes := e\<rparr>) s) j = announced s j"
  by (simp_all add: announced_def node_at_upd us_upd_def) (simp_all add: node_upd_def)

lemma lms_fields [simp]:
  "announced (nodeinfo_check_lms i s) j = announced s j" "us (nodeinfo_check_lms i s) = us s"
  "cluster_members_list (nodeinfo_check_lms i s) = cluster_members_list s"
  by (auto simp: nodeinfo_check_lms_def Let_def emit_def intro: announced_same)

lemma announced_update_node:
  assumes "nodeinfo_update_node m i s = (d, b, s')" "i < length (cluster_nodes s)"
  shows "announced s' j = (if j = i
     then (node_id (node_at s i), if has_flag (ni_flags m) NODE_FLAGS_LEAVING then NODESTATE_LEAVING else NODESTATE_MEMBER,
           ni_votes m, if i = us s then 0 else ni_flags m)
     else announced s j)"
    and "us s' = us s" "cluster_members_list s' = cluster_members_list s"
proof -
  define s1 where "s1 = node_upd i (\<lambda>n. n\<lparr>flags := ni_flags m, votes := ni_votes m,
      state := (if has_flag (ni_flags m) NODE_FLAGS_LEAVING then NODESTATE_LEAVING else NODESTATE_MEMBER)\<rparr>) s"
  define t where "t = (if cluster_is_quorate s1 = 0 \<and> has_flag (ni_flags m) NODE_FLAGS_QUORATE
      then us_upd (\<lambda>n. n\<lparr>expected_votes := ni_expected_votes m\<rparr>) s1 else s1)"
  obtain e where e: "s' = nodeinfo_check_lms i (node_upd i (\<lambda>n. n\<lparr>expected_votes := e\<rparr>) t)"
    using assms(1) unfolding nodeinfo_update_node_def Let_def s1_def [symmetric] t_def [symmetric] by blast
  have s': "announced s' j = announced s1 j" "us s' = us s1" "cluster_members_list s' = cluster_members_list s1" for j
    by (simp_all add: e t_def) (simp_all add: us_upd_def node_upd_def)
  have "us s1 = us s" "cluster_members_list s1 = cluster_members_list s" by (simp_all add: s1_def node_upd_def)
  moreover have "announced s1 j = (if j = i
     then (node_id (node_at s i), if has_flag (ni_flags m) NODE_FLAGS_LEAVING then NODESTATE_LEAVING else NODESTATE_MEMBER,
           ni_votes m, if i = us s then 0 else ni_flags m)
     else announced s j)"
    using assms(2) calculation(1) by (simp add: announced_def) (simp add: s1_def node_at_upd)
  ultimately show "announced s' j = (if j = i
     then (node_id (node_at s i), if has_flag (ni_flags m) NODE_FLAGS_LEAVING then NODESTATE_LEAVING else NODESTATE_MEMBER,
           ni_votes m, if i = us s then 0 else ni_flags m)
     else announced s j)" "us s' = us s" "cluster_members_list s' = cluster_members_list s"
    using s' by simp_all
qed

lemma nodeinfo_returns:
  assumes "wfa_inv s" "ni_nodeid m \<noteq> VOTEQUORUM_QDEVICE_NODEID" "cluster_nodes_entries s \<le> PROCESSOR_COUNT_MAX + 1"
  shows "\<exists>s'. message_handler_req_exec_votequorum_nodeinfo m sender s = Inr s'"
proof -
  obtain i s1 where n: "(case find_node_by_nodeid (ni_nodeid m) s of
      Some i \<Rightarrow> Inr (Some i, s) | None \<Rightarrow> allocate_node (ni_nodeid m) s) = Inr (Some i, s1)"
    using allocate_first [OF assms(3)] by (cases "find_node_by_nodeid (ni_nodeid m) s") auto
  then have "wfa_inv s1"
    using assms(1) wfa_inv_cong [OF wfa_allocate] by (auto split: option.splits)
  obtain d b s2 where s2: "nodeinfo_update_node m i s1 = (d, b, s2)" by (cases "nodeinfo_update_node m i s1")
  then have "wfa_inv s2" using \<open>wfa_inv s1\<close> wfa_inv_cong [OF wfa_nodeinfo_update] by blast
  then obtain s3 where "recalculate_quorum d b s2 = Inr s3" using recalculate_quorum_wfa by blast
  then show ?thesis
    using n s2 assms(2) by (simp add: message_handler_req_exec_votequorum_nodeinfo_def Let_def)
qed

lemma demo_vq_inv:
  assumes "ms \<noteq> []" "length ms \<le> PROCESSOR_COUNT_MAX" "distinct (map fst ms)" "0 \<notin> fst ` set ms"
  shows "vq_inv (demo_state ms E)"
  using demo_inv [OF assms] assms(1)
  by (simp add: vq_inv_def demo_special demo_node_def) (simp add: demo_state_def vq_static_init_def)

text \<open>(C27) The database holds what a node announces: after a node information message the node it is about
is found under its id with the announced votes, state and flags (this node's own flags apart, which
its own decisions change), and the entries of all other nodes are as before.\<close>

theorem nodeinfo_recorded:
  assumes inv: "vq_inv s" and id: "ni_nodeid m \<noteq> VOTEQUORUM_QDEVICE_NODEID"
    and res: "message_handler_req_exec_votequorum_nodeinfo m sender s = Inr s'"
  shows "\<exists>i. find_node_by_nodeid (ni_nodeid m) s' = Some i \<and>
    votes (node_at s' i) = ni_votes m \<and>
    state (node_at s' i) = (if has_flag (ni_flags m) NODE_FLAGS_LEAVING then NODESTATE_LEAVING else NODESTATE_MEMBER) \<and>
    (i \<noteq> us s' \<longrightarrow> flags (node_at s' i) = ni_flags m) \<and>
    (\<forall>j \<in> set (cluster_members_list s'). j \<noteq> i \<longrightarrow> announced s' j = announced s j)"
proof -
  have db: "vq_db_inv s" and us: "state (us_node s) \<noteq> NODESTATE_DEAD" using inv by (auto simp: vq_inv_def)
  obtain node s1 where n: "(case find_node_by_nodeid (ni_nodeid m) s of
      Some i \<Rightarrow> Inr (Some i, s) | None \<Rightarrow> allocate_node (ni_nodeid m) s) = Inr (node, s1)"
    using res by (auto simp: message_handler_req_exec_votequorum_nodeinfo_def Let_def bindE_eq_Inr)
  obtain i where i: "node = Some i" "find_node_by_nodeid (ni_nodeid m) s1 = Some i" "vq_db_inv s1"
    and other: "\<And>j. j \<noteq> i \<Longrightarrow> announced s1 j = announced s j"
    using n db allocate_node_ok [OF db id _ us]
    by (auto simp: announced_def split: option.splits) (metis (no_types))
  have mem: "i \<in> set (cluster_members_list s1)" "node_id (node_at s1 i) = ni_nodeid m" "i < length (cluster_nodes s1)"
    using i(2,3) id find_node_by_nodeid_iff [OF i(3)] vq_db_invD(6) [OF i(3)] by auto
  obtain d b s2 where s2: "nodeinfo_update_node m i s1 = (d, b, s2)" by (cases "nodeinfo_update_node m i s1")
  obtain s3 where s3: "recalculate_quorum d b s2 = Inr s3 \<or> s3 = s2" and s': "s' = s3 \<or> s' = update_wait_for_all_status 0 s3"
    using res n i(1) id unfolding message_handler_req_exec_votequorum_nodeinfo_def Let_def
    by (auto simp: bindE_eq_Inr s2 split: if_splits)
  have a: "announced s' j = announced s2 j" for j using s3 s' announced_recalculate by auto
  have fr: "vq_frame s' = vq_frame s2" using s3 s' frame_recalculate by auto
  note upd = announced_update_node [OF s2 mem(3)]
  have db': "vq_db_inv s'" using vq_inv_nodeinfo [OF inv res] by (simp add: vq_inv_def)
  have list: "cluster_members_list s' = cluster_members_list s1" "us s' = us s1"
    using frame_nodes [OF fr] upd(2,3) by simp_all
  have ai: "announced s' i = (ni_nodeid m,
      if has_flag (ni_flags m) NODE_FLAGS_LEAVING then NODESTATE_LEAVING else NODESTATE_MEMBER,
      ni_votes m, if i = us s1 then 0 else ni_flags m)"
    using a upd(1) [of i] mem(2) by simp
  then have "find_node_by_nodeid (ni_nodeid m) s' = Some i"
    using find_node_by_nodeid_iff [OF db'] mem(1) list by (auto simp: announced_def)
  moreover have "announced s' j = announced s j" if "j \<noteq> i" for j using a upd(1) [of j] other that by simp
  ultimately show ?thesis using ai list by (auto simp: announced_def)
qed

theorem nodeinfo_recorded_witness:
  "\<exists>s' i. message_handler_req_exec_votequorum_nodeinfo
       \<lparr>ni_nodeid = 2, ni_votes = 3, ni_expected_votes = 4, ni_flags = 0\<rparr> 2 (demo_state [(1, 1)] 4) = Inr s' \<and>
     find_node_by_nodeid 2 s' = Some i \<and> votes (node_at s' i) = 3 \<and> state (node_at s' i) = NODESTATE_MEMBER"
proof -
  let ?m = "\<lparr>ni_nodeid = 2, ni_votes = 3, ni_expected_votes = 4, ni_flags = 0 :: u32\<rparr>" and ?s = "demo_state [(1, 1)] 4"
  have inv: "vq_inv ?s" by (rule demo_vq_inv) (simp_all add: PROCESSOR_COUNT_MAX_def)
  have id: "ni_nodeid ?m \<noteq> VOTEQUORUM_QDEVICE_NODEID" by (simp add: VOTEQUORUM_QDEVICE_NODEID_def)
  obtain s' where "message_handler_req_exec_votequorum_nodeinfo ?m 2 ?s = Inr s'"
    using nodeinfo_returns [OF _ id, of ?s 2] by (auto simp: wfa_inv_def PROCESSOR_COUNT_MAX_def)
  with nodeinfo_recorded [OF inv id this] show ?thesis by (auto simp: has_flag_def)
qed

section \<open>Membership changes\<close>

lemma db_inv_state:
  assumes "vq_db_inv s"
  shows "vq_db_inv (node_upd k (\<lambda>n. n\<lparr>state := st\<rparr>) s)"
proof -
  have "node_id (node_at (node_upd k (\<lambda>n. n\<lparr>state := st\<rparr>) s) i) = node_id (node_at s i)" for i
    by (simp add: node_at_upd)
  then show ?thesis using assms unfolding vq_db_inv_alt by (simp add: node_upd_def)
qed

lemma mark_left_state:
  assumes "vq_db_inv s" "mark_left members ms (b, s) = (b', s')" "i \<in> set (cluster_members_list s)"
  shows "state (node_at s' i) = (if node_id (node_at s i) \<in> set ms - set members then NODESTATE_DEAD
    else state (node_at s i)) \<and> b' = (b \<or> set ms - set members \<noteq> {})"
  using assms
proof (induction ms arbitrary: b s)
  case Nil
  then show ?case by simp
next
  case (Cons m ms)
  show ?case
  proof (cases "m \<in> set members")
    case True
    then show ?thesis using Cons by auto
  next
    case False
    define s1 where "s1 = (case find_node_by_nodeid m s of
        Some k \<Rightarrow> node_upd k (\<lambda>n. n\<lparr>state := NODESTATE_DEAD\<rparr>) s | None \<Rightarrow> s)"
    have s1: "vq_db_inv s1" "i \<in> set (cluster_members_list s1)" "node_id (node_at s1 i) = node_id (node_at s i)"
      using Cons.prems db_inv_state by (auto simp: s1_def node_at_upd split: option.splits)
        (auto simp: node_upd_def)
    have i: "i \<noteq> qdevice s" "i < length (cluster_nodes s)"
      using Cons.prems(1,3) vq_db_invD(6) by (auto simp: vq_db_inv_def)
    have "state (node_at s1 i) = (if node_id (node_at s i) = m then NODESTATE_DEAD else state (node_at s i))"
    proof (cases "node_id (node_at s i) = m")
      case True
      then have "find_node_by_nodeid m s = Some i"
        using find_node_by_nodeid_iff [OF Cons.prems(1)] Cons.prems(3) by simp
      then show ?thesis using i True by (simp add: s1_def node_at_upd)
    next
      case False
      then have "find_node_by_nodeid m s \<noteq> Some i"
        using find_node_by_nodeid_iff [OF Cons.prems(1)] i(1) by simp
      then show ?thesis using False by (auto simp: s1_def node_at_upd split: option.split)
    qed
    then show ?thesis using Cons.IH [OF s1(1) _ s1(2), of True] Cons.prems(2) False s1(3) by (auto simp: s1_def)
  qed
qed

lemma mark_left_members:
  "mark_left members ms (b, s) = (b', s') \<Longrightarrow>
    quorum_members s' = quorum_members s \<and> length (cluster_nodes s') = length (cluster_nodes s)"
proof (induction ms arbitrary: b s)
  case (Cons m ms)
  have "quorum_members (node_upd k f s) = quorum_members s"
    "length (cluster_nodes (node_upd k f s)) = length (cluster_nodes s)" for k f by (simp_all add: node_upd_def)
  then show ?case using Cons by (fastforce split: if_splits option.splits)
qed simp

lemma sync_init_returns:
  "length members \<le> PROCESSOR_COUNT_MAX \<Longrightarrow> \<exists>s'. votequorum_sync_init members ring s = Inr s'"
  by (simp add: votequorum_sync_init_def Let_def case_prod_beta)

lemma sync_timers_fields [simp]:
  "quorum_members (sync_lms_timer members left_nodes s) = quorum_members s"
  "quorum_members (sync_qdevice_timer s) = quorum_members s"
  "previous_quorum_members (sync_qdevice_timer s) = previous_quorum_members s"
  "quorum_ringid (sync_qdevice_timer s) = quorum_ringid s"
  by (simp_all add: sync_lms_timer_def sync_qdevice_timer_def emit_def Let_def)

text \<open>(C28) A membership change marks exactly the nodes that left: a known node of the old membership that is not
in the new one is dead, every other node keeps its state; the old membership is remembered and the new
one is in force.\<close>

theorem sync_init_marks_departed:
  assumes inv: "vq_inv s" and res: "votequorum_sync_init members ring s = Inr s'"
    and i: "i \<in> set (cluster_members_list s)"
  shows "state (node_at s' i) =
      (if node_id (node_at s i) \<in> set (quorum_members s) - set members then NODESTATE_DEAD
       else state (node_at s i)) \<and>
    quorum_members s' = members \<and> previous_quorum_members s' = quorum_members s \<and> quorum_ringid s' = ring"
proof -
  define s2 where "s2 = (let s1 = s\<lparr>sync_in_progress := True, sync_nodeinfo_sent := False,
                 sync_wait_for_poll_or_timeout := False\<rparr>
      in if length members > 1 then us_flags_upd (clear_flag NODE_FLAGS_FIRST) s1 else s1)"
  obtain b s3 where s3: "mark_left members (quorum_members s2) (False, s2) = (b, s3)" by fastforce
  have f2: "vq_frame s2 = vq_frame s" and q2: "quorum_members s2 = quorum_members s"
    by (simp_all add: s2_def Let_def) (simp add: vq_upd)
  have db: "vq_db_inv s" using inv by (simp add: vq_inv_def)
  have db2: "vq_db_inv s2" using vq_inv_frame [OF f2 inv] by (simp add: vq_inv_def)
  have node: "node_id (node_at s2 i) = node_id (node_at s i)" "state (node_at s2 i) = state (node_at s i)"
    using frame_nodes(8,9) [OF f2] vq_db_invD(6) [OF db i] by simp_all
  have q3: "quorum_members s3 = quorum_members s2" "length (cluster_nodes s3) = length (cluster_nodes s2)"
    using mark_left_members [OF s3] by simp_all
  have f3: "vq_frame s' = vq_frame s3" and rest: "quorum_members s' = members"
      "previous_quorum_members s' = quorum_members s3" "quorum_ringid s' = ring"
    using res s3 unfolding votequorum_sync_init_def s2_def Let_def by (auto split: if_splits)
  have "state (node_at s' i) = state (node_at s3 i)"
    using frame_nodes(9) [OF f3] vq_db_invD(6) [OF db i] frame_nodes(7) [OF f2] q3(2) by simp
  then show ?thesis
    using mark_left_state [OF db2 s3] i frame_nodes(1) [OF f2] node q2 q3 rest by simp
qed

theorem sync_init_marks_departed_witness:
  "\<exists>s'. votequorum_sync_init [1] \<lparr>ring_nodeid = 1, ring_seq = 8\<rparr> (demo_state [(1, 1), (2, 1)] 2) = Inr s' \<and>
     state (node_at s' 1) = NODESTATE_MEMBER \<and> state (node_at s' 2) = NODESTATE_DEAD \<and> quorum_members s' = [1]"
proof -
  let ?s = "demo_state [(1, 1), (2, 1)] 2" and ?r = "\<lparr>ring_nodeid = 1, ring_seq = 8\<rparr>"
  have inv: "vq_inv ?s" by (rule demo_vq_inv) (simp_all add: PROCESSOR_COUNT_MAX_def)
  obtain s' where s': "votequorum_sync_init [1] ?r ?s = Inr s'"
    using sync_init_returns [of "[1]" ?r ?s] by (auto simp: PROCESSOR_COUNT_MAX_def)
  have "node_at ?s 1 = demo_node 2 (1, 1)" "node_at ?s 2 = demo_node 2 (2, 1)"
    using demo_nodes(2) [of 0 "[(1, 1), (2, 1)]" 2] demo_nodes(2) [of 1 "[(1, 1), (2, 1)]" 2]
    by (simp_all add: numeral_2_eq_2)
  then show ?thesis
    using s' sync_init_marks_departed [OF inv s', of 1] sync_init_marks_departed [OF inv s', of 2]
    by (simp add: demo_node_def)
qed

section \<open>Byte order\<close>

text \<open>A word as a host of the other byte order reads it.\<close>

lemma bit_byte: "bit (ucast (ucast (drop_bit k w :: u32) :: u8) :: u32) m \<longleftrightarrow> m < 8 \<and> bit w (k + m)"
  by (auto simp: bit_unsigned_iff bit_drop_bit_eq)

lemma bit_shifted: "bit (push_bit j (x :: u32)) n \<longleftrightarrow> j \<le> n \<and> n < 32 \<and> bit x (n - j)"
  by (auto simp: bit_push_bit_iff)

lemma read_other_order: "bytes_u32 (rev (u32_bytes w)) = swab32 w"
proof (rule bit_word_eqI)
  fix n assume "n < LENGTH(32)"
  then have n: "n < 32" by simp
  have swab: "bit (swab32 w) n = bit w (if n < 8 then n + 24 else if n < 16 then n + 8 else if n < 24 then n - 8 else n - 24)"
    using n by (simp add: bit_swab32)
  have bytes: "bit (bytes_u32 (rev (u32_bytes w))) n =
      (n < 8 \<and> bit w (24 + n) \<or> 8 \<le> n \<and> n - 8 < 8 \<and> bit w (16 + (n - 8)) \<or>
       16 \<le> n \<and> n - 16 < 8 \<and> bit w (8 + (n - 16)) \<or> 24 \<le> n \<and> n - 24 < 8 \<and> bit w (n - 24))"
    using n bit_byte [of 0 w] by (simp add: bytes_u32_def u32_bytes_def bit_or_iff bit_byte bit_shifted)
  consider "n < 8" | "8 \<le> n" "n < 16" | "16 \<le> n" "n < 24" | "24 \<le> n" using n by fastforce
  then show "bit (bytes_u32 (rev (u32_bytes w))) n = bit (swab32 w) n"
    unfolding swab bytes using n by cases (simp_all add: add.commute less_diff_conv2)
qed
definition nodeinfo_other_order :: "req_exec_quorum_nodeinfo \<Rightarrow> req_exec_quorum_nodeinfo" where
  "nodeinfo_other_order m = \<lparr>ni_nodeid = bytes_u32 (rev (u32_bytes (ni_nodeid m))),
     ni_votes = bytes_u32 (rev (u32_bytes (ni_votes m))),
     ni_expected_votes = bytes_u32 (rev (u32_bytes (ni_expected_votes m))),
     ni_flags = bytes_u32 (rev (u32_bytes (ni_flags m)))\<rparr>"

definition reconfigure_other_order :: "req_exec_quorum_reconfigure \<Rightarrow> req_exec_quorum_reconfigure" where
  "reconfigure_other_order m = \<lparr>rc_nodeid = bytes_u32 (rev (u32_bytes (rc_nodeid m))),
     rc_value = bytes_u32 (rev (u32_bytes (rc_value m))), rc_param = rc_param m\<rparr>"


section \<open>Quorum device polls\<close>

text \<open>(C34) A poll of the quorum device counts only for the current ring: a poll that carries another ring
identifier is answered with an error and changes nothing else, so a vote that belongs to an earlier
membership is never cast in the current one.\<close>

theorem stale_poll_ignored:
  assumes "qdevice_can_operate s \<noteq> 0" "has_flag (flags (us_node s)) NODE_FLAGS_QDEVICE_REGISTERED"
    and "ring \<noteq> quorum_ringid s"
  shows "message_handler_req_lib_votequorum_qdevice_poll conn name cast_vote ring s =
    s\<lparr>effects := effects s @ [IpcResponse conn (ResStatus CS_ERR_MESSAGE_ERROR)]\<rparr>"
proof -
  have "\<not> (ring_nodeid ring = ring_nodeid (quorum_ringid s) \<and> ring_seq ring = ring_seq (quorum_ringid s))"
    using assms(3) by (cases ring; cases "quorum_ringid s") auto
  then show ?thesis
    using assms(1,2)
    by (simp add: message_handler_req_lib_votequorum_qdevice_poll_def respond_def emit_def)
qed

theorem stale_poll_ignored_witness:
  "message_handler_req_lib_votequorum_qdevice_poll 7 ''dev'' True \<lparr>ring_nodeid = 1, ring_seq = 4\<rparr>
       (us_flags_upd (set_flag NODE_FLAGS_QDEVICE_REGISTERED) (demo_state [(1, 1)] 2)) =
     (us_flags_upd (set_flag NODE_FLAGS_QDEVICE_REGISTERED) (demo_state [(1, 1)] 2))
       \<lparr>effects := [IpcResponse 7 (ResStatus CS_ERR_MESSAGE_ERROR)]\<rparr>"
proof -
  let ?s = "us_flags_upd (set_flag NODE_FLAGS_QDEVICE_REGISTERED) (demo_state [(1, 1)] 2)"
  have "effects ?s = []" "qdevice_can_operate ?s \<noteq> 0" "quorum_ringid ?s = \<lparr>ring_nodeid = 0, ring_seq = 0\<rparr>"
    by (simp_all add: vq_upd demo_state_def vq_static_init_def)
  moreover have "has_flag (flags (us_node ?s)) NODE_FLAGS_QDEVICE_REGISTERED"
  proof -
    have "us ?s = 1" "length (cluster_nodes (demo_state [(1, 1)] 2)) > 1"
      by (simp_all add: vq_upd demo_state_def)
    then show ?thesis by (simp add: us_node_def us_flags_upd_flags NODE_FLAGS_QDEVICE_REGISTERED_def)
  qed
  ultimately show ?thesis using stale_poll_ignored [of ?s "\<lparr>ring_nodeid = 1, ring_seq = 4\<rparr>" 7 "''dev''" True] by simp
qed

end
