(* ===== verification/Cs_Queue.thy ===== *)
theory Cs_Queue
  imports Prelude
begin

text \<open>
  The circular queue of \<^verbatim>\<open>exec/cs_queue.h\<close>, which holds the messages waiting for the token
  (\<open>new_message_queue\<close>, \<open>new_message_queue_trans\<close>) and the messages of the old ring to be
  recovered (\<open>retrans_message_queue\<close>).

  \<open>items\<close> is the array of \<open>size\<close> slots: one list element stands for the \<open>size_per_item\<close> bytes
  of a slot, and \<open>zero\<close> for the all-zero slot that \<^verbatim>\<open>memset\<close> leaves. The mutex only brackets
  each operation, so an operation is one atomic step and the mutex itself has no field.
  \<^verbatim>\<open>malloc\<close> is a Boolean argument saying whether it succeeds.
\<close>

section \<open>State and operations\<close>

record 'a cs_queue =
  q_head :: int
  q_tail :: int
  q_used :: int
  q_usedhw :: int
  q_size :: int
  q_items :: "'a list"
  q_size_per_item :: int
  q_iterator :: int
  q_threaded_mode_enabled :: bool

text \<open>\<open>x % cs_queue->size\<close> stored into an \<open>int\<close>: the \<open>int\<close> operand is converted to \<open>size_t\<close>.\<close>

definition q_mod :: "'a cs_queue \<Rightarrow> int \<Rightarrow> int c_result" where
  "q_mod q x = (if q_size q = 0 then Inl DivideByZero else Inr (c_int (c_size x mod q_size q)))"

definition cs_queue_init ::
  "'a cs_queue \<Rightarrow> 'a \<Rightarrow> int \<Rightarrow> int \<Rightarrow> bool \<Rightarrow> bool \<Rightarrow> int \<times> 'a cs_queue" where
  "cs_queue_init q zero cs_queue_items size_per_item threaded malloc_ok =
     (let q1 = q\<lparr>q_head := 0, q_tail := c_int (c_size (cs_queue_items - 1)), q_used := 0, q_usedhw := 0,
                 q_size := cs_queue_items, q_size_per_item := size_per_item,
                 q_threaded_mode_enabled := threaded\<rparr>
      in if \<not> malloc_ok then (- ENOMEM, q1\<lparr>q_items := []\<rparr>)
         else (0, q1\<lparr>q_items := replicate (nat cs_queue_items) zero\<rparr>))"

definition cs_queue_reinit :: "'a \<Rightarrow> 'a cs_queue \<Rightarrow> 'a cs_queue" where
  "cs_queue_reinit zero q =
     q\<lparr>q_head := 0, q_tail := c_int (c_size (q_size q - 1)), q_used := 0, q_usedhw := 0,
       q_items := replicate (nat (q_size q)) zero\<rparr>"

definition cs_queue_is_full :: "'a cs_queue \<Rightarrow> bool" where
  "cs_queue_is_full q \<longleftrightarrow> c_size (q_size q - 1) = c_size (q_used q)"

definition cs_queue_is_empty :: "'a cs_queue \<Rightarrow> bool" where
  "cs_queue_is_empty q \<longleftrightarrow> q_used q = 0"

definition cs_queue_item_add :: "'a cs_queue \<Rightarrow> 'a \<Rightarrow> 'a cs_queue c_result" where
  "cs_queue_item_add q item =
     bindE (array_set (q_items q) (q_head q) item) (\<lambda>items.
     bindE (assertE (q_tail q \<noteq> q_head q)) (\<lambda>_.
     bindE (q_mod q (q_head q + 1)) (\<lambda>head.
       let used = q_used q + 1;
           usedhw = (if used > q_usedhw q then used else q_usedhw q)
       in Inr (q\<lparr>q_items := items, q_head := head, q_used := used, q_usedhw := usedhw\<rparr>))))"

definition cs_queue_item_get :: "'a cs_queue \<Rightarrow> 'a c_result" where
  "cs_queue_item_get q = bindE (q_mod q (q_tail q + 1)) (\<lambda>position. array_get (q_items q) position)"

definition cs_queue_item_remove :: "'a cs_queue \<Rightarrow> 'a cs_queue c_result" where
  "cs_queue_item_remove q =
     bindE (q_mod q (q_tail q + 1)) (\<lambda>tail.
     bindE (assertE (tail \<noteq> q_head q)) (\<lambda>_.
     bindE (assertE (q_used q - 1 \<ge> 0)) (\<lambda>_.
       Inr (q\<lparr>q_tail := tail, q_used := q_used q - 1\<rparr>))))"

definition cs_queue_items_remove :: "'a cs_queue \<Rightarrow> int \<Rightarrow> 'a cs_queue c_result" where
  "cs_queue_items_remove q rel_count =
     bindE (q_mod q (q_tail q + rel_count)) (\<lambda>tail.
     bindE (assertE (tail \<noteq> q_head q)) (\<lambda>_.
       Inr (q\<lparr>q_tail := tail, q_used := q_used q - rel_count\<rparr>)))"

definition cs_queue_item_iterator_init :: "'a cs_queue \<Rightarrow> 'a cs_queue c_result" where
  "cs_queue_item_iterator_init q =
     bindE (q_mod q (q_tail q + 1)) (\<lambda>it. Inr (q\<lparr>q_iterator := it\<rparr>))"

text \<open>\<open>None\<close> is the null pointer the code returns at the end of the queue.\<close>

definition cs_queue_item_iterator_get :: "'a cs_queue \<Rightarrow> 'a option c_result" where
  "cs_queue_item_iterator_get q =
     bindE (q_mod q (q_iterator q)) (\<lambda>position.
       if q_iterator q = q_head q then Inr None
       else bindE (array_get (q_items q) position) (\<lambda>x. Inr (Some x)))"

definition cs_queue_item_iterator_next :: "'a cs_queue \<Rightarrow> (bool \<times> 'a cs_queue) c_result" where
  "cs_queue_item_iterator_next q =
     bindE (q_mod q (q_iterator q + 1)) (\<lambda>it. Inr (it = q_head q, q\<lparr>q_iterator := it\<rparr>))"

definition cs_queue_avail :: "'a cs_queue \<Rightarrow> int c_result" where
  "cs_queue_avail q =
     (let avail = c_int (c_size (c_size (q_size q - c_size (q_used q)) - 2))
      in bindE (assertE (avail \<ge> 0)) (\<lambda>_. Inr avail))"

definition cs_queue_used :: "'a cs_queue \<Rightarrow> int" where
  "cs_queue_used q = q_used q"

definition cs_queue_usedhw :: "'a cs_queue \<Rightarrow> int" where
  "cs_queue_usedhw q = q_usedhw q"

section \<open>Invariant and abstraction\<close>

definition cs_queue_inv :: "'a cs_queue \<Rightarrow> bool" where
  "cs_queue_inv q \<longleftrightarrow>
     1 \<le> q_size q \<and> q_size q < 2 ^ 31 \<and> length (q_items q) = nat (q_size q) \<and>
     0 \<le> q_tail q \<and> q_tail q < q_size q \<and>
     0 \<le> q_used q \<and> q_used q < q_size q \<and>
     q_head q = (q_tail q + 1 + q_used q) mod q_size q \<and>
     q_used q \<le> q_usedhw q \<and> q_usedhw q < q_size q"

text \<open>Position of the \<open>i\<close>-th oldest message, and the queue as a list, oldest first.\<close>

definition q_pos :: "'a cs_queue \<Rightarrow> int \<Rightarrow> int" where
  "q_pos q i = (q_tail q + 1 + i) mod q_size q"

definition cs_queue_list :: "'a cs_queue \<Rightarrow> 'a list" where
  "cs_queue_list q = map (\<lambda>i. q_items q ! nat (q_pos q (int i))) [0..<nat (q_used q)]"

definition cs_queue_capacity :: "'a cs_queue \<Rightarrow> nat" where
  "cs_queue_capacity q = nat (q_size q - 1)"

lemma length_cs_queue_list [simp]: "length (cs_queue_list q) = nat (q_used q)"
  by (simp add: cs_queue_list_def)

lemma cs_queue_list_nth:
  "i < nat (q_used q) \<Longrightarrow> cs_queue_list q ! i = q_items q ! nat (q_pos q (int i))"
  by (simp add: cs_queue_list_def)

lemma mod_shift_neq:
  fixes a i j n :: int
  assumes "i < j" "j - i < n"
  shows "(a + i) mod n \<noteq> (a + j) mod n"
proof
  assume "(a + i) mod n = (a + j) mod n"
  then have "n dvd (j - i)"
    by (metis add_diff_cancel_left mod_eq_dvd_iff)
  then show False using assms zdvd_imp_le [of n "j - i"] by simp
qed

lemma q_size_bound: "cs_queue_inv q \<Longrightarrow> q_size q < 2 ^ 31"
  by (simp add: cs_queue_inv_def)

lemma q_mod_ok:
  assumes "cs_queue_inv q" "0 \<le> x" "x < 2 ^ 63"
  shows "q_mod q x = Inr (x mod q_size q)"
proof -
  have "x mod q_size q < q_size q" "0 \<le> x mod q_size q"
    using assms(1) by (auto simp: cs_queue_inv_def)
  moreover have "q_size q < 2 ^ 31" "q_size q \<noteq> 0"
    using assms(1) by (auto simp: cs_queue_inv_def)
  ultimately show ?thesis using assms(2,3) by (simp add: q_mod_def)
qed

lemma q_pos_bounds:
  assumes "cs_queue_inv q"
  shows "0 \<le> q_pos q i" "q_pos q i < q_size q" "nat (q_pos q i) < length (q_items q)"
  using assms by (auto simp: q_pos_def cs_queue_inv_def nat_less_iff)

lemma q_pos_inj:
  assumes "cs_queue_inv q" "i < j" "j - i < q_size q"
  shows "nat (q_pos q i) \<noteq> nat (q_pos q j)"
proof -
  have "q_pos q i \<noteq> q_pos q j"
    using mod_shift_neq [OF assms(2,3), of "q_tail q + 1"] by (simp add: q_pos_def)
  then show ?thesis using q_pos_bounds(1) [OF assms(1)] by (metis int_nat_eq)
qed

lemma q_head_pos: "cs_queue_inv q \<Longrightarrow> q_head q = q_pos q (q_used q)"
  by (simp add: cs_queue_inv_def q_pos_def)

lemma q_tail_pos: "cs_queue_inv q \<Longrightarrow> q_tail q = q_pos q (- 1)"
  by (simp add: cs_queue_inv_def q_pos_def)

lemma q_tail_eq_head:
  assumes "cs_queue_inv q"
  shows "q_tail q = q_head q \<longleftrightarrow> q_used q = q_size q - 1"
proof
  assume eq: "q_tail q = q_head q"
  show "q_used q = q_size q - 1"
  proof (rule ccontr)
    assume "q_used q \<noteq> q_size q - 1"
    then have "nat (q_pos q (- 1)) \<noteq> nat (q_pos q (q_used q))"
      using assms by (intro q_pos_inj) (auto simp: cs_queue_inv_def)
    then show False using eq assms by (simp add: q_head_pos q_tail_pos)
  qed
next
  assume used: "q_used q = q_size q - 1"
  have "q_pos q (q_size q - 1) = q_tail q mod q_size q"
    by (simp add: q_pos_def)
  then show "q_tail q = q_head q"
    using used assms by (simp add: q_head_pos) (simp add: cs_queue_inv_def)
qed

section \<open>Initialisation\<close>

lemma cs_queue_init_inv:
  assumes "1 \<le> n" "n < 2 ^ 31" "cs_queue_init q zero n sz thr True = (r, q')"
  shows "r = 0 \<and> cs_queue_inv q' \<and> cs_queue_list q' = [] \<and> cs_queue_capacity q' = nat (n - 1)"
  using assms
  by (auto simp: cs_queue_init_def cs_queue_inv_def cs_queue_list_def cs_queue_capacity_def Let_def)

lemma cs_queue_reinit_inv:
  assumes "cs_queue_inv q"
  shows "cs_queue_inv (cs_queue_reinit zero q)" "cs_queue_list (cs_queue_reinit zero q) = []"
    "cs_queue_capacity (cs_queue_reinit zero q) = cs_queue_capacity q"
  using assms
  by (auto simp: cs_queue_reinit_def cs_queue_inv_def cs_queue_list_def cs_queue_capacity_def)

section \<open>Adding a message\<close>

lemma cs_queue_is_full_iff:
  assumes "cs_queue_inv q"
  shows "cs_queue_is_full q \<longleftrightarrow> length (cs_queue_list q) = cs_queue_capacity q"
  using assms by (auto simp: cs_queue_is_full_def cs_queue_inv_def cs_queue_capacity_def)

lemma cs_queue_is_empty_iff:
  assumes "cs_queue_inv q"
  shows "cs_queue_is_empty q \<longleftrightarrow> cs_queue_list q = []"
  using assms by (auto simp: cs_queue_is_empty_def cs_queue_inv_def cs_queue_list_def)

lemma cs_queue_item_add_eq:
  assumes inv: "cs_queue_inv q" and room: "q_used q < q_size q - 1"
  shows "cs_queue_item_add q x =
    Inr (q\<lparr>q_items := (q_items q)[nat (q_head q) := x], q_head := (q_head q + 1) mod q_size q,
           q_used := q_used q + 1,
           q_usedhw := (if q_used q + 1 > q_usedhw q then q_used q + 1 else q_usedhw q)\<rparr>)"
proof -
  have "q_tail q \<noteq> q_head q" using inv room by (simp add: q_tail_eq_head)
  moreover have "0 \<le> q_head q" "nat (q_head q) < length (q_items q)" "q_head q < q_size q"
    using q_pos_bounds [OF inv] by (simp_all add: q_head_pos [OF inv])
  moreover from this have "q_mod q (q_head q + 1) = Inr ((q_head q + 1) mod q_size q)"
    using q_size_bound [OF inv] by (intro q_mod_ok [OF inv]) auto
  ultimately show ?thesis by (simp add: cs_queue_item_add_def Let_def)
qed

lemma cs_queue_list_add:
  assumes inv: "cs_queue_inv q" and room: "q_used q < q_size q - 1"
    and q': "q' = q\<lparr>q_items := (q_items q)[nat (q_head q) := x], q_head := h,
                    q_used := q_used q + 1, q_usedhw := hw\<rparr>"
  shows "cs_queue_list q' = cs_queue_list q @ [x]"
proof (rule nth_equalityI)
  have used: "0 \<le> q_used q" using inv by (simp add: cs_queue_inv_def)
  show "length (cs_queue_list q') = length (cs_queue_list q @ [x])"
    using used q' by simp
  fix i assume i: "i < length (cs_queue_list q')"
  have pos: "q_pos q' k = q_pos q k" for k by (simp add: q' q_pos_def)
  have items: "q_items q' = (q_items q)[nat (q_pos q (q_used q)) := x]"
    by (simp add: q' q_head_pos [OF inv])
  show "cs_queue_list q' ! i = (cs_queue_list q @ [x]) ! i"
  proof (cases "i < nat (q_used q)")
    case True
    then have "nat (q_pos q (int i)) \<noteq> nat (q_pos q (q_used q))"
      using inv by (intro q_pos_inj) (auto simp: cs_queue_inv_def)
    then show ?thesis using True i
      by (simp add: cs_queue_list_nth nth_append pos items)
  next
    case False
    then have "i = nat (q_used q)" using i used q' by simp
    then show ?thesis using i used q_pos_bounds(3) [OF inv]
      by (simp add: cs_queue_list_nth nth_append pos items)
  qed
qed

lemma cs_queue_item_add_ok:
  assumes inv: "cs_queue_inv q" and room: "length (cs_queue_list q) < cs_queue_capacity q"
  shows "\<exists>q'. cs_queue_item_add q x = Inr q' \<and> cs_queue_inv q' \<and>
              cs_queue_list q' = cs_queue_list q @ [x] \<and>
              cs_queue_capacity q' = cs_queue_capacity q"
proof -
  have used: "q_used q < q_size q - 1"
    using inv room by (auto simp: cs_queue_capacity_def cs_queue_inv_def)
  define q' where "q' = q\<lparr>q_items := (q_items q)[nat (q_head q) := x],
    q_head := (q_head q + 1) mod q_size q, q_used := q_used q + 1,
    q_usedhw := (if q_used q + 1 > q_usedhw q then q_used q + 1 else q_usedhw q)\<rparr>"
  have "cs_queue_item_add q x = Inr q'"
    using cs_queue_item_add_eq [OF inv used] by (simp add: q'_def)
  moreover have "cs_queue_inv q'"
    using inv used by (auto simp: q'_def cs_queue_inv_def mod_simps ac_simps)
  moreover have "cs_queue_list q' = cs_queue_list q @ [x]"
    by (rule cs_queue_list_add [OF inv used q'_def])
  moreover have "cs_queue_capacity q' = cs_queue_capacity q"
    by (simp add: q'_def cs_queue_capacity_def)
  ultimately show ?thesis by blast
qed

lemma cs_queue_item_add_full:
  assumes inv: "cs_queue_inv q" and full: "length (cs_queue_list q) = cs_queue_capacity q"
  shows "cs_queue_item_add q x = Inl AssertFailed"
proof -
  have "q_used q = q_size q - 1"
    using inv full by (auto simp: cs_queue_capacity_def cs_queue_inv_def)
  then have "q_tail q = q_head q" using inv by (simp add: q_tail_eq_head)
  moreover have "0 \<le> q_head q" "nat (q_head q) < length (q_items q)"
    using q_pos_bounds [OF inv] by (simp_all add: q_head_pos [OF inv])
  ultimately show ?thesis by (simp add: cs_queue_item_add_def)
qed

section \<open>Reading and removing messages\<close>

lemma cs_queue_item_get_ok:
  assumes inv: "cs_queue_inv q" and ne: "cs_queue_list q \<noteq> []"
  shows "cs_queue_item_get q = Inr (hd (cs_queue_list q))"
proof -
  have used: "0 < nat (q_used q)"
    using ne by (metis length_cs_queue_list length_greater_0_conv)
  have "q_mod q (q_tail q + 1) = Inr (q_pos q 0)"
    using inv by (subst q_mod_ok) (auto simp: cs_queue_inv_def q_pos_def)
  then have "cs_queue_item_get q = Inr (q_items q ! nat (q_pos q 0))"
    using q_pos_bounds [OF inv] by (simp add: cs_queue_item_get_def)
  then show ?thesis using used ne by (simp add: hd_conv_nth cs_queue_list_nth)
qed

lemma cs_queue_items_remove_eq:
  assumes inv: "cs_queue_inv q" and n: "1 \<le> n" "n \<le> q_used q"
  shows "cs_queue_items_remove q n =
    Inr (q\<lparr>q_tail := (q_tail q + n) mod q_size q, q_used := q_used q - n\<rparr>)"
proof -
  have m: "q_mod q (q_tail q + n) = Inr (q_pos q (n - 1))"
    using inv n by (subst q_mod_ok) (auto simp: cs_queue_inv_def q_pos_def)
  have "nat (q_pos q (n - 1)) \<noteq> nat (q_pos q (q_used q))"
    using inv n by (intro q_pos_inj) (auto simp: cs_queue_inv_def)
  then have "q_pos q (n - 1) \<noteq> q_head q"
    by (auto simp: q_head_pos [OF inv])
  then show ?thesis
    using m by (simp add: cs_queue_items_remove_def q_pos_def)
qed

lemma cs_queue_items_remove_ok:
  assumes inv: "cs_queue_inv q" and n: "1 \<le> n" "nat n \<le> length (cs_queue_list q)"
  shows "\<exists>q'. cs_queue_items_remove q n = Inr q' \<and> cs_queue_inv q' \<and>
              cs_queue_list q' = drop (nat n) (cs_queue_list q) \<and>
              cs_queue_capacity q' = cs_queue_capacity q"
proof -
  have used: "n \<le> q_used q" using inv n by (auto simp: cs_queue_inv_def)
  define q' where "q' = q\<lparr>q_tail := (q_tail q + n) mod q_size q, q_used := q_used q - n\<rparr>"
  have pos: "q_pos q' k = q_pos q (n + k)" for k
    by (simp add: q'_def q_pos_def add.assoc mod_add_left_eq) (simp add: ac_simps)
  have "cs_queue_items_remove q n = Inr q'"
    using cs_queue_items_remove_eq [OF inv n(1) used] by (simp add: q'_def)
  moreover have "cs_queue_inv q'"
  proof -
    have "q_head q' = q_pos q' (q_used q')"
      unfolding pos by (simp add: q'_def q_head_pos [OF inv])
    then show ?thesis
      using inv n(1) used unfolding cs_queue_inv_def q_pos_def by (simp add: q'_def)
  qed
  moreover have "cs_queue_list q' = drop (nat n) (cs_queue_list q)"
    using n(1) used
    by (auto intro!: nth_equalityI simp: cs_queue_list_nth pos nat_diff_distrib)
       (simp_all add: q'_def nat_diff_distrib cs_queue_list_nth)
  moreover have "cs_queue_capacity q' = cs_queue_capacity q"
    by (simp add: q'_def cs_queue_capacity_def)
  ultimately show ?thesis by blast
qed

lemma cs_queue_item_remove_eq:
  assumes "cs_queue_inv q"
  shows "cs_queue_item_remove q =
    (if q_used q = 0 then Inl AssertFailed else cs_queue_items_remove q 1)"
proof -
  have m: "q_mod q (q_tail q + 1) = Inr (q_pos q 0)"
    using assms by (subst q_mod_ok) (auto simp: cs_queue_inv_def q_pos_def)
  show ?thesis
    using assms m q_head_pos [OF assms]
    by (auto simp: cs_queue_item_remove_def cs_queue_items_remove_def assertE_def cs_queue_inv_def)
qed

lemma cs_queue_item_remove_ok:
  assumes inv: "cs_queue_inv q" and ne: "cs_queue_list q \<noteq> []"
  shows "\<exists>q'. cs_queue_item_remove q = Inr q' \<and> cs_queue_inv q' \<and>
              cs_queue_list q' = tl (cs_queue_list q) \<and>
              cs_queue_capacity q' = cs_queue_capacity q"
proof -
  have "1 \<le> length (cs_queue_list q)" using ne by (cases "cs_queue_list q") auto
  then have "q_used q \<noteq> 0" and "nat 1 \<le> length (cs_queue_list q)" by auto
  then show ?thesis
    using cs_queue_items_remove_ok [OF inv, of 1] cs_queue_item_remove_eq [OF inv]
    by (simp add: drop_Suc)
qed

lemma cs_queue_item_remove_empty:
  "cs_queue_inv q \<Longrightarrow> cs_queue_list q = [] \<Longrightarrow> cs_queue_item_remove q = Inl AssertFailed"
  by (simp add: cs_queue_item_remove_eq cs_queue_is_empty_iff [symmetric] cs_queue_is_empty_def)

section \<open>Free slots\<close>

lemma cs_queue_avail_eq:
  assumes "cs_queue_inv q"
  shows "cs_queue_avail q =
    (if cs_queue_is_full q then Inl AssertFailed
     else Inr (int (cs_queue_capacity q) - int (length (cs_queue_list q)) - 1))"
proof -
  have b: "1 \<le> q_size q" "q_size q < 2 ^ 31" "0 \<le> q_used q" "q_used q < q_size q"
    using assms by (auto simp: cs_queue_inv_def)
  show ?thesis
  proof (cases "q_used q = q_size q - 1")
    case True
    then show ?thesis using b by (simp add: cs_queue_avail_def cs_queue_is_full_def c_size_def c_int_def)
  next
    case False
    then show ?thesis
      using b by (simp add: cs_queue_avail_def cs_queue_is_full_def cs_queue_capacity_def Let_def)
  qed
qed

section \<open>Iteration\<close>

text \<open>
  The walk the iterator interface is made for: read the current message, advance, stop at the
  null pointer. The fuel bounds the number of messages read; one more than the number of queued
  messages is always enough (\<open>cs_queue_walk_list\<close> below).
\<close>

fun cs_queue_walk :: "nat \<Rightarrow> 'a cs_queue \<Rightarrow> 'a list option c_result" where
  "cs_queue_walk 0 q = Inr None"
| "cs_queue_walk (Suc fuel) q =
     bindE (cs_queue_item_iterator_get q) (\<lambda>x.
       case x of
         None \<Rightarrow> Inr (Some [])
       | Some y \<Rightarrow>
           bindE (cs_queue_item_iterator_next q) (\<lambda>(_, q').
           bindE (cs_queue_walk fuel q') (\<lambda>ys. Inr (map_option ((#) y) ys))))"

lemma cs_queue_inv_iterator [simp]:
  "cs_queue_inv (q\<lparr>q_iterator := it\<rparr>) = cs_queue_inv q"
  "cs_queue_list (q\<lparr>q_iterator := it\<rparr>) = cs_queue_list q"
  "q_pos (q\<lparr>q_iterator := it\<rparr>) i = q_pos q i"
  by (auto simp: cs_queue_inv_def cs_queue_list_def q_pos_def)

lemma q_mod_pos:
  assumes "cs_queue_inv q"
  shows "q_mod q (q_pos q i) = Inr (q_pos q i)" "q_mod q (q_pos q i + 1) = Inr (q_pos q (i + 1))"
proof -
  have b: "0 \<le> q_pos q i" "q_pos q i < q_size q" "q_size q < 2 ^ 31"
    using q_pos_bounds [OF assms] q_size_bound [OF assms] by auto
  show "q_mod q (q_pos q i) = Inr (q_pos q i)"
    using b by (subst q_mod_ok [OF assms]) auto
  show "q_mod q (q_pos q i + 1) = Inr (q_pos q (i + 1))"
    using b by (subst q_mod_ok [OF assms]) (auto simp: q_pos_def mod_simps ac_simps)
qed

lemma cs_queue_walk_from:
  assumes "cs_queue_inv q" "q_iterator q = q_pos q (int i)" "i \<le> nat (q_used q)"
    "nat (q_used q) - i < fuel"
  shows "cs_queue_walk fuel q = Inr (Some (drop i (cs_queue_list q)))"
  using assms
proof (induction fuel arbitrary: q i)
  case 0
  then show ?case by simp
next
  case (Suc fuel)
  note inv = Suc.prems(1)
  have used: "q_used q = int (nat (q_used q))" using inv by (simp add: cs_queue_inv_def)
  show ?case
  proof (cases "i = nat (q_used q)")
    case True
    then have "q_iterator q = q_head q" using Suc.prems(2) q_head_pos [OF inv] used by simp
    moreover have "q_mod q (q_iterator q) = Inr (q_iterator q)"
      using Suc.prems(2) q_mod_pos(1) [OF inv] by simp
    ultimately show ?thesis
      using True by (simp add: cs_queue_item_iterator_get_def)
  next
    case False
    then have less: "i < nat (q_used q)" using Suc.prems(3) by simp
    have "nat (q_pos q (int i)) \<noteq> nat (q_pos q (q_used q))"
      using inv less by (intro q_pos_inj) (auto simp: cs_queue_inv_def)
    then have "cs_queue_item_iterator_get q = Inr (Some (cs_queue_list q ! i))"
      using Suc.prems(2) q_mod_pos(1) [OF inv] q_pos_bounds [OF inv] less q_head_pos [OF inv]
      by (auto simp: cs_queue_item_iterator_get_def cs_queue_list_nth)
    moreover obtain b where
      "cs_queue_item_iterator_next q = Inr (b, q\<lparr>q_iterator := q_pos q (int (Suc i))\<rparr>)"
      using Suc.prems(2) q_mod_pos(2) [OF inv, of "int i"]
      by (simp add: cs_queue_item_iterator_next_def ac_simps)
    moreover have "cs_queue_walk fuel (q\<lparr>q_iterator := q_pos q (int (Suc i))\<rparr>) =
        Inr (Some (drop (Suc i) (cs_queue_list q)))"
      using Suc.IH [of "q\<lparr>q_iterator := q_pos q (int (Suc i))\<rparr>" "Suc i"] inv less Suc.prems(4)
      by simp
    ultimately show ?thesis using less
      by (simp add: Cons_nth_drop_Suc [symmetric])
  qed
qed

lemma cs_queue_walk_list:
  assumes "cs_queue_inv q" "length (cs_queue_list q) < fuel"
  shows "bindE (cs_queue_item_iterator_init q) (cs_queue_walk fuel) = Inr (Some (cs_queue_list q))"
proof -
  have "q_mod q (q_tail q + 1) = Inr (q_pos q 0)"
    using assms by (subst q_mod_ok) (auto simp: cs_queue_inv_def q_pos_def)
  then have "cs_queue_item_iterator_init q = Inr (q\<lparr>q_iterator := q_pos q 0\<rparr>)"
    by (simp add: cs_queue_item_iterator_init_def)
  then show ?thesis
    using cs_queue_walk_from [of "q\<lparr>q_iterator := q_pos q 0\<rparr>" 0 fuel] assms by simp
qed

section \<open>The bounded first-in first-out interface\<close>

text \<open>
  What the users of the queue in \<^verbatim>\<open>totemsrp.c\<close> rely on: the operations they call, with the
  contents as a list. A client is a sequence of steps: \<open>Put\<close> is the \<open>cs_queue_item_add\<close> of
  \<open>totemsrp_mcast\<close>, \<open>Take\<close> the \<open>cs_queue_item_get\<close> followed by \<open>cs_queue_item_remove\<close> of
  \<open>orf_token_mcast\<close>. \<open>fifo_run\<close> runs it on an implementation, \<open>list_run\<close> on the list that
  specifies it.
\<close>

datatype 'a fifo_step = Put 'a | Take

fun fifo_run ::
  "('q \<Rightarrow> 'a \<Rightarrow> 'q c_result) \<Rightarrow> ('q \<Rightarrow> 'a c_result) \<Rightarrow> ('q \<Rightarrow> 'q c_result) \<Rightarrow>
   'a fifo_step list \<Rightarrow> 'q \<Rightarrow> ('a list \<times> 'q) c_result" where
  "fifo_run add get remove [] q = Inr ([], q)"
| "fifo_run add get remove (Put x # ss) q = bindE (add q x) (fifo_run add get remove ss)"
| "fifo_run add get remove (Take # ss) q =
     bindE (get q) (\<lambda>x. bindE (remove q) (\<lambda>q1.
     bindE (fifo_run add get remove ss q1) (\<lambda>(xs, q2). Inr (x # xs, q2))))"

fun list_run :: "nat \<Rightarrow> 'a fifo_step list \<Rightarrow> 'a list \<Rightarrow> ('a list \<times> 'a list) c_result" where
  "list_run cap [] xs = Inr ([], xs)"
| "list_run cap (Put x # ss) xs =
     (if length xs < cap then list_run cap ss (xs @ [x]) else Inl AssertFailed)"
| "list_run cap (Take # ss) xs =
     (case xs of [] \<Rightarrow> Inl AssertFailed
      | x # xs' \<Rightarrow> bindE (list_run cap ss xs') (\<lambda>(ys, zs). Inr (x # ys, zs)))"

fun puts :: "'a fifo_step list \<Rightarrow> 'a list" where
  "puts [] = []"
| "puts (Put x # ss) = x # puts ss"
| "puts (Take # ss) = puts ss"

lemma list_run_conserves: "list_run cap ss xs = Inr (outs, ys) \<Longrightarrow> outs @ ys = xs @ puts ss"
  by (induction cap ss xs arbitrary: outs rule: list_run.induct)
     (auto simp: bindE_eq_Inr split: if_splits list.splits)

locale bounded_fifo =
  fixes add :: "'q \<Rightarrow> 'a \<Rightarrow> 'q c_result"
    and get :: "'q \<Rightarrow> 'a c_result"
    and remove :: "'q \<Rightarrow> 'q c_result"
    and contents :: "'q \<Rightarrow> 'a list"
    and capacity :: "'q \<Rightarrow> nat"
    and invar :: "'q \<Rightarrow> bool"
  assumes add_ok: "invar q \<Longrightarrow> length (contents q) < capacity q \<Longrightarrow>
      \<exists>q'. add q x = Inr q' \<and> invar q' \<and> contents q' = contents q @ [x] \<and> capacity q' = capacity q"
    and add_full: "invar q \<Longrightarrow> \<not> length (contents q) < capacity q \<Longrightarrow> add q x = Inl AssertFailed"
    and get_ok: "invar q \<Longrightarrow> contents q \<noteq> [] \<Longrightarrow> get q = Inr (hd (contents q))"
    and get_empty: "invar q \<Longrightarrow> contents q = [] \<Longrightarrow> \<exists>x. get q = Inr x"
    and remove_ok: "invar q \<Longrightarrow> contents q \<noteq> [] \<Longrightarrow>
      \<exists>q'. remove q = Inr q' \<and> invar q' \<and> contents q' = tl (contents q) \<and> capacity q' = capacity q"
    and remove_empty: "invar q \<Longrightarrow> contents q = [] \<Longrightarrow> remove q = Inl AssertFailed"
begin

text \<open>The implementation returns what the list returns, and aborts exactly when it does.\<close>

lemma run_refines:
  "invar q \<Longrightarrow>
   (case list_run (capacity q) ss (contents q) of
      Inl e \<Rightarrow> fifo_run add get remove ss q = Inl e
    | Inr (outs, xs) \<Rightarrow> \<exists>q'. fifo_run add get remove ss q = Inr (outs, q') \<and> invar q' \<and>
        contents q' = xs \<and> capacity q' = capacity q)"
proof (induction ss arbitrary: q)
  case Nil
  then show ?case by simp
next
  case (Cons st ss)
  show ?case
  proof (cases st)
    case (Put x)
    show ?thesis
    proof (cases "length (contents q) < capacity q")
      case True
      then obtain q1 where "add q x = Inr q1" "invar q1" "contents q1 = contents q @ [x]"
        "capacity q1 = capacity q"
        using add_ok Cons.prems by blast
      then show ?thesis using True Put Cons.IH [of q1] by (auto split: sum.splits)
    next
      case False
      then show ?thesis using Put Cons.prems by (simp add: add_full)
    qed
  next
    case Take
    show ?thesis
    proof (cases "contents q")
      case Nil
      then show ?thesis using Take Cons.prems get_empty [of q] by (auto simp: remove_empty)
    next
      case (Cons x xs)
      then obtain q1 where "remove q = Inr q1" "invar q1" "contents q1 = xs" "capacity q1 = capacity q"
        using remove_ok [of q] \<open>invar q\<close> by auto
      moreover have "get q = Inr x" using Cons \<open>invar q\<close> get_ok [of q] by simp
      ultimately show ?thesis using Take Cons Cons.IH [of q1]
        by (auto split: sum.splits)
    qed
  qed
qed

text \<open>Messages leave in the order they came, none is lost and none is duplicated.\<close>

lemma run_conserves:
  assumes "invar q" "fifo_run add get remove ss q = Inr (outs, q')"
  shows "outs @ contents q' = contents q @ puts ss"
  using run_refines [OF assms(1), of ss] assms(2) list_run_conserves
  by (fastforce split: sum.splits)

end

lemma cs_queue_length_le_capacity:
  "cs_queue_inv q \<Longrightarrow> length (cs_queue_list q) \<le> cs_queue_capacity q"
  by (auto simp: cs_queue_inv_def cs_queue_capacity_def)

lemma cs_queue_item_get_returns: "cs_queue_inv q \<Longrightarrow> \<exists>x. cs_queue_item_get q = Inr x"
  using q_mod_pos(2) [of q "- 1"] q_pos_bounds [of q 0]
  by (simp add: cs_queue_item_get_def q_tail_pos [symmetric])

interpretation cs_q: bounded_fifo cs_queue_item_add cs_queue_item_get cs_queue_item_remove
  cs_queue_list cs_queue_capacity cs_queue_inv
proof
  fix q :: "'a cs_queue" and x
  assume "cs_queue_inv q" "\<not> length (cs_queue_list q) < cs_queue_capacity q"
  then show "cs_queue_item_add q x = Inl AssertFailed"
    using cs_queue_length_le_capacity [of q] by (intro cs_queue_item_add_full) auto
qed (simp_all add: cs_queue_item_add_ok cs_queue_item_get_ok cs_queue_item_get_returns
      cs_queue_item_remove_ok cs_queue_item_remove_empty)

section \<open>Properties\<close>

text \<open>(C18) A queue initialised with \<open>n\<close> slots behaves, for every sequence of additions and
removals, as a first-in first-out list of capacity \<open>n - 1\<close>: it returns the same messages, and
the process aborts exactly when a message is added to the full list or removed from the empty
one.\<close>

theorem cs_queue_refines_list:
  assumes "1 \<le> n" "n < 2 ^ 31" "cs_queue_init q zero n sz thr True = (r, q0)"
  shows "case list_run (nat (n - 1)) ss [] of
      Inl e \<Rightarrow> fifo_run cs_queue_item_add cs_queue_item_get cs_queue_item_remove ss q0 = Inl e
    | Inr (outs, xs) \<Rightarrow> \<exists>q'.
        fifo_run cs_queue_item_add cs_queue_item_get cs_queue_item_remove ss q0 = Inr (outs, q') \<and>
        cs_queue_inv q' \<and> cs_queue_list q' = xs \<and> cs_queue_capacity q' = nat (n - 1)"
  using cs_q.run_refines [of q0 ss] cs_queue_init_inv [OF assms] by (auto split: sum.splits)

definition zero_queue :: "nat cs_queue" where
  "zero_queue = \<lparr>q_head = 0, q_tail = 0, q_used = 0, q_usedhw = 0, q_size = 0, q_items = [],
     q_size_per_item = 0, q_iterator = 0, q_threaded_mode_enabled = False\<rparr>"

theorem cs_queue_refines_list_witness:
  "\<exists>q'. fifo_run cs_queue_item_add cs_queue_item_get cs_queue_item_remove
      [Put 7, Put 8, Take, Put 9, Take] (snd (cs_queue_init zero_queue 0 3 1 False True)) =
        Inr ([7, 8], q') \<and> cs_queue_inv q' \<and> cs_queue_list q' = [9]"
  using cs_queue_refines_list [of 3 zero_queue 0 1 False
      "fst (cs_queue_init zero_queue 0 3 1 False True)"
      "snd (cs_queue_init zero_queue 0 3 1 False True)" "[Put 7, Put 8, Take, Put 9, Take]"]
  by auto

text \<open>(C23) Whatever a client does with the queue, what it took out followed by what is still
queued is what was queued at first followed by what it put in: messages keep their order, none is
lost and none is duplicated.\<close>

theorem cs_queue_conserves:
  assumes "cs_queue_inv q"
    "fifo_run cs_queue_item_add cs_queue_item_get cs_queue_item_remove ss q = Inr (outs, q')"
  shows "outs @ cs_queue_list q' = cs_queue_list q @ puts ss"
  by (rule cs_q.run_conserves [OF assms])

definition queue_456 :: "nat cs_queue" where
  "queue_456 = \<lparr>q_head = 1, q_tail = 1, q_used = 3, q_usedhw = 3, q_size = 4, q_items = [6, 0, 4, 5],
     q_size_per_item = 1, q_iterator = 0, q_threaded_mode_enabled = False\<rparr>"

theorem cs_queue_conserves_witness:
  "\<exists>outs q'. fifo_run cs_queue_item_add cs_queue_item_get cs_queue_item_remove [Take, Put 7] queue_456
       = Inr (outs, q') \<and> outs @ cs_queue_list q' = [4, 5, 6, 7]"
proof -
  let ?run = "fifo_run cs_queue_item_add cs_queue_item_get cs_queue_item_remove [Take, Put 7] queue_456"
  have inv: "cs_queue_inv queue_456" by (simp add: cs_queue_inv_def queue_456_def)
  have "cs_queue_list queue_456 = [4, 5, 6]"
    by (simp add: cs_queue_list_def queue_456_def q_pos_def upt_rec)
  moreover have "\<exists>outs q'. ?run = Inr (outs, q')"
    by (simp add: queue_456_def cs_queue_item_get_def cs_queue_item_remove_def
        cs_queue_item_add_def q_mod_def array_get_def array_set_def c_int_def c_size_def)
  ultimately show ?thesis using cs_queue_conserves [OF inv] by fastforce
qed

text \<open>(C24) The iterator visits exactly the queued messages, oldest first, and stops: started by
\<open>cs_queue_item_iterator_init\<close>, the walk over a queue ends after one step per message.\<close>

theorem cs_queue_iterator_visits_all:
  assumes "cs_queue_inv q" "length (cs_queue_list q) < fuel"
  shows "bindE (cs_queue_item_iterator_init q) (cs_queue_walk fuel) = Inr (Some (cs_queue_list q))"
  by (rule cs_queue_walk_list [OF assms])

theorem cs_queue_iterator_visits_all_witness:
  "bindE (cs_queue_item_iterator_init queue_456) (cs_queue_walk 4) =
    Inr (Some (cs_queue_list queue_456)) \<and> cs_queue_list queue_456 = [4, 5, 6]"
  using cs_queue_iterator_visits_all [of queue_456 4]
  by (simp add: cs_queue_inv_def queue_456_def cs_queue_list_def q_pos_def upt_rec)



end
