(* ===== verification/Sort_Queue.thy ===== *)
theory Sort_Queue
  imports Prelude
begin

text \<open>
  The sort queue of \<^verbatim>\<open>include/corosync/sq.h\<close>: a window of message slots addressed by 32-bit
  sequence numbers that roll over, which orders the received messages of a ring
  (\<open>regular_sort_queue\<close>, \<open>recovery_sort_queue\<close>). All the arithmetic of the header is on
  \<open>unsigned int\<close> and is kept on \<open>32 word\<close>. One list element of \<open>sq_items\<close> stands for the
  \<open>size_per_item\<close> bytes of a slot.
\<close>

section \<open>Rollover-safe comparison\<close>

definition ADJUST_ROLLOVER_POINT :: u32 where
  "ADJUST_ROLLOVER_POINT = 0x80000000"

definition ADJUST_ROLLOVER_VALUE :: u32 where
  "ADJUST_ROLLOVER_VALUE = 0x10000"

definition sq_lt_compare :: "u32 \<Rightarrow> u32 \<Rightarrow> bool" where
  "sq_lt_compare a b =
     (if a > ADJUST_ROLLOVER_POINT \<or> b > ADJUST_ROLLOVER_POINT
      then a - ADJUST_ROLLOVER_VALUE < b - ADJUST_ROLLOVER_VALUE
      else a < b)"

definition sq_lte_compare :: "u32 \<Rightarrow> u32 \<Rightarrow> bool" where
  "sq_lte_compare a b =
     (if a > ADJUST_ROLLOVER_POINT \<or> b > ADJUST_ROLLOVER_POINT
      then a - ADJUST_ROLLOVER_VALUE \<le> b - ADJUST_ROLLOVER_VALUE
      else a \<le> b)"

section \<open>State and operations\<close>

record 'a sq =
  sq_head :: u32
  sq_size :: u32
  sq_items :: "'a list"
  sq_items_inuse :: "u32 list"
  sq_items_miss_count :: "u32 list"
  sq_size_per_item :: u32
  sq_head_seqid :: u32
  sq_item_count :: u32
  sq_pos_max :: u32

text \<open>\<^verbatim>\<open>memset\<close> to zero of \<open>n\<close> array elements from index \<open>i\<close>, and \<^verbatim>\<open>memcpy\<close> of the first \<open>n\<close>.\<close>

definition memset0 :: "nat \<Rightarrow> nat \<Rightarrow> u32 list \<Rightarrow> u32 list c_result" where
  "memset0 i n xs =
     (if i + n \<le> length xs then Inr (take i xs @ replicate n 0 @ drop (i + n) xs)
      else Inl OutOfBounds)"

definition memcpy_n :: "nat \<Rightarrow> 'a list \<Rightarrow> 'a list \<Rightarrow> 'a list c_result" where
  "memcpy_n n dst src =
     (if n \<le> length dst \<and> n \<le> length src then Inr (take n src @ drop n dst) else Inl OutOfBounds)"

text \<open>\<open>x % sq->size\<close>\<close>

definition sq_mod :: "'a sq \<Rightarrow> u32 \<Rightarrow> u32 c_result" where
  "sq_mod q x = (if sq_size q = 0 then Inl DivideByZero else Inr (x mod sq_size q))"

definition slot_get :: "'b list \<Rightarrow> u32 \<Rightarrow> 'b c_result" where
  "slot_get xs i = array_get xs (uint i)"

definition slot_set :: "'b list \<Rightarrow> u32 \<Rightarrow> 'b \<Rightarrow> 'b list c_result" where
  "slot_set xs i v = array_set xs (uint i) v"

text \<open>The three Boolean arguments say whether the three calls of \<^verbatim>\<open>malloc\<close> succeed.\<close>

definition sq_init ::
  "'a sq \<Rightarrow> 'a \<Rightarrow> int \<Rightarrow> int \<Rightarrow> int \<Rightarrow> bool \<Rightarrow> bool \<Rightarrow> bool \<Rightarrow> int \<times> 'a sq" where
  "sq_init q zero item_count size_per_item head_seqid malloc1 malloc2 malloc3 =
     (let q1 = q\<lparr>sq_head := 0, sq_size := word_of_int item_count,
                 sq_size_per_item := word_of_int size_per_item,
                 sq_head_seqid := word_of_int head_seqid,
                 sq_item_count := word_of_int item_count, sq_pos_max := 0\<rparr>
      in if \<not> malloc1 then (- ENOMEM, q1\<lparr>sq_items := []\<rparr>)
         else if \<not> malloc2 then
           (- ENOMEM, q1\<lparr>sq_items := replicate (nat item_count) zero, sq_items_inuse := []\<rparr>)
         else if \<not> malloc3 then
           (- ENOMEM, q1\<lparr>sq_items := replicate (nat item_count) zero, sq_items_miss_count := []\<rparr>)
         else (0, q1\<lparr>sq_items := replicate (nat item_count) zero,
                     sq_items_inuse := replicate (nat item_count) 0,
                     sq_items_miss_count := replicate (nat item_count) 0\<rparr>))"

definition sq_reinit :: "'a \<Rightarrow> 'a sq \<Rightarrow> u32 \<Rightarrow> 'a sq" where
  "sq_reinit zero q head_seqid =
     q\<lparr>sq_head := 0, sq_head_seqid := head_seqid, sq_pos_max := 0,
       sq_items := replicate (unat (sq_item_count q)) zero,
       sq_items_inuse := replicate (unat (sq_item_count q)) 0,
       sq_items_miss_count := replicate (unat (sq_item_count q)) 0\<rparr>"

definition sq_assert :: "'a sq \<Rightarrow> unit c_result" where
  "sq_assert q =
     assertE (list_all (\<lambda>i. sq_items_inuse q ! i = 0)
                [unat (sq_pos_max q + 1)..<unat (sq_size q)])"

definition sq_copy :: "'a sq \<Rightarrow> 'a sq \<Rightarrow> 'a sq c_result" where
  "sq_copy sq_dest sq_src =
     bindE (sq_assert sq_src) (\<lambda>_.
     bindE (memcpy_n (unat (sq_item_count sq_src)) (sq_items sq_dest) (sq_items sq_src)) (\<lambda>items.
     bindE (memcpy_n (unat (sq_item_count sq_src)) (sq_items_inuse sq_dest)
              (sq_items_inuse sq_src)) (\<lambda>inuse.
     bindE (memcpy_n (unat (sq_item_count sq_src)) (sq_items_miss_count sq_dest)
              (sq_items_miss_count sq_src)) (\<lambda>miss.
       Inr (sq_dest\<lparr>sq_head := sq_head sq_src, sq_size := sq_item_count sq_src,
                    sq_size_per_item := sq_size_per_item sq_src,
                    sq_head_seqid := sq_head_seqid sq_src,
                    sq_item_count := sq_item_count sq_src, sq_pos_max := sq_pos_max sq_src,
                    sq_items := items, sq_items_inuse := inuse, sq_items_miss_count := miss\<rparr>)))))"

definition sq_item_add :: "'a sq \<Rightarrow> 'a \<Rightarrow> u32 \<Rightarrow> 'a sq c_result" where
  "sq_item_add q item seqid =
     bindE (sq_mod q (sq_head q + seqid - sq_head_seqid q)) (\<lambda>sq_position.
       let pos_max = (if sq_position > sq_pos_max q then sq_position else sq_pos_max q) in
     bindE (slot_get (sq_items_inuse q) sq_position) (\<lambda>inuse.
     bindE (assertE (inuse = 0)) (\<lambda>_.
     bindE (slot_set (sq_items q) sq_position item) (\<lambda>items.
     bindE (slot_set (sq_items_inuse q) sq_position (if seqid = 0 then 1 else seqid)) (\<lambda>items_inuse.
     bindE (slot_set (sq_items_miss_count q) sq_position 0) (\<lambda>miss_count.
       Inr (q\<lparr>sq_pos_max := pos_max, sq_items := items, sq_items_inuse := items_inuse,
              sq_items_miss_count := miss_count\<rparr>)))))))"

definition sq_item_inuse :: "'a sq \<Rightarrow> u32 \<Rightarrow> bool c_result" where
  "sq_item_inuse q seq_id =
     bindE (sq_mod q (sq_head q - sq_head_seqid q + seq_id)) (\<lambda>sq_position.
     bindE (slot_get (sq_items_inuse q) sq_position) (\<lambda>inuse. Inr (inuse \<noteq> 0)))"

definition sq_item_miss_count :: "'a sq \<Rightarrow> u32 \<Rightarrow> (u32 \<times> 'a sq) c_result" where
  "sq_item_miss_count q seq_id =
     bindE (sq_mod q (sq_head q - sq_head_seqid q + seq_id)) (\<lambda>sq_position.
     bindE (slot_get (sq_items_miss_count q) sq_position) (\<lambda>c.
     bindE (slot_set (sq_items_miss_count q) sq_position (c + 1)) (\<lambda>miss_count.
       Inr (c + 1, q\<lparr>sq_items_miss_count := miss_count\<rparr>))))"

definition sq_size_get :: "'a sq \<Rightarrow> u32" where
  "sq_size_get q = sq_size q"

definition sq_in_range :: "'a sq \<Rightarrow> u32 \<Rightarrow> bool" where
  "sq_in_range q seq_id =
     (if sq_head_seqid q > ADJUST_ROLLOVER_POINT
      then \<not> (seq_id - ADJUST_ROLLOVER_VALUE < sq_head_seqid q - ADJUST_ROLLOVER_VALUE) \<and>
           \<not> (seq_id - ADJUST_ROLLOVER_VALUE \<ge>
               sq_head_seqid q - ADJUST_ROLLOVER_VALUE + sq_size q)
      else \<not> (seq_id < sq_head_seqid q) \<and> \<not> (seq_id \<ge> sq_head_seqid q + sq_size q))"

text \<open>The result is \<open>(0, Some item)\<close> or \<open>(ENOENT, None)\<close>.\<close>

definition sq_item_get :: "'a sq \<Rightarrow> u32 \<Rightarrow> (int \<times> 'a option) c_result" where
  "sq_item_get q seq_id =
     bindE (if seq_id > ADJUST_ROLLOVER_POINT
            then bindE (assertE (seq_id - ADJUST_ROLLOVER_POINT
                          < sq_head_seqid q - ADJUST_ROLLOVER_POINT + sq_size q)) (\<lambda>_.
                 sq_mod q ((sq_head q - ADJUST_ROLLOVER_VALUE)
                           - (sq_head_seqid q - ADJUST_ROLLOVER_VALUE) + seq_id))
            else bindE (assertE (seq_id < sq_head_seqid q + sq_size q)) (\<lambda>_.
                 sq_mod q (sq_head q - sq_head_seqid q + seq_id))) (\<lambda>sq_position.
     bindE (slot_get (sq_items_inuse q) sq_position) (\<lambda>inuse.
       if inuse = 0 then Inr (ENOENT, None)
       else bindE (slot_get (sq_items q) sq_position) (\<lambda>item. Inr (0, Some item))))"

definition sq_items_release :: "'a sq \<Rightarrow> u32 \<Rightarrow> 'a sq c_result" where
  "sq_items_release q seqid =
     (let oldhead = sq_head q in
      bindE (sq_mod q (sq_head q + seqid - sq_head_seqid q + 1)) (\<lambda>head.
        if oldhead + seqid - sq_head_seqid q + 1 > sq_size q
        then bindE (memset0 (unat oldhead) (unat (sq_size q - oldhead)) (sq_items_inuse q)) (\<lambda>inuse1.
             bindE (memset0 0 (unat head) inuse1) (\<lambda>inuse2.
               Inr (q\<lparr>sq_head := head, sq_items_inuse := inuse2, sq_head_seqid := seqid + 1\<rparr>)))
        else bindE (memset0 (unat oldhead) (unat (seqid - sq_head_seqid q + 1)) (sq_items_inuse q))
               (\<lambda>inuse.
             bindE (memset0 (unat oldhead) (unat (seqid - sq_head_seqid q + 1))
                      (sq_items_miss_count q)) (\<lambda>miss.
               Inr (q\<lparr>sq_head := head, sq_items_inuse := inuse, sq_items_miss_count := miss,
                      sq_head_seqid := seqid + 1\<rparr>)))))"

section \<open>Comparison is the circular order\<close>

text \<open>
  Two sequence numbers less than \<open>ADJUST_ROLLOVER_VALUE\<close> apart are compared correctly wherever
  they lie, across the rollover included.
\<close>

lemmas rollover_defs = ADJUST_ROLLOVER_POINT_def ADJUST_ROLLOVER_VALUE_def

lemma unat_sub_cases:
  fixes a b :: "'w::len word"
  shows "unat (a - b) = (if unat b \<le> unat a then unat a - unat b
                         else unat a + 2 ^ LENGTH('w) - unat b)"
proof -
  have lt: "unat b < 2 ^ LENGTH('w)" by simp
  show ?thesis
  proof (cases "unat b \<le> unat a")
    case True
    then show ?thesis by (simp add: word_le_nat_alt unat_sub)
  next
    case False
    then have "\<not> b \<le> a" by (simp add: word_le_nat_alt)
    then show ?thesis using False lt
      by (simp add: unat_sub_if_size word_size word_le_nat_alt)
  qed
qed

lemma sq_compare_near:
  fixes a b :: u32
  assumes "unat (b - a) < 0x10000"
  shows "sq_lt_compare a b \<longleftrightarrow> a \<noteq> b" "sq_lte_compare a b"
    "\<not> sq_lt_compare b a" "sq_lte_compare b a \<longleftrightarrow> a = b"
proof -
  have bounds: "unat a < 2 ^ 32" "unat b < 2 ^ 32"
    using unsigned_less [of a] unsigned_less [of b] by simp_all
  have eq: "a = b \<longleftrightarrow> unat a = unat b" by (simp add: word_unat_eq_iff)
  note defs = sq_lt_compare_def sq_lte_compare_def rollover_defs word_less_nat_alt word_le_nat_alt
    unat_sub_cases eq
  show "sq_lt_compare a b \<longleftrightarrow> a \<noteq> b"
    using assms bounds by (auto simp: defs split: if_splits)
  show "sq_lte_compare a b"
    using assms bounds by (auto simp: defs split: if_splits)
  show "\<not> sq_lt_compare b a"
    using assms bounds by (auto simp: defs split: if_splits)
  show "sq_lte_compare b a \<longleftrightarrow> a = b"
    using assms bounds by (auto simp: defs split: if_splits)
qed

section \<open>Invariant and abstraction\<close>

text \<open>
  \<open>sq_off\<close> is the distance of a sequence number from the head of the window, \<open>sq_slot\<close> the
  array index that distance maps to. The queue is abstracted to the partial map from sequence
  numbers to items that it holds.
\<close>

definition sq_off :: "'a sq \<Rightarrow> u32 \<Rightarrow> nat" where
  "sq_off q s = unat (s - sq_head_seqid q)"

definition sq_len :: "'a sq \<Rightarrow> nat" where
  "sq_len q = unat (sq_size q)"

definition sq_slot :: "'a sq \<Rightarrow> nat \<Rightarrow> nat" where
  "sq_slot q k = (unat (sq_head q) + k) mod sq_len q"

definition sq_abs :: "'a sq \<Rightarrow> u32 \<rightharpoonup> 'a" where
  "sq_abs q s =
     (if sq_off q s < sq_len q \<and> sq_items_inuse q ! sq_slot q (sq_off q s) \<noteq> 0
      then Some (sq_items q ! sq_slot q (sq_off q s)) else None)"

definition sq_inv :: "'a sq \<Rightarrow> bool" where
  "sq_inv q \<longleftrightarrow>
     0 < sq_len q \<and> sq_len q \<le> 0x10000 \<and> sq_item_count q = sq_size q \<and>
     unat (sq_head q) < sq_len q \<and> unat (sq_pos_max q) < sq_len q \<and>
     length (sq_items q) = sq_len q \<and> length (sq_items_inuse q) = sq_len q \<and>
     length (sq_items_miss_count q) = sq_len q \<and>
     (\<forall>i. unat (sq_pos_max q) < i \<longrightarrow> i < sq_len q \<longrightarrow> sq_items_inuse q ! i = 0)"

lemma sq_invD:
  assumes "sq_inv q"
  shows "0 < sq_len q" "sq_len q \<le> 0x10000" "unat (sq_head q) < sq_len q"
    "length (sq_items q) = sq_len q" "length (sq_items_inuse q) = sq_len q"
    "length (sq_items_miss_count q) = sq_len q" "sq_size q \<noteq> 0"
  using assms by (auto simp: sq_inv_def sq_len_def)

lemma sq_slot_less: "sq_inv q \<Longrightarrow> sq_slot q k < sq_len q"
  by (simp add: sq_slot_def sq_inv_def)

lemma mod_add_wrap: "a < n \<Longrightarrow> i < n \<Longrightarrow> (a + i) mod n = (if a + i < n then a + i else a + i - n)"
  for a i n :: nat
  by (simp add: mod_if)

lemma sq_slot_eq:
  "sq_inv q \<Longrightarrow> k < sq_len q \<Longrightarrow>
   sq_slot q k = (if unat (sq_head q) + k < sq_len q then unat (sq_head q) + k
                  else unat (sq_head q) + k - sq_len q)"
  by (simp add: sq_slot_def sq_inv_def mod_add_wrap)

lemma sq_slot_inj:
  assumes "sq_inv q" "i < sq_len q" "j < sq_len q"
  shows "sq_slot q i = sq_slot q j \<longleftrightarrow> i = j"
  using assms sq_invD(3) [OF assms(1)] by (auto simp: sq_slot_eq split: if_splits)

lemma sq_off_inj: "sq_off q s = sq_off q t \<longleftrightarrow> s = t"
  by (simp add: sq_off_def word_unat_eq_iff [symmetric])

lemma sq_mod_off:
  assumes inv: "sq_inv q" and off: "sq_off q s < sq_len q"
    and x: "x = sq_head q + (s - sq_head_seqid q)"
  shows "\<exists>p. sq_mod q x = Inr p \<and> unat p = sq_slot q (sq_off q s)"
proof -
  have "unat (sq_head q) + unat (s - sq_head_seqid q) < 2 ^ 32"
    using inv off by (auto simp: sq_inv_def sq_off_def)
  then have "unat x = unat (sq_head q) + sq_off q s"
    by (simp add: x sq_off_def unat_add_lem [where 'a = 32, simplified])
  then show ?thesis using sq_invD(7) [OF inv]
    by (simp add: sq_mod_def unat_mod sq_slot_def sq_len_def)
qed

lemma slot_get_ok [simp]: "unat p < length xs \<Longrightarrow> slot_get xs p = Inr (xs ! unat p)"
  by (simp add: slot_get_def)

lemma slot_set_ok [simp]: "unat p < length xs \<Longrightarrow> slot_set xs p v = Inr (xs[unat p := v])"
  by (simp add: slot_set_def)

lemma sq_abs_outside: "\<not> sq_off q s < sq_len q \<Longrightarrow> sq_abs q s = None"
  by (simp add: sq_abs_def)

lemma sq_abs_eq_None:
  "sq_off q s < sq_len q \<Longrightarrow> sq_abs q s = None \<longleftrightarrow> sq_items_inuse q ! sq_slot q (sq_off q s) = 0"
  by (simp add: sq_abs_def)

section \<open>The operations on the window\<close>

lemma sq_in_range_off:
  assumes "sq_inv q"
  shows "sq_in_range q s \<longleftrightarrow> sq_off q s < sq_len q"
proof -
  have "unat (sq_size q) \<le> 0x10000" "0 < unat (sq_size q)"
    using assms by (simp_all add: sq_inv_def sq_len_def)
  moreover have "unat s < 2 ^ 32" "unat (sq_head_seqid q) < 2 ^ 32"
    using unsigned_less [of s] unsigned_less [of "sq_head_seqid q"] by simp_all
  ultimately show ?thesis
    by (auto simp: sq_in_range_def sq_off_def sq_len_def rollover_defs word_less_nat_alt
        word_le_nat_alt unat_sub_cases unat_plus_if' split: if_splits)
qed

lemma sq_item_inuse_ok:
  assumes "sq_inv q" "sq_off q s < sq_len q"
  shows "sq_item_inuse q s = Inr (sq_abs q s \<noteq> None)"
proof -
  obtain p where "sq_mod q (sq_head q - sq_head_seqid q + s) = Inr p"
    "unat p = sq_slot q (sq_off q s)"
    using sq_mod_off [OF assms, of "sq_head q - sq_head_seqid q + s"] by (auto simp: algebra_simps)
  then show ?thesis
    using assms sq_slot_less [OF assms(1)] sq_invD [OF assms(1)]
    by (simp add: sq_item_inuse_def sq_abs_eq_None)
qed

lemma sq_item_get_ok:
  assumes inv: "sq_inv q" and off: "sq_off q s < sq_len q"
  shows "sq_item_get q s =
    Inr (case sq_abs q s of None \<Rightarrow> (ENOENT, None) | Some x \<Rightarrow> (0, Some x))"
proof -
  have size: "unat (sq_size q) \<le> 0x10000" using inv by (simp add: sq_inv_def sq_len_def)
  have bounds: "unat s < 2 ^ 32" "unat (sq_head_seqid q) < 2 ^ 32"
    using unsigned_less [of s] unsigned_less [of "sq_head_seqid q"] by simp_all
  have a1: "s > ADJUST_ROLLOVER_POINT \<Longrightarrow>
      s - ADJUST_ROLLOVER_POINT < sq_head_seqid q - ADJUST_ROLLOVER_POINT + sq_size q"
    using off size bounds
    by (auto simp: sq_off_def sq_len_def rollover_defs word_less_nat_alt unat_sub_cases
        unat_plus_if' split: if_splits)
  have a2: "\<not> s > ADJUST_ROLLOVER_POINT \<Longrightarrow> s < sq_head_seqid q + sq_size q"
    using off size bounds
    by (auto simp: sq_off_def sq_len_def rollover_defs word_less_nat_alt unat_sub_cases
        unat_plus_if' split: if_splits)
  obtain p where p: "sq_mod q (sq_head q - sq_head_seqid q + s) = Inr p"
    "unat p = sq_slot q (sq_off q s)"
    using sq_mod_off [OF assms, of "sq_head q - sq_head_seqid q + s"] by (auto simp: algebra_simps)
  moreover have "sq_head q - ADJUST_ROLLOVER_VALUE - (sq_head_seqid q - ADJUST_ROLLOVER_VALUE) + s =
      sq_head q - sq_head_seqid q + s"
    by simp
  ultimately show ?thesis
    using a1 a2 off sq_slot_less [OF inv] sq_invD [OF inv]
    by (auto simp: sq_item_get_def sq_abs_def)
qed

lemma sq_item_add_eq:
  assumes inv: "sq_inv q" and off: "sq_off q s < sq_len q"
  shows "\<exists>p. unat p = sq_slot q (sq_off q s) \<and>
    sq_item_add q x s =
      (if sq_abs q s = None then
         Inr (q\<lparr>sq_pos_max := (if p > sq_pos_max q then p else sq_pos_max q),
                sq_items := (sq_items q)[unat p := x],
                sq_items_inuse := (sq_items_inuse q)[unat p := (if s = 0 then 1 else s)],
                sq_items_miss_count := (sq_items_miss_count q)[unat p := 0]\<rparr>)
       else Inl AssertFailed)"
proof -
  obtain p where "sq_mod q (sq_head q + s - sq_head_seqid q) = Inr p"
    "unat p = sq_slot q (sq_off q s)"
    using sq_mod_off [OF assms, of "sq_head q + s - sq_head_seqid q"] by (auto simp: algebra_simps)
  then show ?thesis
    using off sq_slot_less [OF inv] sq_invD [OF inv]
    by (intro exI [of _ p]) (simp add: sq_item_add_def Let_def sq_abs_eq_None)
qed

lemma sq_item_add_inv:
  assumes inv: "sq_inv q" and p: "unat p < sq_len q"
    and q': "q' = q\<lparr>sq_pos_max := (if p > sq_pos_max q then p else sq_pos_max q),
                    sq_items := its, sq_items_inuse := (sq_items_inuse q)[unat p := v],
                    sq_items_miss_count := mc\<rparr>"
    and len: "length its = sq_len q" "length mc = sq_len q"
  shows "sq_inv q'"
  using assms by (auto simp: sq_inv_def sq_len_def word_less_nat_alt nth_list_update split: if_splits)

lemma sq_item_add_ok:
  assumes inv: "sq_inv q" and off: "sq_off q s < sq_len q" and free: "sq_abs q s = None"
  shows "\<exists>q'. sq_item_add q x s = Inr q' \<and> sq_inv q' \<and> sq_abs q' = (sq_abs q)(s \<mapsto> x) \<and>
              sq_head_seqid q' = sq_head_seqid q \<and> sq_len q' = sq_len q"
proof -
  obtain p where p: "unat p = sq_slot q (sq_off q s)"
    and add: "sq_item_add q x s = (if sq_abs q s = None then
         Inr (q\<lparr>sq_pos_max := (if p > sq_pos_max q then p else sq_pos_max q),
                sq_items := (sq_items q)[unat p := x],
                sq_items_inuse := (sq_items_inuse q)[unat p := (if s = 0 then 1 else s)],
                sq_items_miss_count := (sq_items_miss_count q)[unat p := 0]\<rparr>)
       else Inl AssertFailed)"
    using sq_item_add_eq [OF inv off] by blast
  define q' where "q' = q\<lparr>sq_pos_max := (if p > sq_pos_max q then p else sq_pos_max q),
                sq_items := (sq_items q)[unat p := x],
                sq_items_inuse := (sq_items_inuse q)[unat p := (if s = 0 then 1 else s)],
                sq_items_miss_count := (sq_items_miss_count q)[unat p := 0]\<rparr>"
  have "sq_inv q'"
    using sq_invD [OF inv] sq_slot_less [OF inv] p
    by (intro sq_item_add_inv [OF inv _ q'_def]) auto
  moreover have "sq_abs q' = (sq_abs q)(s \<mapsto> x)"
  proof
    fix t
    have same: "sq_off q' u = sq_off q u" "sq_slot q' k = sq_slot q k" "sq_len q' = sq_len q" for u k
      by (simp_all add: q'_def sq_off_def sq_slot_def sq_len_def)
    let ?p = "sq_slot q (sq_off q s)" and ?v = "if s = 0 then 1 else s"
    have arr: "sq_items q' = (sq_items q)[?p := x]" "sq_items_inuse q' = (sq_items_inuse q)[?p := ?v]"
      by (simp_all add: q'_def p)
    show "sq_abs q' t = ((sq_abs q)(s \<mapsto> x)) t"
    proof (cases "t = s")
      case True
      have "?v \<noteq> 0" by simp
      then show ?thesis
        using True off sq_slot_less [OF inv] sq_invD(4,5) [OF inv] by (simp add: sq_abs_def same arr)
    next
      case False
      then have "sq_slot q (sq_off q t) \<noteq> ?p" if "sq_off q t < sq_len q"
        using sq_slot_inj [OF inv that off] by (simp add: sq_off_inj)
      then show ?thesis using False
        by (cases "sq_off q t < sq_len q") (simp_all add: sq_abs_def same arr nth_list_update_neq)
    qed
  qed
  ultimately show ?thesis
    using add free by (intro exI [of _ q']) (simp add: q'_def sq_len_def)
qed

lemma sq_item_add_inuse:
  assumes "sq_inv q" "sq_off q s < sq_len q" "sq_abs q s \<noteq> None"
  shows "sq_item_add q x s = Inl AssertFailed"
  using sq_item_add_eq [OF assms(1,2)] assms(3) by auto

section \<open>Releasing the head of the window\<close>

lemma memset0_ok:
  "i + n \<le> length xs \<Longrightarrow>
   \<exists>ys. memset0 i n xs = Inr ys \<and> length ys = length xs \<and>
        (\<forall>k < length xs. ys ! k = (if i \<le> k \<and> k < i + n then 0 else xs ! k))"
  by (auto simp: memset0_def nth_append min_def)

text \<open>
  Moving the head forward (\<open>1 \<le> n \<le> size\<close> slots): exactly the slots at distance at most
  \<open>sq_off q s\<close> from the old head are marked free, in both branches of the code.
\<close>

definition sq_released :: "'a sq \<Rightarrow> u32 \<Rightarrow> 'a sq \<Rightarrow> bool" where
  "sq_released q s q' \<longleftrightarrow>
     unat (sq_head q') = sq_slot q (Suc (sq_off q s)) \<and> sq_head_seqid q' = s + 1 \<and>
     sq_size q' = sq_size q \<and> sq_items q' = sq_items q \<and> sq_item_count q' = sq_item_count q \<and>
     sq_pos_max q' = sq_pos_max q \<and>
     length (sq_items_inuse q') = sq_len q \<and> length (sq_items_miss_count q') = sq_len q \<and>
     (\<forall>k < sq_len q. sq_items_inuse q' ! sq_slot q k =
        (if k \<le> sq_off q s then 0 else sq_items_inuse q ! sq_slot q k))"

lemma sq_release_head:
  assumes inv: "sq_inv q" and off: "sq_off q s < sq_len q"
  shows "unat (s - sq_head_seqid q + 1) = Suc (sq_off q s)"
    "unat (sq_head q + s - sq_head_seqid q + 1) = unat (sq_head q) + Suc (sq_off q s)"
    "\<exists>hd. sq_mod q (sq_head q + s - sq_head_seqid q + 1) = Inr hd \<and>
          unat hd = sq_slot q (Suc (sq_off q s))"
proof -
  note D = sq_invD [OF inv]
  show adv: "unat (s - sq_head_seqid q + 1) = Suc (sq_off q s)"
    using off D(2) by (simp add: sq_off_def unat_plus_if')
  have "sq_head q + s - sq_head_seqid q + 1 = sq_head q + (s - sq_head_seqid q + 1)"
    by simp
  then show sum: "unat (sq_head q + s - sq_head_seqid q + 1) = unat (sq_head q) + Suc (sq_off q s)"
    using adv off D(2,3) by (simp only: unat_plus_if') simp
  show "\<exists>hd. sq_mod q (sq_head q + s - sq_head_seqid q + 1) = Inr hd \<and>
          unat hd = sq_slot q (Suc (sq_off q s))"
    using sum D(7) by (simp add: sq_mod_def unat_mod sq_slot_def sq_len_def)
qed

lemma sq_items_release_wrap:
  assumes inv: "sq_inv q" and off: "sq_off q s < sq_len q"
    and wrap: "unat (sq_head q) + Suc (sq_off q s) > sq_len q"
  shows "\<exists>q'. sq_items_release q s = Inr q' \<and> sq_released q s q' \<and>
              sq_items_miss_count q' = sq_items_miss_count q"
proof -
  note D = sq_invD [OF inv] and sum = sq_release_head(2) [OF inv off]
  let ?h = "unat (sq_head q)" and ?n = "Suc (sq_off q s)"
  obtain hd where hd: "sq_mod q (sq_head q + s - sq_head_seqid q + 1) = Inr hd"
    "unat hd = sq_slot q ?n"
    using sq_release_head(3) [OF inv off] by blast
  have "(?h + ?n) mod sq_len q = (?h + ?n - sq_len q) mod sq_len q"
    using wrap by (simp add: le_mod_geq)
  then have hdn: "unat hd = ?h + ?n - sq_len q"
    using wrap off D(3) hd(2) by (simp add: sq_slot_def)
  have rest: "unat (sq_size q - sq_head q) = sq_len q - ?h"
    using D(3) by (simp add: sq_len_def unat_sub_cases)
  obtain u1 where u1: "memset0 ?h (sq_len q - ?h) (sq_items_inuse q) = Inr u1"
    "length u1 = sq_len q"
    "\<forall>k < sq_len q. u1 ! k = (if ?h \<le> k \<and> k < ?h + (sq_len q - ?h) then 0 else sq_items_inuse q ! k)"
    using memset0_ok [of ?h "sq_len q - ?h" "sq_items_inuse q"] D(3,5) by auto
  have "0 + unat hd \<le> length u1" using u1(2) hdn off D(3) by simp
  from memset0_ok [OF this] obtain u2 where u2: "memset0 0 (unat hd) u1 = Inr u2"
    "length u2 = sq_len q" "\<forall>k < sq_len q. u2 ! k = (if k < unat hd then 0 else u1 ! k)"
    using u1(2) by auto
  have "u2 ! sq_slot q k = (if k \<le> sq_off q s then 0 else sq_items_inuse q ! sq_slot q k)"
    if "k < sq_len q" for k
    using that u1(3) u2(3) hdn sq_slot_less [OF inv, of k] sq_slot_eq [OF inv that] D(3) wrap
    by (auto split: if_splits)
  moreover have "sq_items_release q s =
      Inr (q\<lparr>sq_head := hd, sq_items_inuse := u2, sq_head_seqid := s + 1\<rparr>)"
    using wrap sum hd(1) u1(1) u2(1) rest
    by (simp add: sq_items_release_def Let_def word_less_nat_alt sq_len_def)
  ultimately show ?thesis
    using u2(2) hd(2) D(6) by (simp add: sq_released_def)
qed

lemma sq_items_release_nowrap:
  assumes inv: "sq_inv q" and off: "sq_off q s < sq_len q"
    and nowrap: "unat (sq_head q) + Suc (sq_off q s) \<le> sq_len q"
  shows "\<exists>q'. sq_items_release q s = Inr q' \<and> sq_released q s q'"
proof -
  note D = sq_invD [OF inv] and head = sq_release_head [OF inv off]
  let ?h = "unat (sq_head q)" and ?n = "Suc (sq_off q s)"
  obtain hd where hd: "sq_mod q (sq_head q + s - sq_head_seqid q + 1) = Inr hd"
    "unat hd = sq_slot q ?n"
    using head(3) by blast
  obtain u where u: "memset0 ?h ?n (sq_items_inuse q) = Inr u" "length u = sq_len q"
    "\<forall>k < sq_len q. u ! k = (if ?h \<le> k \<and> k < ?h + ?n then 0 else sq_items_inuse q ! k)"
    using memset0_ok [of ?h ?n "sq_items_inuse q"] nowrap D(5) by auto
  obtain m where m: "memset0 ?h ?n (sq_items_miss_count q) = Inr m" "length m = sq_len q"
    using memset0_ok [of ?h ?n "sq_items_miss_count q"] nowrap D(6) by auto
  have "u ! sq_slot q k = (if k \<le> sq_off q s then 0 else sq_items_inuse q ! sq_slot q k)"
    if "k < sq_len q" for k
    using that u(3) sq_slot_less [OF inv, of k] sq_slot_eq [OF inv that] D(3) nowrap
    by (auto split: if_splits)
  moreover have "sq_items_release q s =
      Inr (q\<lparr>sq_head := hd, sq_items_inuse := u, sq_items_miss_count := m, sq_head_seqid := s + 1\<rparr>)"
    using nowrap head(1,2) hd(1) u(1) m(1)
    by (simp add: sq_items_release_def Let_def word_less_nat_alt sq_len_def)
  ultimately show ?thesis
    using u(2) m(2) hd(2) by (simp add: sq_released_def)
qed

lemma sq_released_inv:
  assumes inv: "sq_inv q" and off: "sq_off q s < sq_len q" and rel: "sq_released q s q'"
  shows "sq_inv q'"
proof -
  have len: "sq_len q' = sq_len q" using rel by (simp add: sq_released_def sq_len_def)
  have "sq_items_inuse q' ! i = 0" if i: "unat (sq_pos_max q) < i" "i < sq_len q" for i
  proof -
    obtain k where "k < sq_len q" "i = sq_slot q k"
    proof
      let ?k = "(if unat (sq_head q) \<le> i then i - unat (sq_head q)
                 else i + sq_len q - unat (sq_head q))"
      show "?k < sq_len q" using i sq_invD(3) [OF inv] by auto
      then show "i = sq_slot q ?k" using i sq_invD(3) [OF inv] by (auto simp: sq_slot_eq [OF inv])
    qed
    then show ?thesis using inv rel i by (simp add: sq_released_def sq_inv_def)
  qed
  then show ?thesis
    using inv rel sq_slot_less [OF inv] by (simp add: sq_inv_def len) (simp add: sq_released_def)
qed

lemma unat_sub_sub_1:
  fixes a b :: u32
  shows "unat (a - b - 1) = (if unat b < unat a then unat a - unat b - 1
                             else unat a + 2 ^ 32 - unat b - 1)"
  using unat_u32_less [of a] unat_u32_less [of b] by (auto simp: unat_sub_cases)

lemma sq_off_released:
  assumes "sq_released q s q'"
  shows "sq_off q' t = (if sq_off q s < sq_off q t then sq_off q t - sq_off q s - 1
                        else sq_off q t + 2 ^ 32 - sq_off q s - 1)"
proof -
  have "sq_head_seqid q' = s + 1" using assms by (simp add: sq_released_def)
  moreover have "t - (s + 1) = (t - sq_head_seqid q) - (s - sq_head_seqid q) - 1"
    by (simp add: algebra_simps)
  ultimately have "sq_off q' t = unat ((t - sq_head_seqid q) - (s - sq_head_seqid q) - 1)"
    by (simp only: sq_off_def)
  then show ?thesis
    by (simp only: unat_sub_sub_1 sq_off_def)
qed

text \<open>After the release the queue holds what it held beyond the released sequence number.\<close>

lemma sq_abs_released:
  assumes inv: "sq_inv q" and off: "sq_off q s < sq_len q" and rel: "sq_released q s q'"
  shows "sq_abs q' t = (if sq_off q t \<le> sq_off q s then None else sq_abs q t)"
proof -
  note D = sq_invD [OF inv] and offt = sq_off_released [OF rel, of t]
  have len: "sq_len q' = sq_len q" and items: "sq_items q' = sq_items q"
    using rel by (simp_all add: sq_released_def sq_len_def)
  show ?thesis
  proof (cases "sq_off q t \<le> sq_off q s")
    case True
    then have "\<not> sq_off q' t < sq_len q" using offt off D(2) by simp
    then show ?thesis using True by (simp add: sq_abs_def len)
  next
    case False
    let ?h = "unat (sq_head q)"
    have "sq_slot q' (sq_off q' t) =
        ((?h + Suc (sq_off q s)) mod sq_len q + (sq_off q t - sq_off q s - 1)) mod sq_len q"
      using False offt rel by (simp add: sq_released_def sq_slot_def len)
    also have "\<dots> = (?h + Suc (sq_off q s) + (sq_off q t - sq_off q s - 1)) mod sq_len q"
      by (rule mod_add_left_eq)
    also have "?h + Suc (sq_off q s) + (sq_off q t - sq_off q s - 1) = ?h + sq_off q t"
      using False by simp
    finally have slot: "sq_slot q' (sq_off q' t) = sq_slot q (sq_off q t)"
      by (simp add: sq_slot_def)
    show ?thesis
    proof (cases "sq_off q t < sq_len q")
      case True
      then have "sq_off q' t < sq_len q" using False offt by simp
      then show ?thesis using True False rel
        by (simp add: sq_abs_def len slot items) (simp add: sq_released_def)
    next
      case beyond: False
      have "sq_items_inuse q' ! sq_slot q' (sq_off q' t) = 0" if "sq_off q' t < sq_len q"
      proof -
        let ?k = "sq_off q t - sq_len q"
        have k: "?k < sq_len q" "?k \<le> sq_off q s" using that offt False beyond off by auto
        have "sq_slot q (sq_off q t) = sq_slot q ?k"
          using beyond by (simp add: sq_slot_def le_mod_geq [of "sq_len q" "unat (sq_head q) + sq_off q t"])
        then show ?thesis using k rel slot by (simp add: sq_released_def)
      qed
      then show ?thesis using beyond by (simp add: sq_abs_def len)
    qed
  qed
qed

lemma sq_items_release_ok:
  assumes inv: "sq_inv q" and off: "sq_off q s < sq_len q"
  shows "\<exists>q'. sq_items_release q s = Inr q' \<and> sq_inv q' \<and> sq_head_seqid q' = s + 1 \<and>
              sq_len q' = sq_len q \<and>
              sq_abs q' = (\<lambda>t. if sq_off q t \<le> sq_off q s then None else sq_abs q t)"
proof -
  obtain q' where q': "sq_items_release q s = Inr q'" "sq_released q s q'"
    using sq_items_release_wrap [OF inv off] sq_items_release_nowrap [OF inv off]
    by (meson not_le)
  then have "sq_abs q' = (\<lambda>t. if sq_off q t \<le> sq_off q s then None else sq_abs q t)"
    using sq_abs_released [OF inv off q'(2)] by blast
  with q' show ?thesis
    using sq_released_inv [OF inv off q'(2)] by (auto simp: sq_released_def sq_len_def)
qed

section \<open>Initialisation, reinitialisation and copy\<close>

lemma sq_reinit_ok:
  assumes "sq_inv q"
  shows "sq_inv (sq_reinit zero q h)" "sq_abs (sq_reinit zero q h) = Map.empty"
    "sq_head_seqid (sq_reinit zero q h) = h" "sq_len (sq_reinit zero q h) = sq_len q"
proof -
  show "sq_inv (sq_reinit zero q h)" "sq_head_seqid (sq_reinit zero q h) = h"
    "sq_len (sq_reinit zero q h) = sq_len q"
    using assms by (simp_all add: sq_reinit_def sq_inv_def sq_len_def)
  show "sq_abs (sq_reinit zero q h) = Map.empty"
    using assms sq_slot_less [OF \<open>sq_inv (sq_reinit zero q h)\<close>]
    by (auto simp: sq_abs_def sq_reinit_def sq_inv_def sq_len_def)
qed

lemma sq_init_ok:
  assumes "0 < n" "n \<le> 0x10000" "sq_init q zero n sz h True True True = (r, q')"
  shows "r = 0 \<and> sq_inv q' \<and> sq_abs q' = Map.empty \<and> sq_head_seqid q' = word_of_int h \<and>
         sq_len q' = nat n"
proof -
  have "unat (word_of_int n :: u32) = nat n"
    using assms(1,2) by (simp add: unsigned_of_int take_bit_int_eq_self)
  then have inv: "sq_inv q'" and len: "sq_len q' = nat n" and r: "r = 0" "sq_head_seqid q' = word_of_int h"
    and inuse: "sq_items_inuse q' = replicate (nat n) 0"
    using assms by (auto simp: sq_init_def sq_inv_def sq_len_def Let_def)
  have "sq_abs q' = Map.empty"
    using sq_slot_less [OF inv] by (auto simp: sq_abs_def inuse len)
  then show ?thesis using inv len r by simp
qed

lemma sq_copy_ok:
  assumes src: "sq_inv src" and dest: "sq_inv dest" and len: "sq_len dest = sq_len src"
  shows "\<exists>q. sq_copy dest src = Inr q \<and> sq_inv q \<and> sq_abs q = sq_abs src \<and>
             sq_head_seqid q = sq_head_seqid src \<and> sq_len q = sq_len src"
proof -
  have "unat (sq_pos_max src + 1) = Suc (unat (sq_pos_max src))"
    using src by (auto simp: sq_inv_def unat_plus_if')
  then have "sq_assert src = Inr ()"
    using src by (auto simp: sq_assert_def list_all_iff sq_inv_def sq_len_def assertE_def)
  then have "sq_copy dest src =
      Inr (dest\<lparr>sq_head := sq_head src, sq_size := sq_item_count src,
                sq_size_per_item := sq_size_per_item src, sq_head_seqid := sq_head_seqid src,
                sq_item_count := sq_item_count src, sq_pos_max := sq_pos_max src,
                sq_items := sq_items src, sq_items_inuse := sq_items_inuse src,
                sq_items_miss_count := sq_items_miss_count src\<rparr>)"
    using src dest len by (simp add: sq_copy_def memcpy_n_def sq_inv_def sq_len_def)
  then show ?thesis using src
    by (auto simp: sq_inv_def sq_len_def sq_abs_def sq_off_def sq_slot_def)
qed

lemma sq_item_miss_count_ok:
  assumes inv: "sq_inv q" and off: "sq_off q s < sq_len q"
  shows "\<exists>q'. sq_item_miss_count q s =
        Inr (sq_items_miss_count q ! sq_slot q (sq_off q s) + 1, q') \<and>
      sq_inv q' \<and> sq_abs q' = sq_abs q \<and> sq_head_seqid q' = sq_head_seqid q \<and> sq_len q' = sq_len q"
proof -
  obtain p where "sq_mod q (sq_head q - sq_head_seqid q + s) = Inr p"
    "unat p = sq_slot q (sq_off q s)"
    using sq_mod_off [OF assms, of "sq_head q - sq_head_seqid q + s"] by (auto simp: algebra_simps)
  then show ?thesis
    using inv sq_slot_less [OF inv] sq_invD [OF inv]
    by (auto simp: sq_item_miss_count_def sq_inv_def sq_len_def sq_abs_def sq_off_def sq_slot_def)
qed

section \<open>The sequence window interface\<close>

text \<open>
  What the receiving side of \<^verbatim>\<open>totemsrp.c\<close> relies on. \<open>window_accept\<close> is the use that
  \<open>message_handler_mcast\<close> makes of the queue: a message is stored when its number lies in the
  window and its slot is not in use, and dropped otherwise; \<open>window_accept_all\<close> is a sequence
  of receptions, in any order and with duplicates.
\<close>

definition window_accept ::
  "('q \<Rightarrow> u32 \<Rightarrow> bool) \<Rightarrow> ('q \<Rightarrow> u32 \<Rightarrow> bool c_result) \<Rightarrow> ('q \<Rightarrow> 'a \<Rightarrow> u32 \<Rightarrow> 'q c_result) \<Rightarrow>
   'q \<Rightarrow> u32 \<times> 'a \<Rightarrow> 'q c_result" where
  "window_accept in_range inuse add q m =
     (if in_range q (fst m)
      then bindE (inuse q (fst m)) (\<lambda>u. if u then Inr q else add q (snd m) (fst m))
      else Inr q)"

primrec window_accept_all ::
  "('q \<Rightarrow> u32 \<Rightarrow> bool) \<Rightarrow> ('q \<Rightarrow> u32 \<Rightarrow> bool c_result) \<Rightarrow> ('q \<Rightarrow> 'a \<Rightarrow> u32 \<Rightarrow> 'q c_result) \<Rightarrow>
   'q \<Rightarrow> (u32 \<times> 'a) list \<Rightarrow> 'q c_result" where
  "window_accept_all in_range inuse add q [] = Inr q"
| "window_accept_all in_range inuse add q (m # ms) =
     bindE (window_accept in_range inuse add q m) (\<lambda>q'. window_accept_all in_range inuse add q' ms)"

locale seq_window =
  fixes in_range :: "'q \<Rightarrow> u32 \<Rightarrow> bool"
    and inuse :: "'q \<Rightarrow> u32 \<Rightarrow> bool c_result"
    and add :: "'q \<Rightarrow> 'a \<Rightarrow> u32 \<Rightarrow> 'q c_result"
    and get :: "'q \<Rightarrow> u32 \<Rightarrow> (int \<times> 'a option) c_result"
    and held :: "'q \<Rightarrow> u32 \<rightharpoonup> 'a"
    and invar :: "'q \<Rightarrow> bool"
  assumes inuse_ok: "invar q \<Longrightarrow> in_range q s \<Longrightarrow> inuse q s = Inr (held q s \<noteq> None)"
    and add_ok: "invar q \<Longrightarrow> in_range q s \<Longrightarrow> held q s = None \<Longrightarrow>
      \<exists>q'. add q x s = Inr q' \<and> invar q' \<and> held q' = (held q)(s \<mapsto> x) \<and> in_range q' = in_range q"
    and get_ok: "invar q \<Longrightarrow> in_range q s \<Longrightarrow>
      get q s = Inr (case held q s of None \<Rightarrow> (ENOENT, None) | Some x \<Rightarrow> (0, Some x))"
    and held_outside: "invar q \<Longrightarrow> \<not> in_range q s \<Longrightarrow> held q s = None"
begin

lemma accept_ok:
  assumes "invar q"
  shows "\<exists>q'. window_accept in_range inuse add q m = Inr q' \<and> invar q' \<and> in_range q' = in_range q \<and>
    held q' = (if in_range q (fst m) \<and> held q (fst m) = None
               then (held q)(fst m \<mapsto> snd m) else held q)"
proof (cases "in_range q (fst m) \<and> held q (fst m) = None")
  case True
  then show ?thesis
    using add_ok [of q "fst m" "snd m"] assms by (auto simp: window_accept_def inuse_ok)
next
  case False
  then show ?thesis using assms by (auto simp: window_accept_def inuse_ok)
qed

lemma accept_all_ok:
  "invar q \<Longrightarrow>
   \<exists>q'. window_accept_all in_range inuse add q ms = Inr q' \<and> invar q' \<and> in_range q' = in_range q \<and>
        (\<forall>s. held q' s = (if in_range q s then (map_of ms ++ held q) s else None))"
proof (induction ms arbitrary: q)
  case Nil
  then show ?case using held_outside by auto
next
  case (Cons m ms)
  obtain q1 where q1: "window_accept in_range inuse add q m = Inr q1" "invar q1"
    "in_range q1 = in_range q"
    "held q1 = (if in_range q (fst m) \<and> held q (fst m) = None
                then (held q)(fst m \<mapsto> snd m) else held q)"
    using accept_ok [OF Cons.prems, of m] by blast
  obtain q2 where q2: "window_accept_all in_range inuse add q1 ms = Inr q2" "invar q2"
    "in_range q2 = in_range q1"
    "\<And>s. held q2 s = (if in_range q1 s then (map_of ms ++ held q1) s else None)"
    using Cons.IH [OF q1(2)] by blast
  have "held q2 s = (if in_range q s then (map_of (m # ms) ++ held q) s else None)" for s
    by (cases m) (auto simp: q2(4) q1(3,4) map_add_def split: option.splits)
  then show ?case using q1 q2 by simp
qed

lemma accept_all_get:
  assumes "invar q" "\<And>s. held q s = None" "in_range q s"
  shows "\<exists>q'. window_accept_all in_range inuse add q ms = Inr q' \<and>
    get q' s = Inr (case map_of ms s of None \<Rightarrow> (ENOENT, None) | Some x \<Rightarrow> (0, Some x))"
proof -
  obtain q' where "window_accept_all in_range inuse add q ms = Inr q'" "invar q'"
    "in_range q' = in_range q"
    "\<And>s. held q' s = (if in_range q s then (map_of ms ++ held q) s else None)"
    using accept_all_ok [OF assms(1)] by blast
  then show ?thesis using assms get_ok [of q' s] by (simp add: map_add_def)
qed

end

interpretation sort_q: seq_window sq_in_range sq_item_inuse sq_item_add sq_item_get sq_abs sq_inv
proof
  fix q :: "'a sq" and s :: u32 and x :: 'a
  assume inv: "sq_inv q"
  show "sq_item_inuse q s = Inr (sq_abs q s \<noteq> None)" if "sq_in_range q s"
    using that inv by (simp add: sq_in_range_off sq_item_inuse_ok)
  show "sq_item_get q s =
      Inr (case sq_abs q s of None \<Rightarrow> (ENOENT, None) | Some x \<Rightarrow> (0, Some x))" if "sq_in_range q s"
    using that inv by (simp add: sq_in_range_off sq_item_get_ok)
  show "sq_abs q s = None" if "\<not> sq_in_range q s"
    using that inv by (simp add: sq_in_range_off sq_abs_outside)
  assume "sq_in_range q s" "sq_abs q s = None"
  then obtain q' where q': "sq_item_add q x s = Inr q'" "sq_inv q'" "sq_abs q' = (sq_abs q)(s \<mapsto> x)"
    "sq_head_seqid q' = sq_head_seqid q" "sq_len q' = sq_len q"
    using sq_item_add_ok [OF inv] inv by (auto simp: sq_in_range_off)
  then have "sq_in_range q' = sq_in_range q"
    using inv by (auto simp: sq_in_range_off sq_off_def)
  with q' show "\<exists>q'. sq_item_add q x s = Inr q' \<and> sq_inv q' \<and>
      sq_abs q' = (sq_abs q)(s \<mapsto> x) \<and> sq_in_range q' = sq_in_range q"
    by blast
qed

section \<open>Properties\<close>

text \<open>(C21) Sequence numbers less than \<open>0x10000\<close> apart are ordered by \<open>sq_lt_compare\<close> and
\<open>sq_lte_compare\<close> as they follow each other on the ring of 32-bit numbers, whether or not the
rollover lies between them.\<close>

theorem sq_compare_circular:
  fixes a :: u32
  assumes "k < 0x10000"
  shows "(sq_lt_compare a (a + of_nat k) \<longleftrightarrow> k \<noteq> 0) \<and> sq_lte_compare a (a + of_nat k) \<and>
    \<not> sq_lt_compare (a + of_nat k) a \<and> (sq_lte_compare (a + of_nat k) a \<longleftrightarrow> k = 0)"
proof -
  have k: "unat (of_nat k :: u32) = k" using assms by (simp add: unsigned_of_nat take_bit_nat_eq_self)
  then have near: "unat ((a + of_nat k) - a) < 0x10000" using assms by simp
  have "of_nat k = (0 :: u32) \<longleftrightarrow> k = 0" using k by auto
  then have "a = a + of_nat k \<longleftrightarrow> k = 0" by simp
  then show ?thesis using sq_compare_near [OF near] by auto
qed

theorem sq_compare_circular_witness:
  "sq_lt_compare 0xFFFFFFFF (0xFFFFFFFF + of_nat 3) \<and> \<not> sq_lt_compare (0xFFFFFFFF + of_nat 3) 0xFFFFFFFF"
  using sq_compare_circular [of 3 "0xFFFFFFFF"] by simp

text \<open>(C19) Receiving any sequence of messages into a fresh window, in any order, with duplicates
and with numbers outside the window, never aborts; afterwards \<open>sq_item_get\<close> finds for every
number of the window the first message received with it, and reports \<open>ENOENT\<close> when there is
none.\<close>

theorem sq_receive_any_order:
  assumes "0 < n" "n \<le> 0x10000" "sq_init q zero n sz h True True True = (r, q0)" "sq_in_range q0 s"
  shows "\<exists>q'. window_accept_all sq_in_range sq_item_inuse sq_item_add q0 ms = Inr q' \<and>
    sq_item_get q' s = Inr (case map_of ms s of None \<Rightarrow> (ENOENT, None) | Some x \<Rightarrow> (0, Some x))"
  using sq_init_ok [OF assms(1-3)] assms(4) by (intro sort_q.accept_all_get) auto

definition zero_sq :: "nat sq" where
  "zero_sq = \<lparr>sq_head = 0, sq_size = 0, sq_items = [], sq_items_inuse = [], sq_items_miss_count = [],
     sq_size_per_item = 0, sq_head_seqid = 0, sq_item_count = 0, sq_pos_max = 0\<rparr>"

theorem sq_receive_any_order_witness:
  "\<exists>q'. window_accept_all sq_in_range sq_item_inuse sq_item_add
      (snd (sq_init zero_sq 0 4 1 (- 2) True True True)) [(1, 30), (0xFFFFFFFF, 10), (1, 31), (9, 40)]
        = Inr q' \<and> sq_item_get q' 1 = Inr (0, Some 30)"
  using sq_receive_any_order [of 4 zero_sq 0 1 "- 2"
      "fst (sq_init zero_sq 0 4 1 (- 2) True True True)"
      "snd (sq_init zero_sq 0 4 1 (- 2) True True True)" 1
      "[(1, 30), (0xFFFFFFFF, 10), (1, 31), (9, 40)]"]
  by (simp add: sq_init_def sq_in_range_def ADJUST_ROLLOVER_POINT_def ADJUST_ROLLOVER_VALUE_def)

text \<open>(C22) \<open>sq_in_range\<close> accepts exactly the \<open>size\<close> numbers that follow the head of the window,
also when the window spans the rollover.\<close>

theorem sq_in_range_window:
  assumes "sq_inv q"
  shows "sq_in_range q s \<longleftrightarrow> unat (s - sq_head_seqid q) < unat (sq_size q)"
  using sq_in_range_off [OF assms] by (simp add: sq_off_def sq_len_def)

definition sq_rollover :: "nat sq" where
  "sq_rollover = \<lparr>sq_head = 1, sq_size = 4, sq_items = [30, 0, 10, 20], sq_items_inuse = [1, 0, 0xFFFFFFFF, 1],
     sq_items_miss_count = [0, 2, 0, 0], sq_size_per_item = 1, sq_head_seqid = 0xFFFFFFFE,
     sq_item_count = 4, sq_pos_max = 3\<rparr>"

lemma sq_rollover_inv: "sq_inv sq_rollover"
  by (auto simp: sq_inv_def sq_len_def sq_rollover_def)

theorem sq_in_range_window_witness:
  "sq_in_range sq_rollover 1 \<and> \<not> sq_in_range sq_rollover 2 \<and> sq_in_range sq_rollover 0xFFFFFFFE"
  using sq_in_range_window [OF sq_rollover_inv, of 1] sq_in_range_window [OF sq_rollover_inv, of 2]
    sq_in_range_window [OF sq_rollover_inv, of "0xFFFFFFFE"]
  by (simp add: sq_rollover_def)

text \<open>(C20) Releasing the messages up to a number of the window never aborts, keeps the queue
well-formed, moves the window right behind that number, forgets the messages up to it and keeps
every other message under its number.\<close>

theorem sq_items_release_window:
  assumes "sq_inv q" "sq_in_range q s"
  shows "\<exists>q'. sq_items_release q s = Inr q' \<and> sq_inv q' \<and> sq_head_seqid q' = s + 1 \<and>
      sq_size q' = sq_size q \<and>
      sq_abs q' = (\<lambda>t. if unat (t - sq_head_seqid q) \<le> unat (s - sq_head_seqid q) then None
                       else sq_abs q t)"
proof -
  obtain q' where q': "sq_items_release q s = Inr q'" "sq_inv q'" "sq_head_seqid q' = s + 1"
    "sq_len q' = sq_len q" "sq_abs q' = (\<lambda>t. if sq_off q t \<le> sq_off q s then None else sq_abs q t)"
    using sq_items_release_ok [OF assms(1)] assms sq_in_range_off by blast
  moreover have "sq_size q' = sq_size q"
    using q'(4) by (simp add: sq_len_def word_unat_eq_iff)
  ultimately show ?thesis by (auto simp: sq_off_def)
qed

theorem sq_items_release_window_witness:
  "\<exists>q'. sq_items_release sq_rollover 0 = Inr q' \<and> sq_head_seqid q' = 1 \<and>
        sq_abs q' 1 = Some 30 \<and> sq_abs q' 0 = None"
proof -
  have "sq_in_range sq_rollover 0" "sq_abs sq_rollover 1 = Some 30"
    "unat (1 - sq_head_seqid sq_rollover) = 3" "unat (0 - sq_head_seqid sq_rollover) = 2"
    by (simp_all add: sq_in_range_off [OF sq_rollover_inv])
       (simp_all add: sq_rollover_def sq_abs_def sq_off_def sq_len_def sq_slot_def)
  then show ?thesis using sq_items_release_window [OF sq_rollover_inv, of 0] by auto
qed

text \<open>(C25) Copying a well-formed sort queue onto one of the same size never trips the
\<open>sq_assert\<close> check and yields a queue with the same window and the same messages.\<close>

theorem sq_copy_same:
  assumes "sq_inv src" "sq_inv dest" "sq_size dest = sq_size src"
  shows "\<exists>q. sq_copy dest src = Inr q \<and> sq_inv q \<and> sq_abs q = sq_abs src \<and>
    sq_head_seqid q = sq_head_seqid src \<and> sq_size q = sq_size src"
proof -
  obtain q where "sq_copy dest src = Inr q" "sq_inv q" "sq_abs q = sq_abs src"
    "sq_head_seqid q = sq_head_seqid src" "sq_len q = sq_len src"
    using sq_copy_ok [OF assms(1,2)] assms(3) by (auto simp: sq_len_def)
  then show ?thesis by (auto simp: sq_len_def word_unat_eq_iff)
qed

theorem sq_copy_same_witness:
  "\<exists>q. sq_copy (sq_reinit 0 sq_rollover 5) sq_rollover = Inr q \<and> sq_abs q = sq_abs sq_rollover"
  using sq_copy_same [OF sq_rollover_inv sq_reinit_ok(1) [OF sq_rollover_inv, of 0 5]]
  by (auto simp: sq_reinit_def)

end
