(* ===== verification/Srp_Types.thy ===== *)
theory Srp_Types
  imports Cs_Queue Sort_Queue Swab
begin

text \<open>
  The data of the totem single ring protocol (\<^verbatim>\<open>exec/totemsrp.c\<close>, \<^verbatim>\<open>totem.h\<close>): addresses, ring
  identifiers and the six messages of the protocol, one record per packed structure. A
  flexible array at the end of a message is a list, whose length is the count the message
  carries; a field of type \<^verbatim>\<open>int\<close> is kept as its bit pattern and read with \<open>sint\<close>; the bytes an \<^verbatim>\<open>mcast\<close> carries are its
  \<open>body\<close>, either application data or, for a message copied during recovery, the whole message
  that is being recovered.
\<close>

section \<open>Constants\<close>

definition QUEUE_RTR_ITEMS_SIZE_MAX :: nat where
  "QUEUE_RTR_ITEMS_SIZE_MAX = 16384"

definition RETRANS_MESSAGE_QUEUE_SIZE_MAX :: nat where
  "RETRANS_MESSAGE_QUEUE_SIZE_MAX = 16384"

definition RETRANSMIT_ENTRIES_MAX :: nat where
  "RETRANSMIT_ENTRIES_MAX = 30"

definition TOKEN_SIZE_MAX :: nat where
  "TOKEN_SIZE_MAX = 64000"

definition LEAVE_DUMMY_NODEID :: u32 where
  "LEAVE_DUMMY_NODEID = 0"

definition SEQNO_START_MSG :: u32 where
  "SEQNO_START_MSG = 0"

definition SEQNO_START_TOKEN :: u32 where
  "SEQNO_START_TOKEN = 0"

definition TOTEM_MH_MAGIC :: u16 where
  "TOTEM_MH_MAGIC = 0xC070"

definition TOTEM_MH_VERSION :: u8 where
  "TOTEM_MH_VERSION = 3"

section \<open>Addresses and ring identifiers\<close>

datatype srp_addr = Srp_addr (nodeid: u32)

text \<open>Addresses are ordered by the comparison that \<^verbatim>\<open>qsort\<close> is called with.\<close>

definition srp_addr_compare :: "srp_addr \<Rightarrow> srp_addr \<Rightarrow> int" where
  "srp_addr_compare a b =
     (if nodeid a < nodeid b then - 1 else if nodeid a > nodeid b then 1 else 0)"

instantiation srp_addr :: linorder
begin

definition less_eq_srp_addr :: "srp_addr \<Rightarrow> srp_addr \<Rightarrow> bool" where
  "less_eq_srp_addr a b \<longleftrightarrow> srp_addr_compare a b \<le> 0"

definition less_srp_addr :: "srp_addr \<Rightarrow> srp_addr \<Rightarrow> bool" where
  "less_srp_addr a b \<longleftrightarrow> srp_addr_compare a b < 0"

instance
  by standard (auto simp: less_eq_srp_addr_def less_srp_addr_def srp_addr_compare_def
    intro: srp_addr.expand split: if_splits)

end

definition srp_addr_equal :: "srp_addr \<Rightarrow> srp_addr \<Rightarrow> bool" where
  "srp_addr_equal a b \<longleftrightarrow> nodeid a = nodeid b"

lemma srp_addr_equal_eq [simp]: "srp_addr_equal a b \<longleftrightarrow> a = b"
  by (auto simp: srp_addr_equal_def intro: srp_addr.expand)

definition srp_addr_to_nodeid :: "srp_addr list \<Rightarrow> u32 list" where
  "srp_addr_to_nodeid srp_addr_in = map nodeid srp_addr_in"

record totem_ring_id =
  rep :: u32
  ring_seq :: u64

section \<open>Messages\<close>

datatype message_type =
    MESSAGE_TYPE_ORF_TOKEN | MESSAGE_TYPE_MCAST | MESSAGE_TYPE_MEMB_MERGE_DETECT
  | MESSAGE_TYPE_MEMB_JOIN | MESSAGE_TYPE_MEMB_COMMIT_TOKEN | MESSAGE_TYPE_TOKEN_HOLD_CANCEL

datatype encapsulation_type = MESSAGE_ENCAPSULATED | MESSAGE_NOT_ENCAPSULATED

record totem_message_header =
  magic :: u16
  version :: u8
  msg_type :: u8
  encapsulated :: u8
  hdr_nodeid :: u32
  target_nodeid :: u32

definition type_code :: "message_type \<Rightarrow> u8" where
  "type_code t =
     (case t of
        MESSAGE_TYPE_ORF_TOKEN \<Rightarrow> 0 | MESSAGE_TYPE_MCAST \<Rightarrow> 1 | MESSAGE_TYPE_MEMB_MERGE_DETECT \<Rightarrow> 2
      | MESSAGE_TYPE_MEMB_JOIN \<Rightarrow> 3 | MESSAGE_TYPE_MEMB_COMMIT_TOKEN \<Rightarrow> 4
      | MESSAGE_TYPE_TOKEN_HOLD_CANCEL \<Rightarrow> 5)"

definition encap_code :: "encapsulation_type \<Rightarrow> u8" where
  "encap_code e = (case e of MESSAGE_ENCAPSULATED \<Rightarrow> 1 | MESSAGE_NOT_ENCAPSULATED \<Rightarrow> 2)"

text \<open>A message of the ring; \<open>mc_encapsulated\<close> reads the flag of the header.\<close>

datatype mcast =
  Mcast (mc_header: totem_message_header) (system_from: srp_addr) (mc_seq: u32)
    (this_seqno: u32) (mc_ring_id: totem_ring_id) (node_id: u32) (guarantee: u32)
    (body: mcast_body)
and mcast_body =
    Data "u8 list"
  | Inner mcast

definition mc_encapsulated :: "mcast \<Rightarrow> bool" where
  "mc_encapsulated m \<longleftrightarrow> encapsulated (mc_header m) = encap_code MESSAGE_ENCAPSULATED"

record rtr_item =
  rtr_ring_id :: totem_ring_id
  rtr_seq :: u32

record orf_token =
  tok_header :: totem_message_header
  tok_seq :: u32
  tok_token_seq :: u32
  tok_aru :: u32
  aru_addr :: u32
  tok_ring_id :: totem_ring_id
  backlog :: u32
  fcc :: u32
  tok_retrans_flg :: u32
  rtr_list_entries :: u32
  rtr_list :: "rtr_item list"

record memb_join =
  mj_header :: totem_message_header
  mj_system_from :: srp_addr
  mj_ring_seq :: u64
  proc_list :: "srp_addr list"
  failed_list :: "srp_addr list"

record memb_merge_detect =
  md_header :: totem_message_header
  md_system_from :: srp_addr
  md_ring_id :: totem_ring_id

record token_hold_cancel =
  thc_header :: totem_message_header
  thc_ring_id :: totem_ring_id

record memb_commit_token_memb_entry =
  me_ring_id :: totem_ring_id
  me_aru :: u32
  me_high_delivered :: u32
  me_received_flg :: u32

record memb_commit_token =
  ct_header :: totem_message_header
  ct_token_seq :: u32
  ct_ring_id :: totem_ring_id
  ct_retrans_flg :: u32
  memb_index :: u32
  ct_addr :: "srp_addr list"
  memb_list :: "memb_commit_token_memb_entry list"

text \<open>The items of the message queues and of the sort queues.\<close>

record message_item =
  mi_mcast :: mcast
  mi_msg_len :: u32

type_synonym sort_queue_item = message_item

text \<open>
  A message as it travels, read according to the type in its header. The two tokens are sent to
  the next processor of the ring, the other messages to all.
\<close>

datatype srp_multicast =
    Mcast_msg mcast
  | Merge_detect memb_merge_detect
  | Join memb_join
  | Hold_cancel token_hold_cancel

datatype srp_msg =
    Orf_token orf_token
  | Commit_token memb_commit_token
  | Multicast srp_multicast
  | Unknown_type totem_message_header

end
