(* ===== verification/Srp_Memb.thy ===== *)
theory Srp_Memb
  imports Srp_Types
begin

text \<open>
  The set operations of the membership algorithm (\<^verbatim>\<open>totemsrp.c\<close>): processor sets are arrays
  without an order, searched linearly. The inner loop of each operation, which looks for an
  address in an array, is \<open>addr_found\<close>. The locale \<open>array_sets\<close> states what the algorithm
  relies on: each operation computes the operation of set theory of its name. The arrays of the
  instance have \<open>PROCESSOR_COUNT_MAX\<close> elements; \<open>memb_set_merge\<close> does not look at that bound,
  so the model reports the write past the end.
\<close>

section \<open>Operations\<close>

fun addr_found :: "srp_addr \<Rightarrow> srp_addr list \<Rightarrow> bool" where
  "addr_found a [] = False"
| "addr_found a (b # bs) = (if srp_addr_equal a b then True else addr_found a bs)"

fun memb_set_subtract :: "srp_addr list \<Rightarrow> srp_addr list \<Rightarrow> srp_addr list" where
  "memb_set_subtract [] two_list = []"
| "memb_set_subtract (a # one_list) two_list =
     (if addr_found a two_list then memb_set_subtract one_list two_list
      else a # memb_set_subtract one_list two_list)"

fun memb_all_found :: "srp_addr list \<Rightarrow> srp_addr list \<Rightarrow> bool" where
  "memb_all_found [] full = True"
| "memb_all_found (a # sub) full = (if \<not> addr_found a full then False else memb_all_found sub full)"

definition memb_set_equal :: "srp_addr list \<Rightarrow> srp_addr list \<Rightarrow> bool" where
  "memb_set_equal set1 set2 = (if length set1 \<noteq> length set2 then False else memb_all_found set2 set1)"

definition memb_set_subset :: "srp_addr list \<Rightarrow> srp_addr list \<Rightarrow> bool" where
  "memb_set_subset sub fullset =
     (if length sub > length fullset then False else memb_all_found sub fullset)"

text \<open>One element of \<open>fullset\<close> is written per new address, at index \<open>*fullset_entries\<close>.\<close>

fun memb_set_merge :: "srp_addr list \<Rightarrow> srp_addr list \<Rightarrow> srp_addr list c_result" where
  "memb_set_merge [] fullset = Inr fullset"
| "memb_set_merge (a # sub) fullset =
     (if addr_found a fullset then memb_set_merge sub fullset
      else if length fullset < PROCESSOR_COUNT_MAX then memb_set_merge sub (fullset @ [a])
      else Inl OutOfBounds)"

text \<open>The index of the first equal address, where the inner loop breaks.\<close>

fun first_index :: "srp_addr \<Rightarrow> srp_addr list \<Rightarrow> nat option" where
  "first_index a [] = None"
| "first_index a (b # bs) = (if srp_addr_equal b a then Some 0 else map_option Suc (first_index a bs))"

fun memb_set_and_with_ring_id ::
  "srp_addr list \<Rightarrow> totem_ring_id list \<Rightarrow> srp_addr list \<Rightarrow> totem_ring_id \<Rightarrow> srp_addr list" where
  "memb_set_and_with_ring_id set1 set1_ring_ids [] old_ring_id = []"
| "memb_set_and_with_ring_id set1 set1_ring_ids (a # set2) old_ring_id =
     (case first_index a set1 of
        None \<Rightarrow> memb_set_and_with_ring_id set1 set1_ring_ids set2 old_ring_id
      | Some j \<Rightarrow>
          if set1_ring_ids ! j = old_ring_id
          then set1 ! j # memb_set_and_with_ring_id set1 set1_ring_ids set2 old_ring_id
          else memb_set_and_with_ring_id set1 set1_ring_ids set2 old_ring_id)"

section \<open>What the operations compute\<close>

lemma addr_found_iff [simp]: "addr_found a xs \<longleftrightarrow> a \<in> set xs"
  by (induction xs) auto

lemma memb_set_subtract_filter: "memb_set_subtract xs ys = filter (\<lambda>a. a \<notin> set ys) xs"
  by (induction xs) auto

lemma memb_all_found_iff [simp]: "memb_all_found xs ys \<longleftrightarrow> set xs \<subseteq> set ys"
  by (induction xs) auto

lemma set_memb_set_subtract [simp]: "set (memb_set_subtract xs ys) = set xs - set ys"
  by (auto simp: memb_set_subtract_filter)

lemma distinct_memb_set_subtract [simp]: "distinct xs \<Longrightarrow> distinct (memb_set_subtract xs ys)"
  by (simp add: memb_set_subtract_filter)

lemma length_memb_set_subtract: "length (memb_set_subtract xs ys) \<le> length xs"
  by (simp add: memb_set_subtract_filter)

lemma memb_set_equal_iff:
  assumes "distinct xs" "distinct ys"
  shows "memb_set_equal xs ys \<longleftrightarrow> set xs = set ys"
  using assms
  by (auto simp: memb_set_equal_def distinct_card [symmetric] dest: card_subset_eq [rotated])

lemma memb_set_subset_iff:
  assumes "distinct xs" "distinct ys"
  shows "memb_set_subset xs ys \<longleftrightarrow> set xs \<subseteq> set ys"
  using assms card_mono [of "set ys" "set xs"]
  by (auto simp: memb_set_subset_def distinct_card [symmetric])

text \<open>The merge appends the new addresses; it overruns exactly when they do not fit.\<close>

lemma memb_set_merge_Inr:
  "memb_set_merge xs ys = Inr zs \<Longrightarrow>
     set zs = set xs \<union> set ys \<and> (distinct ys \<longrightarrow> distinct zs) \<and>
     (length ys \<le> PROCESSOR_COUNT_MAX \<longrightarrow> length zs \<le> PROCESSOR_COUNT_MAX)"
  by (induction xs ys rule: memb_set_merge.induct) (auto split: if_splits)

lemma memb_set_merge_returns:
  "distinct ys \<Longrightarrow> length ys \<le> PROCESSOR_COUNT_MAX \<Longrightarrow>
   card (set xs \<union> set ys) \<le> PROCESSOR_COUNT_MAX \<Longrightarrow> \<exists>zs. memb_set_merge xs ys = Inr zs"
proof (induction xs ys rule: memb_set_merge.induct)
  case (2 a xs ys)
  show ?case
  proof (cases "a \<in> set ys")
    case True
    then show ?thesis using 2 by (simp add: insert_absorb)
  next
    case False
    have "Suc (length ys) = card (insert a (set ys))"
      using False 2(3) by (simp add: distinct_card)
    also have "\<dots> \<le> card (set (a # xs) \<union> set ys)" by (rule card_mono) auto
    finally show ?thesis using 2 False by simp
  qed
qed simp

lemma memb_set_merge_overrun:
  assumes "distinct ys" "length ys \<le> PROCESSOR_COUNT_MAX"
    "PROCESSOR_COUNT_MAX < card (set xs \<union> set ys)"
  shows "memb_set_merge xs ys = Inl OutOfBounds"
proof (cases "memb_set_merge xs ys")
  case (Inl e)
  then show ?thesis by (induction xs ys rule: memb_set_merge.induct) (auto split: if_splits)
next
  case (Inr zs)
  then show ?thesis
    using memb_set_merge_Inr [OF Inr] assms distinct_card [of zs] by auto
qed

lemma memb_set_merge_subset [simp]: "set xs \<subseteq> set ys \<Longrightarrow> memb_set_merge xs ys = Inr ys"
  by (induction xs) auto

lemma memb_set_merge_single [simp]:
  "length ys < PROCESSOR_COUNT_MAX \<Longrightarrow>
   memb_set_merge [a] ys = Inr (if a \<in> set ys then ys else ys @ [a])"
  by simp

lemma first_index_Some:
  "first_index a xs = Some j \<Longrightarrow> j < length xs \<and> xs ! j = a"
  by (induction xs arbitrary: j) (auto split: if_splits)

lemma first_index_None [simp]: "first_index a xs = None \<longleftrightarrow> a \<notin> set xs"
  by (induction xs) auto

lemma first_index_nth: "distinct xs \<Longrightarrow> j < length xs \<Longrightarrow> first_index (xs ! j) xs = Some j"
  by (induction xs arbitrary: j) (auto simp: nth_Cons split: nat.splits)

lemma memb_set_and_with_ring_id_filter:
  "memb_set_and_with_ring_id xs rs ys r =
     filter (\<lambda>a. \<exists>j. first_index a xs = Some j \<and> rs ! j = r) ys"
  by (induction ys) (auto dest: first_index_Some split: option.splits)

lemma set_memb_set_and_with_ring_id:
  "distinct xs \<Longrightarrow> set (memb_set_and_with_ring_id xs rs ys r) =
     {xs ! j |j. j < length xs \<and> xs ! j \<in> set ys \<and> rs ! j = r}"
  by (auto simp: memb_set_and_with_ring_id_filter first_index_nth dest: first_index_Some)

lemma distinct_memb_set_and_with_ring_id [simp]:
  "distinct ys \<Longrightarrow> distinct (memb_set_and_with_ring_id xs rs ys r)"
  by (simp add: memb_set_and_with_ring_id_filter)

section \<open>The interface: processor sets\<close>

text \<open>
  \<open>invar\<close> is the invariant of a processor set and \<open>elems\<close> the set it stands for. The lemmas of
  the locale are the facts the gather state uses when it compares the lists of a join message
  with its own.
\<close>

locale array_sets =
  fixes subtract :: "'s \<Rightarrow> 's \<Rightarrow> 's"
    and equal_test :: "'s \<Rightarrow> 's \<Rightarrow> bool"
    and subset_test :: "'s \<Rightarrow> 's \<Rightarrow> bool"
    and merge :: "'s \<Rightarrow> 's \<Rightarrow> 's c_result"
    and elems :: "'s \<Rightarrow> 'a set"
    and invar :: "'s \<Rightarrow> bool"
  assumes subtract_ok: "invar x \<Longrightarrow> invar (subtract x y) \<and> elems (subtract x y) = elems x - elems y"
    and equal_ok: "invar x \<Longrightarrow> invar y \<Longrightarrow> equal_test x y \<longleftrightarrow> elems x = elems y"
    and subset_ok: "invar x \<Longrightarrow> invar y \<Longrightarrow> subset_test x y \<longleftrightarrow> elems x \<subseteq> elems y"
    and merge_ok: "invar y \<Longrightarrow> merge x y = Inr z \<Longrightarrow> invar z \<and> elems z = elems x \<union> elems y"
begin

lemma subset_of_merge: "invar x \<Longrightarrow> invar y \<Longrightarrow> merge x y = Inr z \<Longrightarrow> subset_test x z \<and> subset_test y z"
  using merge_ok [of y x z] by (auto simp: subset_ok)

lemma merge_again: "invar x \<Longrightarrow> invar y \<Longrightarrow> merge x y = Inr z \<Longrightarrow> merge x z = Inr w \<Longrightarrow> equal_test w z"
  using merge_ok [of y x z] merge_ok [of z x w] by (auto simp: equal_ok)

lemma merge_order:
  "invar y \<Longrightarrow> merge x y = Inr z \<Longrightarrow> merge x' z = Inr w \<Longrightarrow>
   merge x' y = Inr z' \<Longrightarrow> merge x z' = Inr w' \<Longrightarrow> equal_test w w'"
  using merge_ok [of y x z] merge_ok [of z x' w] merge_ok [of y x' z'] merge_ok [of z' x w']
  by (auto simp: equal_ok)

lemma subtract_equal:
  "invar x \<Longrightarrow> invar y \<Longrightarrow> invar x' \<Longrightarrow> invar y' \<Longrightarrow> equal_test x x' \<Longrightarrow> equal_test y y' \<Longrightarrow>
   equal_test (subtract x y) (subtract x' y')"
  using subtract_ok [of x y] subtract_ok [of x' y'] by (auto simp: equal_ok)

lemma equal_sym: "invar x \<Longrightarrow> invar y \<Longrightarrow> equal_test x y \<longleftrightarrow> equal_test y x"
  by (auto simp: equal_ok)

lemma equal_subset: "invar x \<Longrightarrow> invar y \<Longrightarrow> equal_test x y \<longleftrightarrow> subset_test x y \<and> subset_test y x"
  by (auto simp: equal_ok subset_ok)

end

text \<open>A processor set of the instance: no address twice, within the array.\<close>

definition memb_set :: "srp_addr list \<Rightarrow> bool" where
  "memb_set xs \<longleftrightarrow> distinct xs \<and> length xs \<le> PROCESSOR_COUNT_MAX"

lemma memb_setD: "memb_set xs \<Longrightarrow> distinct xs" "memb_set xs \<Longrightarrow> length xs \<le> PROCESSOR_COUNT_MAX"
  by (simp_all add: memb_set_def)

lemma memb_set_Nil [simp]: "memb_set []"
  by (simp add: memb_set_def)

lemma memb_set_single [simp]: "memb_set [a]"
  by (simp add: memb_set_def PROCESSOR_COUNT_MAX_def)

interpretation memb: array_sets memb_set_subtract memb_set_equal memb_set_subset memb_set_merge
  set memb_set
proof
  fix x y :: "srp_addr list"
  show "memb_set x \<Longrightarrow>
      memb_set (memb_set_subtract x y) \<and> set (memb_set_subtract x y) = set x - set y"
    using length_memb_set_subtract [of x y] by (simp add: memb_set_def)
qed (auto simp: memb_set_def memb_set_equal_iff memb_set_subset_iff dest: memb_set_merge_Inr)

end
