(* ===== verification/Srp_Wire.thy ===== *)
theory Srp_Wire
  imports Srp_Types
begin

text \<open>
  What happens to a message between the network and its handler (\<^verbatim>\<open>totemsrp.c\<close>): the checks of
  the header and of the length, and the conversion of a message that was sent by a processor of
  the other byte order. Lengths are in bytes and use the sizes of the packed structures.
\<close>

section \<open>Sizes of the packed structures\<close>

definition sizeof_header :: nat where
  "sizeof_header = 13"

definition sizeof_srp_addr :: nat where
  "sizeof_srp_addr = 4"

definition sizeof_mcast :: nat where
  "sizeof_mcast = 45"

definition sizeof_rtr_item :: nat where
  "sizeof_rtr_item = 16"

definition sizeof_orf_token :: nat where
  "sizeof_orf_token = 57"

definition sizeof_memb_join :: nat where
  "sizeof_memb_join = 33"

definition sizeof_merge_detect :: nat where
  "sizeof_merge_detect = 29"

definition sizeof_hold_cancel :: nat where
  "sizeof_hold_cancel = 25"

definition sizeof_memb_entry :: nat where
  "sizeof_memb_entry = 24"

definition sizeof_commit_token :: nat where
  "sizeof_commit_token = 41"

lemmas sizeof_defs = sizeof_header_def sizeof_srp_addr_def sizeof_mcast_def sizeof_rtr_item_def
  sizeof_orf_token_def sizeof_memb_join_def sizeof_merge_detect_def sizeof_hold_cancel_def
  sizeof_memb_entry_def sizeof_commit_token_def

section \<open>Sanity checks\<close>

text \<open>The checks return \<open>True\<close> where the code returns 0.\<close>

definition check_message_header_validity :: "totem_message_header \<Rightarrow> nat \<Rightarrow> bool" where
  "check_message_header_validity h msg_len =
     (if msg_len < sizeof_header then False
      else if magic h \<noteq> TOTEM_MH_MAGIC \<and> magic h \<noteq> swab16 TOTEM_MH_MAGIC then False
      else if version h \<noteq> TOTEM_MH_VERSION then False
      else True)"

text \<open>
  \<open>rtr_entries\<close> is an \<^verbatim>\<open>int\<close>: the comparison is signed, the product with \<open>sizeof\<close> is computed
  modulo \<open>2 ^ 64\<close>.
\<close>

definition check_orf_token_sanity :: "orf_token \<Rightarrow> nat \<Rightarrow> nat \<Rightarrow> bool \<Rightarrow> bool" where
  "check_orf_token_sanity token msg_len max_msg_len endian_conversion_needed =
     (if msg_len > max_msg_len then False
      else if msg_len < sizeof_orf_token then False
      else let rtr_entries = sint (if endian_conversion_needed then swab32 (rtr_list_entries token)
                                   else rtr_list_entries token)
           in if rtr_entries > int RETRANSMIT_ENTRIES_MAX then False
              else let required_len =
                     c_size (int sizeof_orf_token + c_size (rtr_entries * int sizeof_rtr_item))
                   in if int msg_len < required_len then False else True)"

definition check_mcast_sanity :: "nat \<Rightarrow> bool" where
  "check_mcast_sanity msg_len = (if msg_len < sizeof_mcast then False else True)"

definition check_memb_merge_detect_sanity :: "nat \<Rightarrow> bool" where
  "check_memb_merge_detect_sanity msg_len = (if msg_len < sizeof_merge_detect then False else True)"

text \<open>The two counts are the fields as they were received.\<close>

definition check_memb_join_sanity :: "u32 \<Rightarrow> u32 \<Rightarrow> nat \<Rightarrow> bool \<Rightarrow> bool" where
  "check_memb_join_sanity proc_entries failed_entries msg_len endian_conversion_needed =
     (if msg_len < sizeof_memb_join then False
      else let proc_list_entries = (if endian_conversion_needed then swab32 proc_entries
                                    else proc_entries);
               failed_list_entries = (if endian_conversion_needed then swab32 failed_entries
                                      else failed_entries)
           in if unat proc_list_entries > PROCESSOR_COUNT_MAX \<or>
                 unat failed_list_entries > PROCESSOR_COUNT_MAX then False
              else let required_len = sizeof_memb_join +
                     (unat proc_list_entries + unat failed_list_entries) * sizeof_srp_addr
                   in if msg_len < required_len then False else True)"

definition check_memb_commit_token_sanity :: "u32 \<Rightarrow> nat \<Rightarrow> bool \<Rightarrow> bool" where
  "check_memb_commit_token_sanity entries msg_len endian_conversion_needed =
     (if msg_len < sizeof_commit_token then False
      else let addr_entries = (if endian_conversion_needed then swab32 entries else entries);
               required_len = sizeof_commit_token +
                 unat addr_entries * (sizeof_srp_addr + sizeof_memb_entry)
           in if msg_len < required_len then False else True)"

definition check_token_hold_cancel_sanity :: "nat \<Rightarrow> bool" where
  "check_token_hold_cancel_sanity msg_len = (if msg_len < sizeof_hold_cancel then False else True)"

section \<open>Byte order\<close>

definition srp_addr_endian_convert :: "srp_addr \<Rightarrow> srp_addr" where
  "srp_addr_endian_convert a = Srp_addr (swab32 (nodeid a))"

definition ring_id_endian_convert :: "totem_ring_id \<Rightarrow> totem_ring_id" where
  "ring_id_endian_convert r = \<lparr>rep = swab32 (rep r), ring_seq = swab64 (ring_seq r)\<rparr>"

text \<open>
  The header of a converted message. \<open>target_nodeid\<close> is not written by the code (and is not read
  by the protocol); only \<^verbatim>\<open>mcast_endian_convert\<close> copies \<open>encapsulated\<close>, which the handlers of the
  other messages do not read.
\<close>

definition header_endian_convert :: "totem_message_header \<Rightarrow> totem_message_header" where
  "header_endian_convert h =
     h\<lparr>magic := TOTEM_MH_MAGIC, version := TOTEM_MH_VERSION, hdr_nodeid := swab32 (hdr_nodeid h)\<rparr>"

definition memb_join_endian_convert :: "memb_join \<Rightarrow> memb_join" where
  "memb_join_endian_convert m =
     m\<lparr>mj_header := header_endian_convert (mj_header m),
       mj_system_from := srp_addr_endian_convert (mj_system_from m),
       mj_ring_seq := swab64 (mj_ring_seq m),
       proc_list := map srp_addr_endian_convert (proc_list m),
       failed_list := map srp_addr_endian_convert (failed_list m)\<rparr>"

definition memb_entry_endian_convert ::
  "memb_commit_token_memb_entry \<Rightarrow> memb_commit_token_memb_entry" where
  "memb_entry_endian_convert e =
     \<lparr>me_ring_id = ring_id_endian_convert (me_ring_id e), me_aru = swab32 (me_aru e),
      me_high_delivered = swab32 (me_high_delivered e),
      me_received_flg = swab32 (me_received_flg e)\<rparr>"

text \<open>
  An entry that is not set is not written: \<open>out_memb_list\<close> is what the stack buffer of the
  handler holds before the conversion.
\<close>

definition memb_commit_token_endian_convert ::
  "memb_commit_token_memb_entry list \<Rightarrow> memb_commit_token \<Rightarrow> memb_commit_token" where
  "memb_commit_token_endian_convert out_memb_list m =
     m\<lparr>ct_header := header_endian_convert (ct_header m),
       ct_token_seq := swab32 (ct_token_seq m),
       ct_ring_id := ring_id_endian_convert (ct_ring_id m),
       ct_retrans_flg := swab32 (ct_retrans_flg m),
       memb_index := swab32 (memb_index m),
       ct_addr := map srp_addr_endian_convert (ct_addr m),
       memb_list := map2 (\<lambda>out e. if rep (me_ring_id e) \<noteq> 0 then memb_entry_endian_convert e else out)
                      out_memb_list (memb_list m)\<rparr>"

definition rtr_item_endian_convert :: "rtr_item \<Rightarrow> rtr_item" where
  "rtr_item_endian_convert r =
     \<lparr>rtr_ring_id = ring_id_endian_convert (rtr_ring_id r), rtr_seq = swab32 (rtr_seq r)\<rparr>"

definition orf_token_endian_convert :: "orf_token \<Rightarrow> orf_token" where
  "orf_token_endian_convert t =
     t\<lparr>tok_header := header_endian_convert (tok_header t),
       tok_seq := swab32 (tok_seq t), tok_token_seq := swab32 (tok_token_seq t),
       tok_aru := swab32 (tok_aru t), aru_addr := swab32 (aru_addr t),
       tok_ring_id := ring_id_endian_convert (tok_ring_id t),
       fcc := swab32 (fcc t), backlog := swab32 (backlog t),
       tok_retrans_flg := swab32 (tok_retrans_flg t),
       rtr_list_entries := swab32 (rtr_list_entries t),
       rtr_list := map rtr_item_endian_convert
         (take (nat (sint (swab32 (rtr_list_entries t)))) (rtr_list t))\<rparr>"

definition mcast_endian_convert :: "mcast \<Rightarrow> mcast" where
  "mcast_endian_convert m =
     Mcast (header_endian_convert (mc_header m)) (srp_addr_endian_convert (system_from m))
       (swab32 (mc_seq m)) (swab32 (this_seqno m)) (ring_id_endian_convert (mc_ring_id m))
       (swab32 (node_id m)) (swab32 (guarantee m)) (body m)"

definition memb_merge_detect_endian_convert :: "memb_merge_detect \<Rightarrow> memb_merge_detect" where
  "memb_merge_detect_endian_convert m =
     m\<lparr>md_header := header_endian_convert (md_header m),
       md_ring_id := ring_id_endian_convert (md_ring_id m),
       md_system_from := srp_addr_endian_convert (md_system_from m)\<rparr>"

section \<open>Messages of the other byte order\<close>

text \<open>How a processor of the other byte order sees the message that was sent.\<close>

definition header_seen :: "totem_message_header \<Rightarrow> totem_message_header" where
  "header_seen h =
     h\<lparr>magic := swab16 (magic h), hdr_nodeid := swab32 (hdr_nodeid h),
       target_nodeid := swab32 (target_nodeid h)\<rparr>"

definition orf_token_seen :: "orf_token \<Rightarrow> orf_token" where
  "orf_token_seen t =
     \<lparr>tok_header = header_seen (tok_header t), tok_seq = swab32 (tok_seq t),
      tok_token_seq = swab32 (tok_token_seq t), tok_aru = swab32 (tok_aru t),
      aru_addr = swab32 (aru_addr t), tok_ring_id = ring_id_endian_convert (tok_ring_id t),
      backlog = swab32 (backlog t), fcc = swab32 (fcc t),
      tok_retrans_flg = swab32 (tok_retrans_flg t),
      rtr_list_entries = swab32 (rtr_list_entries t),
      rtr_list = map rtr_item_endian_convert (rtr_list t)\<rparr>"

definition mcast_seen :: "mcast \<Rightarrow> mcast" where
  "mcast_seen m =
     Mcast (header_seen (mc_header m)) (srp_addr_endian_convert (system_from m))
       (swab32 (mc_seq m)) (swab32 (this_seqno m)) (ring_id_endian_convert (mc_ring_id m))
       (swab32 (node_id m)) (swab32 (guarantee m)) (body m)"

definition memb_join_seen :: "memb_join \<Rightarrow> memb_join" where
  "memb_join_seen m =
     \<lparr>mj_header = header_seen (mj_header m), mj_system_from = srp_addr_endian_convert (mj_system_from m),
      mj_ring_seq = swab64 (mj_ring_seq m), proc_list = map srp_addr_endian_convert (proc_list m),
      failed_list = map srp_addr_endian_convert (failed_list m)\<rparr>"

definition commit_token_seen :: "memb_commit_token \<Rightarrow> memb_commit_token" where
  "commit_token_seen m =
     \<lparr>ct_header = header_seen (ct_header m), ct_token_seq = swab32 (ct_token_seq m),
      ct_ring_id = ring_id_endian_convert (ct_ring_id m), ct_retrans_flg = swab32 (ct_retrans_flg m),
      memb_index = swab32 (memb_index m), ct_addr = map srp_addr_endian_convert (ct_addr m),
      memb_list = map memb_entry_endian_convert (memb_list m)\<rparr>"

definition merge_detect_seen :: "memb_merge_detect \<Rightarrow> memb_merge_detect" where
  "merge_detect_seen m =
     \<lparr>md_header = header_seen (md_header m), md_system_from = srp_addr_endian_convert (md_system_from m),
      md_ring_id = ring_id_endian_convert (md_ring_id m)\<rparr>"

lemma srp_addr_endian_convert_twice [simp]:
  "srp_addr_endian_convert (srp_addr_endian_convert a) = a"
  by (simp add: srp_addr_endian_convert_def)

lemma ring_id_endian_convert_twice [simp]: "ring_id_endian_convert (ring_id_endian_convert r) = r"
  by (simp add: ring_id_endian_convert_def)

lemma rtr_item_endian_convert_twice [simp]: "rtr_item_endian_convert (rtr_item_endian_convert r) = r"
  by (simp add: rtr_item_endian_convert_def)

lemma memb_entry_endian_convert_twice [simp]:
  "memb_entry_endian_convert (memb_entry_endian_convert e) = e"
  by (simp add: memb_entry_endian_convert_def)

text \<open>A header this protocol writes.\<close>

definition header_ok :: "totem_message_header \<Rightarrow> bool" where
  "header_ok h \<longleftrightarrow> magic h = TOTEM_MH_MAGIC \<and> version h = TOTEM_MH_VERSION"

lemma header_convert_seen:
  "header_ok h \<Longrightarrow> header_endian_convert (header_seen h) = h\<lparr>target_nodeid := swab32 (target_nodeid h)\<rparr>"
  by (simp add: header_ok_def header_endian_convert_def header_seen_def)

lemma header_seen_valid:
  "header_ok h \<Longrightarrow> sizeof_header \<le> n \<Longrightarrow> check_message_header_validity (header_seen h) n"
  by (simp add: check_message_header_validity_def header_ok_def header_seen_def)

text \<open>The number of retransmit requests a token of the protocol carries is the length of its list.\<close>

definition rtr_ok :: "orf_token \<Rightarrow> bool" where
  "rtr_ok t \<longleftrightarrow> length (rtr_list t) \<le> RETRANSMIT_ENTRIES_MAX \<and>
     rtr_list_entries t = of_nat (length (rtr_list t))"

lemma sint_of_nat_small: "n < 2 ^ 31 \<Longrightarrow> sint (of_nat n :: u32) = int n"
  by (simp add: signed_of_nat signed_take_bit_int_eq_self)

lemma rtr_ok_entries: "rtr_ok t \<Longrightarrow> sint (rtr_list_entries t) = int (length (rtr_list t))"
  by (simp add: rtr_ok_def RETRANSMIT_ENTRIES_MAX_def sint_of_nat_small)

end
