(* ===== verification/Srp_State.thy ===== *)
theory Srp_State
  imports Srp_Memb Srp_Wire
begin

text \<open>
  The state of a ring protocol instance (\<open>struct totemsrp_instance\<close>), its configuration, the
  calls it makes on the network layer, the event loop and the layer above, recorded in order in
  \<open>effects\<close>, and the small functions that only touch a few fields: consensus, leave list, saved
  ring state and timers. Log lines and the time stamps of the token statistics are left out;
  every other counter update is an effect \<open>Stat\<close>.
\<close>

section \<open>The instance\<close>

datatype memb_state_t =
    MEMB_STATE_OPERATIONAL | MEMB_STATE_GATHER | MEMB_STATE_COMMIT | MEMB_STATE_RECOVERY

datatype gather_state_from =
    TOTEMSRP_GSFROM_CONSENSUS_TIMEOUT
  | TOTEMSRP_GSFROM_GATHER_MISSING1
  | TOTEMSRP_GSFROM_THE_TOKEN_WAS_LOST_IN_THE_OPERATIONAL_STATE
  | TOTEMSRP_GSFROM_THE_CONSENSUS_TIMEOUT_EXPIRED
  | TOTEMSRP_GSFROM_THE_TOKEN_WAS_LOST_IN_THE_COMMIT_STATE
  | TOTEMSRP_GSFROM_THE_TOKEN_WAS_LOST_IN_THE_RECOVERY_STATE
  | TOTEMSRP_GSFROM_FAILED_TO_RECEIVE
  | TOTEMSRP_GSFROM_FOREIGN_MESSAGE_IN_OPERATIONAL_STATE
  | TOTEMSRP_GSFROM_FOREIGN_MESSAGE_IN_GATHER_STATE
  | TOTEMSRP_GSFROM_MERGE_DURING_OPERATIONAL_STATE
  | TOTEMSRP_GSFROM_MERGE_DURING_GATHER_STATE
  | TOTEMSRP_GSFROM_MERGE_DURING_JOIN
  | TOTEMSRP_GSFROM_JOIN_DURING_OPERATIONAL_STATE
  | TOTEMSRP_GSFROM_JOIN_DURING_COMMIT_STATE
  | TOTEMSRP_GSFROM_JOIN_DURING_RECOVERY
  | TOTEMSRP_GSFROM_INTERFACE_CHANGE

datatype totem_configuration_type =
  TOTEM_CONFIGURATION_REGULAR | TOTEM_CONFIGURATION_TRANSITIONAL

datatype totem_callback_token_type =
  TOTEM_CALLBACK_TOKEN_RECEIVED | TOTEM_CALLBACK_TOKEN_SENT

datatype srp_timer =
    Pause_timeout | Orf_token_timeout | Orf_token_warning | Orf_token_retransmit_timeout
  | Orf_token_hold_retransmit_timeout | Merge_detect_timeout | Gather_join_timeout
  | Gather_consensus_timeout | Heartbeat_timeout

text \<open>The interval of a timer is in nanoseconds.\<close>

datatype srp_effect =
    Timer_add srp_timer int
  | Timer_del srp_timer
  | Token_send "srp_msg option"
  | Token_target_set u32
  | Mcast_flush_send srp_multicast
  | Mcast_noflush_send mcast u32
  | Send_flush
  | Recv_flush
  | Processor_count_set int
  | Iface_check
  | Deliver u32 mcast_body u32 bool
  | Confchg totem_configuration_type "u32 list" "u32 list" "u32 list" totem_ring_id
  | Waiting_trans_ack_cb bool
  | Service_ready
  | Ring_id_store totem_ring_id u32
  | Buffer_release mcast
  | Callback_run totem_callback_token_type nat
  | Stat string
  | Stat_clear string

record totem_config =
  token_timeout :: u32
  token_warning :: u32
  token_retransmit_timeout :: u32
  token_hold_timeout :: u32
  join_timeout :: u32
  send_join_timeout :: u32
  consensus_timeout :: u32
  merge_timeout :: u32
  fail_to_recv_const :: u32
  seqno_unchanged_const :: u32
  heartbeat_failures_allowed :: u32
  max_network_delay :: u32
  window_size :: u32
  max_messages :: u32
  miss_count_const :: u32
  cancel_token_hold_on_retransmit :: bool
  interfaces_configured :: nat
  net_mtu :: u32

record consensus_list_item =
  ci_addr :: srp_addr
  ci_set :: bool

text \<open>A callback is named by a number; \<open>tc_delete\<close> is its \<open>delete\<close> flag.\<close>

record token_callback_instance =
  tc_id :: nat
  tc_type :: totem_callback_token_type
  tc_delete :: bool

record totemsrp_instance =
  iface_changes :: nat
  failed_to_recv :: bool
  fcc_remcast_current :: u32
  consensus_list :: "consensus_list_item list"
  my_id :: srp_addr
  my_proc_list :: "srp_addr list"
  my_failed_list :: "srp_addr list"
  my_new_memb_list :: "srp_addr list"
  my_trans_memb_list :: "srp_addr list"
  my_memb_list :: "srp_addr list"
  my_deliver_memb_list :: "srp_addr list"
  my_left_memb_list :: "srp_addr list"
  my_leave_memb_list :: "u32 list"
  my_ring_id :: totem_ring_id
  my_old_ring_id :: totem_ring_id
  my_aru_count :: int
  my_merge_detect_timeout_outstanding :: bool
  my_last_aru :: u32
  my_seq_unchanged :: int
  my_received_flg :: bool
  my_high_seq_received :: u32
  my_install_seq :: u32
  my_rotation_counter :: int
  my_set_retrans_flg :: bool
  my_retrans_flg_count :: int
  my_high_ring_delivered :: u32
  heartbeat_timeout :: u32
  new_message_queue :: "message_item cs_queue"
  new_message_queue_trans :: "message_item cs_queue"
  retrans_message_queue :: "message_item cs_queue"
  regular_sort_queue :: "sort_queue_item sq"
  recovery_sort_queue :: "sort_queue_item sq"
  my_aru :: u32
  my_high_delivered :: u32
  token_callback_received :: "token_callback_instance list"
  token_callback_sent :: "token_callback_instance list"
  orf_token_retransmit :: "srp_msg option"
  my_token_seq :: u32
  memb_state :: memb_state_t
  global_seqno :: u32
  my_token_held :: bool
  token_ring_id_seq :: u64
  last_released :: u32
  old_ring_state_saved :: bool
  old_ring_state_aru :: u32
  old_ring_state_high_seq_received :: u32
  my_last_seq :: u32
  totem_config :: totem_config
  use_heartbeat :: bool
  my_trc :: u32
  my_pbl :: u32
  my_cbl :: u32
  pause_timestamp :: u64
  commit_token :: memb_commit_token
  orf_token_discard :: bool
  originated_orf_token :: bool
  waiting_trans_ack :: bool
  flushing :: bool
  effects :: "srp_effect list"

text \<open>The effects are kept with the latest first.\<close>

definition emit :: "srp_effect \<Rightarrow> totemsrp_instance \<Rightarrow> totemsrp_instance" where
  "emit e s = s\<lparr>effects := e # effects s\<rparr>"

lemma emit_selectors [simp]:
  "effects (emit e s) = e # effects s"
  "iface_changes (emit e s) = iface_changes s"
  "failed_to_recv (emit e s) = failed_to_recv s"
  "fcc_remcast_current (emit e s) = fcc_remcast_current s"
  "consensus_list (emit e s) = consensus_list s"
  "my_id (emit e s) = my_id s"
  "my_proc_list (emit e s) = my_proc_list s"
  "my_failed_list (emit e s) = my_failed_list s"
  "my_new_memb_list (emit e s) = my_new_memb_list s"
  "my_trans_memb_list (emit e s) = my_trans_memb_list s"
  "my_memb_list (emit e s) = my_memb_list s"
  "my_deliver_memb_list (emit e s) = my_deliver_memb_list s"
  "my_left_memb_list (emit e s) = my_left_memb_list s"
  "my_leave_memb_list (emit e s) = my_leave_memb_list s"
  "my_ring_id (emit e s) = my_ring_id s"
  "my_old_ring_id (emit e s) = my_old_ring_id s"
  "my_aru_count (emit e s) = my_aru_count s"
  "my_merge_detect_timeout_outstanding (emit e s) = my_merge_detect_timeout_outstanding s"
  "my_last_aru (emit e s) = my_last_aru s"
  "my_seq_unchanged (emit e s) = my_seq_unchanged s"
  "my_received_flg (emit e s) = my_received_flg s"
  "my_high_seq_received (emit e s) = my_high_seq_received s"
  "my_install_seq (emit e s) = my_install_seq s"
  "my_rotation_counter (emit e s) = my_rotation_counter s"
  "my_set_retrans_flg (emit e s) = my_set_retrans_flg s"
  "my_retrans_flg_count (emit e s) = my_retrans_flg_count s"
  "my_high_ring_delivered (emit e s) = my_high_ring_delivered s"
  "heartbeat_timeout (emit e s) = heartbeat_timeout s"
  "new_message_queue (emit e s) = new_message_queue s"
  "new_message_queue_trans (emit e s) = new_message_queue_trans s"
  "retrans_message_queue (emit e s) = retrans_message_queue s"
  "regular_sort_queue (emit e s) = regular_sort_queue s"
  "recovery_sort_queue (emit e s) = recovery_sort_queue s"
  "my_aru (emit e s) = my_aru s"
  "my_high_delivered (emit e s) = my_high_delivered s"
  "token_callback_received (emit e s) = token_callback_received s"
  "token_callback_sent (emit e s) = token_callback_sent s"
  "orf_token_retransmit (emit e s) = orf_token_retransmit s"
  "my_token_seq (emit e s) = my_token_seq s"
  "memb_state (emit e s) = memb_state s"
  "global_seqno (emit e s) = global_seqno s"
  "my_token_held (emit e s) = my_token_held s"
  "token_ring_id_seq (emit e s) = token_ring_id_seq s"
  "last_released (emit e s) = last_released s"
  "old_ring_state_saved (emit e s) = old_ring_state_saved s"
  "old_ring_state_aru (emit e s) = old_ring_state_aru s"
  "old_ring_state_high_seq_received (emit e s) = old_ring_state_high_seq_received s"
  "my_last_seq (emit e s) = my_last_seq s"
  "totem_config (emit e s) = totem_config s"
  "use_heartbeat (emit e s) = use_heartbeat s"
  "my_trc (emit e s) = my_trc s"
  "my_pbl (emit e s) = my_pbl s"
  "my_cbl (emit e s) = my_cbl s"
  "pause_timestamp (emit e s) = pause_timestamp s"
  "commit_token (emit e s) = commit_token s"
  "orf_token_discard (emit e s) = orf_token_discard s"
  "originated_orf_token (emit e s) = originated_orf_token s"
  "waiting_trans_ack (emit e s) = waiting_trans_ack s"
  "flushing (emit e s) = flushing s"
  by (simp_all add: emit_def)

section \<open>Consensus\<close>

definition memb_consensus_reset :: "totemsrp_instance \<Rightarrow> totemsrp_instance" where
  "memb_consensus_reset s = s\<lparr>consensus_list := []\<rparr>"

fun consensus_set_list ::
  "srp_addr \<Rightarrow> nat \<Rightarrow> consensus_list_item list \<Rightarrow> consensus_list_item list c_result" where
  "consensus_set_list addr i [] =
     (if i < PROCESSOR_COUNT_MAX then Inr [\<lparr>ci_addr = addr, ci_set = True\<rparr>] else Inl OutOfBounds)"
| "consensus_set_list addr i (c # cs) =
     (if srp_addr_equal addr (ci_addr c) then Inr (\<lparr>ci_addr = addr, ci_set = True\<rparr> # cs)
      else bindE (consensus_set_list addr (Suc i) cs) (\<lambda>cs'. Inr (c # cs')))"

definition memb_consensus_set :: "srp_addr \<Rightarrow> totemsrp_instance \<Rightarrow> totemsrp_instance c_result" where
  "memb_consensus_set addr s =
     bindE (consensus_set_list addr 0 (consensus_list s)) (\<lambda>l. Inr (s\<lparr>consensus_list := l\<rparr>))"

fun consensus_isset_list :: "srp_addr \<Rightarrow> consensus_list_item list \<Rightarrow> bool" where
  "consensus_isset_list addr [] = False"
| "consensus_isset_list addr (c # cs) =
     (if srp_addr_equal addr (ci_addr c) then ci_set c else consensus_isset_list addr cs)"

definition memb_consensus_isset :: "totemsrp_instance \<Rightarrow> srp_addr \<Rightarrow> bool" where
  "memb_consensus_isset s addr = consensus_isset_list addr (consensus_list s)"

definition memb_consensus_agreed :: "totemsrp_instance \<Rightarrow> bool c_result" where
  "memb_consensus_agreed s =
     (let token_memb = memb_set_subtract (my_proc_list s) (my_failed_list s);
          agreed = list_all (memb_consensus_isset s) token_memb
      in if agreed \<and> failed_to_recv s then Inr agreed
         else bindE (assertE (length token_memb \<ge> 1)) (\<lambda>_. Inr agreed))"

definition memb_consensus_notset :: "totemsrp_instance \<Rightarrow> srp_addr list" where
  "memb_consensus_notset s = filter (\<lambda>a. \<not> memb_consensus_isset s a) (my_proc_list s)"

section \<open>Processors that announced their leave\<close>

definition my_leave_memb_clear :: "totemsrp_instance \<Rightarrow> totemsrp_instance" where
  "my_leave_memb_clear s = s\<lparr>my_leave_memb_list := []\<rparr>"

definition my_leave_memb_match :: "totemsrp_instance \<Rightarrow> u32 \<Rightarrow> u32" where
  "my_leave_memb_match s n = (if n \<in> set (my_leave_memb_list s) then n else 0)"

definition my_leave_memb_set :: "u32 \<Rightarrow> totemsrp_instance \<Rightarrow> totemsrp_instance" where
  "my_leave_memb_set n s =
     (if n \<in> set (my_leave_memb_list s) then s
      else if length (my_leave_memb_list s) < PROCESSOR_COUNT_MAX - 1
      then s\<lparr>my_leave_memb_list := my_leave_memb_list s @ [n]\<rparr>
      else s)"

section \<open>Timers\<close>

definition QB_TIME_NS_IN_MSEC :: int where
  "QB_TIME_NS_IN_MSEC = 1000000"

definition reset_timer :: "srp_timer \<Rightarrow> int \<Rightarrow> totemsrp_instance \<Rightarrow> totemsrp_instance" where
  "reset_timer t ns s = emit (Timer_add t ns) (emit (Timer_del t) s)"

definition reset_token_retransmit_timeout :: "totemsrp_instance \<Rightarrow> totemsrp_instance" where
  "reset_token_retransmit_timeout s =
     reset_timer Orf_token_retransmit_timeout (uint (token_retransmit_timeout (totem_config s)) * QB_TIME_NS_IN_MSEC) s"

definition start_merge_detect_timeout :: "totemsrp_instance \<Rightarrow> totemsrp_instance" where
  "start_merge_detect_timeout s =
     (if \<not> my_merge_detect_timeout_outstanding s
      then (emit (Timer_add Merge_detect_timeout (uint (merge_timeout (totem_config s)) * QB_TIME_NS_IN_MSEC)) s)
             \<lparr>my_merge_detect_timeout_outstanding := True\<rparr>
      else s)"

definition cancel_merge_detect_timeout :: "totemsrp_instance \<Rightarrow> totemsrp_instance" where
  "cancel_merge_detect_timeout s =
     (emit (Timer_del Merge_detect_timeout) s)\<lparr>my_merge_detect_timeout_outstanding := False\<rparr>"

definition old_ring_state_save :: "totemsrp_instance \<Rightarrow> totemsrp_instance" where
  "old_ring_state_save s =
     (if \<not> old_ring_state_saved s
      then s\<lparr>old_ring_state_saved := True, my_old_ring_id := my_ring_id s,
             old_ring_state_aru := my_aru s,
             old_ring_state_high_seq_received := my_high_seq_received s\<rparr>
      else s)"

definition old_ring_state_restore :: "totemsrp_instance \<Rightarrow> totemsrp_instance" where
  "old_ring_state_restore s =
     s\<lparr>my_aru := old_ring_state_aru s, my_high_seq_received := old_ring_state_high_seq_received s\<rparr>"

definition old_ring_state_reset :: "totemsrp_instance \<Rightarrow> totemsrp_instance" where
  "old_ring_state_reset s = s\<lparr>old_ring_state_saved := False\<rparr>"

definition reset_pause_timeout :: "totemsrp_instance \<Rightarrow> totemsrp_instance" where
  "reset_pause_timeout s = reset_timer Pause_timeout (uint (token_timeout (totem_config s)) * QB_TIME_NS_IN_MSEC div 5) s"

text \<open>\<open>token_warning * token_timeout / 100\<close> is computed in 32 bits.\<close>

definition reset_token_warning :: "totemsrp_instance \<Rightarrow> totemsrp_instance" where
  "reset_token_warning s =
     reset_timer Orf_token_warning
       (uint ((token_warning (totem_config s) * token_timeout (totem_config s)) div 100) * QB_TIME_NS_IN_MSEC) s"

definition reset_token_timeout :: "totemsrp_instance \<Rightarrow> totemsrp_instance" where
  "reset_token_timeout s =
     (let s1 = reset_timer Orf_token_timeout (uint (token_timeout (totem_config s)) * QB_TIME_NS_IN_MSEC) s
      in if token_warning (totem_config s) \<noteq> 0 then reset_token_warning s1 else s1)"

definition reset_heartbeat_timeout :: "totemsrp_instance \<Rightarrow> totemsrp_instance" where
  "reset_heartbeat_timeout s = reset_timer Heartbeat_timeout (uint (heartbeat_timeout s) * QB_TIME_NS_IN_MSEC) s"

definition cancel_token_warning :: "totemsrp_instance \<Rightarrow> totemsrp_instance" where
  "cancel_token_warning s = emit (Timer_del Orf_token_warning) s"

definition cancel_token_timeout :: "totemsrp_instance \<Rightarrow> totemsrp_instance" where
  "cancel_token_timeout s =
     (let s1 = emit (Timer_del Orf_token_timeout) s
      in if token_warning (totem_config s) \<noteq> 0 then cancel_token_warning s1 else s1)"

definition cancel_heartbeat_timeout :: "totemsrp_instance \<Rightarrow> totemsrp_instance" where
  "cancel_heartbeat_timeout s = emit (Timer_del Heartbeat_timeout) s"

definition cancel_token_retransmit_timeout :: "totemsrp_instance \<Rightarrow> totemsrp_instance" where
  "cancel_token_retransmit_timeout s = emit (Timer_del Orf_token_retransmit_timeout) s"

definition start_token_hold_retransmit_timeout :: "totemsrp_instance \<Rightarrow> totemsrp_instance" where
  "start_token_hold_retransmit_timeout s =
     emit (Timer_add Orf_token_hold_retransmit_timeout (uint (token_hold_timeout (totem_config s)) * QB_TIME_NS_IN_MSEC)) s"

definition cancel_token_hold_retransmit_timeout :: "totemsrp_instance \<Rightarrow> totemsrp_instance" where
  "cancel_token_hold_retransmit_timeout s = emit (Timer_del Orf_token_hold_retransmit_timeout) s"

definition timer_function_pause_timeout :: "u64 \<Rightarrow> totemsrp_instance \<Rightarrow> totemsrp_instance" where
  "timer_function_pause_timeout now s = reset_pause_timeout (s\<lparr>pause_timestamp := now\<rparr>)"

definition timer_function_orf_token_warning :: "totemsrp_instance \<Rightarrow> totemsrp_instance" where
  "timer_function_orf_token_warning s =
     (if token_warning (totem_config s) \<noteq> 0 then reset_token_warning s else cancel_token_warning s)"

definition memb_ring_id_set :: "totem_ring_id \<Rightarrow> totemsrp_instance \<Rightarrow> totemsrp_instance" where
  "memb_ring_id_set r s = s\<lparr>my_ring_id := r\<rparr>"

end
