(* ===== verification/Srp_Order.thy ===== *)
theory Srp_Order
  imports Srp_State
begin

text \<open>
  Ordering and delivery (\<^verbatim>\<open>totemsrp.c\<close>): the sort queues, the all-received-up-to counter, the
  release of delivered messages, the delivery to the layer above, and what the holder of the
  token does with it: retransmit, request retransmission, multicast, flow control and passing it
  on.
\<close>

section \<open>The queues in use\<close>

definition zero_mcast :: mcast where
  "zero_mcast =
     Mcast \<lparr>magic = 0, version = 0, msg_type = 0, encapsulated = 0, hdr_nodeid = 0, target_nodeid = 0\<rparr>
       (Srp_addr 0) 0 0 \<lparr>rep = 0, ring_seq = 0\<rparr> 0 0 (Data [])"

definition zero_item :: message_item where
  "zero_item = \<lparr>mi_mcast = zero_mcast, mi_msg_len = 0\<rparr>"

definition ring_sort_queue :: "totemsrp_instance \<Rightarrow> sort_queue_item sq" where
  "ring_sort_queue s =
     (if memb_state s = MEMB_STATE_RECOVERY then recovery_sort_queue s else regular_sort_queue s)"

definition put_sort_queue :: "sort_queue_item sq \<Rightarrow> totemsrp_instance \<Rightarrow> totemsrp_instance" where
  "put_sort_queue q s =
     (if memb_state s = MEMB_STATE_RECOVERY then s\<lparr>recovery_sort_queue := q\<rparr>
      else s\<lparr>regular_sort_queue := q\<rparr>)"

definition new_queue :: "totemsrp_instance \<Rightarrow> message_item cs_queue" where
  "new_queue s = (if waiting_trans_ack s then new_message_queue_trans s else new_message_queue s)"

definition put_new_queue :: "message_item cs_queue \<Rightarrow> totemsrp_instance \<Rightarrow> totemsrp_instance" where
  "put_new_queue q s =
     (if waiting_trans_ack s then s\<lparr>new_message_queue_trans := q\<rparr> else s\<lparr>new_message_queue := q\<rparr>)"

definition mcast_queue :: "totemsrp_instance \<Rightarrow> message_item cs_queue" where
  "mcast_queue s =
     (if memb_state s = MEMB_STATE_RECOVERY then retrans_message_queue s else new_queue s)"

definition put_mcast_queue :: "message_item cs_queue \<Rightarrow> totemsrp_instance \<Rightarrow> totemsrp_instance" where
  "put_mcast_queue q s =
     (if memb_state s = MEMB_STATE_RECOVERY then s\<lparr>retrans_message_queue := q\<rparr> else put_new_queue q s)"

section \<open>Sending: the queue of new messages\<close>

text \<open>
  The header of the messages this processor sends. The messages built on the stack leave
  \<open>target_nodeid\<close> unset, which no part of the protocol reads.
\<close>

definition totemsrp_header :: "totemsrp_instance \<Rightarrow> message_type \<Rightarrow> u8 \<Rightarrow> totem_message_header" where
  "totemsrp_header s t e =
     \<lparr>magic = TOTEM_MH_MAGIC, version = TOTEM_MH_VERSION, msg_type = type_code t, encapsulated = e,
      hdr_nodeid = nodeid (my_id s), target_nodeid = 0\<rparr>"

text \<open>\<open>buffer\<close> says whether the allocation of the message buffer succeeds.\<close>

definition totemsrp_mcast ::
  "u8 list list \<Rightarrow> u32 \<Rightarrow> bool \<Rightarrow> totemsrp_instance \<Rightarrow> (int \<times> totemsrp_instance) c_result" where
  "totemsrp_mcast iovec guar buffer s =
     (if cs_queue_is_full (new_queue s) then Inr (- 1, s)
      else if \<not> buffer then Inr (- 1, s)
      else bindE (assertE (nodeid (my_id s) \<noteq> 0)) (\<lambda>_.
        let m = Mcast (totemsrp_header s MESSAGE_TYPE_MCAST (encap_code MESSAGE_NOT_ENCAPSULATED))
                  (my_id s) 0 0 \<lparr>rep = 0, ring_seq = 0\<rparr> 0 guar (Data (concat iovec));
            item = \<lparr>mi_mcast = m, mi_msg_len = of_nat (sizeof_mcast + length (concat iovec))\<rparr>
        in bindE (cs_queue_item_add (new_queue s) item) (\<lambda>q.
             Inr (0, put_new_queue q (emit (Stat ''mcast_tx'') s)))))"

definition totemsrp_avail :: "totemsrp_instance \<Rightarrow> int c_result" where
  "totemsrp_avail s = cs_queue_avail (new_queue s)"

section \<open>Retransmission, release and the all-received-up-to counter\<close>

text \<open>The flag is true where the code returns 0.\<close>

definition orf_token_remcast ::
  "totemsrp_instance \<Rightarrow> u32 \<Rightarrow> (bool \<times> totemsrp_instance) c_result" where
  "orf_token_remcast s seq =
     (if \<not> sq_in_range (ring_sort_queue s) seq then Inr (False, s)
      else bindE (sq_item_get (ring_sort_queue s) seq) (\<lambda>(res, ptr).
        case ptr of
          None \<Rightarrow> Inr (False, s)
        | Some item \<Rightarrow> Inr (True, emit (Mcast_noflush_send (mi_mcast item) (mi_msg_len item)) s)))"

fun free_loop :: "nat \<Rightarrow> u32 \<Rightarrow> totemsrp_instance \<Rightarrow> totemsrp_instance c_result" where
  "free_loop 0 seq s = Inr s"
| "free_loop (Suc n) seq s =
     bindE (sq_item_get (regular_sort_queue s) seq) (\<lambda>(res, ptr).
     bindE (sq_items_release (regular_sort_queue s) seq) (\<lambda>q.
       let s1 = (case ptr of None \<Rightarrow> s | Some item \<Rightarrow> emit (Buffer_release (mi_mcast item)) s)
       in free_loop n (seq + 1) (s1\<lparr>regular_sort_queue := q\<rparr>)))"

definition release_point :: "totemsrp_instance \<Rightarrow> u32 \<Rightarrow> u32" where
  "release_point s token_aru =
     (let release_to = (if sq_lt_compare (my_last_aru s) token_aru then my_last_aru s else token_aru)
      in if sq_lt_compare (my_high_delivered s) release_to then my_high_delivered s else release_to)"

definition messages_free :: "u32 \<Rightarrow> totemsrp_instance \<Rightarrow> totemsrp_instance c_result" where
  "messages_free token_aru s =
     (let release_to = release_point s token_aru in
      if sq_lt_compare release_to (last_released s) then Inr s
      else let range = release_to - last_released s in
        bindE (assertE (unat range < QUEUE_RTR_ITEMS_SIZE_MAX)) (\<lambda>_.
        bindE (free_loop (unat range) (last_released s + 1) s) (\<lambda>s1.
          Inr (s1\<lparr>last_released := last_released s1 + range\<rparr>))))"

fun aru_loop :: "sort_queue_item sq \<Rightarrow> nat \<Rightarrow> u32 \<Rightarrow> nat c_result" where
  "aru_loop q 0 seq = Inr 0"
| "aru_loop q (Suc n) seq =
     bindE (sq_item_get q seq) (\<lambda>(res, ptr).
       if res \<noteq> 0 then Inr 0 else bindE (aru_loop q n (seq + 1)) (\<lambda>k. Inr (Suc k)))"

definition update_aru :: "totemsrp_instance \<Rightarrow> totemsrp_instance c_result" where
  "update_aru s =
     bindE (aru_loop (ring_sort_queue s) (unat (my_high_seq_received s - my_aru s)) (my_aru s + 1))
       (\<lambda>k. Inr (s\<lparr>my_aru := my_aru s + of_nat k\<rparr>))"

section \<open>Multicasting with the token\<close>

definition stamped :: "mcast \<Rightarrow> u32 \<Rightarrow> u32 \<Rightarrow> totem_ring_id \<Rightarrow> mcast" where
  "stamped m seq seqno ring =
     Mcast (mc_header m) (system_from m) seq seqno ring (node_id m) (guarantee m) (body m)"

fun mcast_loop ::
  "nat \<Rightarrow> orf_token \<Rightarrow> totemsrp_instance \<Rightarrow> (nat \<times> orf_token \<times> totemsrp_instance) c_result" where
  "mcast_loop 0 token s = Inr (0, token, s)"
| "mcast_loop (Suc n) token s =
     (if cs_queue_is_empty (mcast_queue s) then Inr (0, token, s)
      else bindE (cs_queue_item_get (mcast_queue s)) (\<lambda>item.
        let seq = tok_seq token + 1;
            m = stamped (mi_mcast item) seq (global_seqno s) (my_ring_id s);
            s1 = s\<lparr>global_seqno := global_seqno s + 1\<rparr>
        in bindE (sq_item_add (ring_sort_queue s1) (item\<lparr>mi_mcast := m\<rparr>) seq) (\<lambda>q.
           let s2 = emit (Mcast_noflush_send m (mi_msg_len item)) (put_sort_queue q s1) in
           bindE (cs_queue_item_remove (mcast_queue s2)) (\<lambda>mq.
           bindE (mcast_loop n (token\<lparr>tok_seq := seq\<rparr>)
                    ((put_mcast_queue mq s2)\<lparr>my_high_seq_received := seq\<rparr>)) (\<lambda>(k, token', s').
             Inr (Suc k, token', s'))))))"

definition orf_token_mcast ::
  "orf_token \<Rightarrow> u32 \<Rightarrow> totemsrp_instance \<Rightarrow> (nat \<times> orf_token \<times> totemsrp_instance) c_result" where
  "orf_token_mcast token fcc_mcasts_allowed s =
     (let s1 = (if memb_state s = MEMB_STATE_RECOVERY then reset_token_retransmit_timeout s else s) in
      bindE (mcast_loop (unat fcc_mcasts_allowed) token s1) (\<lambda>(k, token', s2).
      bindE (update_aru s2) (\<lambda>s3. Inr (k, token', s3))))"

section \<open>The retransmit list of the token\<close>

text \<open>The entries that stay on the list, and the number of messages multicast again.\<close>

fun rtr_loop ::
  "nat \<Rightarrow> rtr_item list \<Rightarrow> totemsrp_instance \<Rightarrow> (rtr_item list \<times> nat \<times> totemsrp_instance) c_result" where
  "rtr_loop allowed [] s = Inr ([], 0, s)"
| "rtr_loop 0 (r # rs) s = Inr (r # rs, 0, s)"
| "rtr_loop (Suc allowed) (r # rs) s =
     (if rtr_ring_id r \<noteq> my_ring_id s
      then bindE (rtr_loop (Suc allowed) rs s) (\<lambda>(rs', k, s'). Inr (r # rs', k, s'))
      else bindE (orf_token_remcast s (rtr_seq r)) (\<lambda>(sent, s1).
        if sent
        then bindE (rtr_loop allowed rs (emit (Stat ''mcast_retx'') s1)) (\<lambda>(rs', k, s').
               Inr (rs', Suc k, s'))
        else bindE (rtr_loop (Suc allowed) rs s1) (\<lambda>(rs', k, s'). Inr (r # rs', k, s'))))"

fun request_loop ::
  "nat \<Rightarrow> u32 \<Rightarrow> rtr_item list \<Rightarrow> totemsrp_instance \<Rightarrow> (rtr_item list \<times> totemsrp_instance) c_result" where
  "request_loop 0 seq rs s = Inr (rs, s)"
| "request_loop (Suc n) seq rs s =
     (if \<not> length rs < RETRANSMIT_ENTRIES_MAX then Inr (rs, s)
      else if \<not> sq_in_range (ring_sort_queue s) seq then Inr (rs, s)
      else bindE (sq_item_inuse (ring_sort_queue s) seq) (\<lambda>inuse.
        if inuse then request_loop n (seq + 1) rs s
        else bindE (sq_item_miss_count (ring_sort_queue s) seq) (\<lambda>(c, q).
          let s1 = put_sort_queue q s in
          if c < miss_count_const (totem_config s) then request_loop n (seq + 1) rs s1
          else if list_ex (\<lambda>r. seq = rtr_seq r) rs then request_loop n (seq + 1) rs s1
          else request_loop n (seq + 1) (rs @ [\<lparr>rtr_ring_id = my_ring_id s, rtr_seq = seq\<rparr>]) s1)))"

text \<open>The result is the number of retransmissions, what is left of the allowance, the token.\<close>

definition orf_token_rtr ::
  "orf_token \<Rightarrow> u32 \<Rightarrow> totemsrp_instance \<Rightarrow>
   (u32 \<times> u32 \<times> orf_token \<times> totemsrp_instance) c_result" where
  "orf_token_rtr token fcc_allowed s =
     (if unat (rtr_list_entries token) > length (rtr_list token) then Inl OutOfBounds
      else bindE (rtr_loop (unat fcc_allowed)
                    (take (unat (rtr_list_entries token)) (rtr_list token)) s) (\<lambda>(rs, k, s1).
        let s2 = s1\<lparr>fcc_remcast_current := of_nat k\<rparr>;
            range = tok_seq token - my_aru s2
        in bindE (assertE (unat range < QUEUE_RTR_ITEMS_SIZE_MAX)) (\<lambda>_.
           bindE (request_loop (unat range) (my_aru s2 + 1) rs s2) (\<lambda>(rs', s3).
             Inr (of_nat k, fcc_allowed - of_nat k,
                  token\<lparr>rtr_list_entries := of_nat (length rs'), rtr_list := rs'\<rparr>, s3)))))"

section \<open>Passing the token on\<close>

definition token_retransmit :: "totemsrp_instance \<Rightarrow> totemsrp_instance" where
  "token_retransmit s =
     emit (Token_send (orf_token_retransmit s)) (emit (Stat ''orf_token_tx'') s)"

definition timer_function_token_retransmit_timeout :: "totemsrp_instance \<Rightarrow> totemsrp_instance" where
  "timer_function_token_retransmit_timeout s =
     (case memb_state s of
        MEMB_STATE_GATHER \<Rightarrow> s
      | _ \<Rightarrow> reset_token_retransmit_timeout (token_retransmit s))"

definition timer_function_token_hold_retransmit_timeout :: "totemsrp_instance \<Rightarrow> totemsrp_instance" where
  "timer_function_token_hold_retransmit_timeout s =
     (case memb_state s of
        MEMB_STATE_GATHER \<Rightarrow> s
      | MEMB_STATE_COMMIT \<Rightarrow> s
      | _ \<Rightarrow> token_retransmit s)"

definition token_send ::
  "orf_token \<Rightarrow> bool \<Rightarrow> totemsrp_instance \<Rightarrow> totemsrp_instance c_result" where
  "token_send token forward_token s =
     (let token1 = token\<lparr>tok_header := (tok_header token)\<lparr>hdr_nodeid := nodeid (my_id s)\<rparr>\<rparr>;
          s1 = s\<lparr>orf_token_retransmit := Some (Orf_token token1)\<rparr>
      in bindE (assertE (nodeid (my_id s) \<noteq> 0)) (\<lambda>_.
           if \<not> forward_token then Inr s1
           else Inr (emit (Token_send (Some (Orf_token token1))) (emit (Stat ''orf_token_tx'') s1))))"

definition token_hold_cancel_send :: "totemsrp_instance \<Rightarrow> totemsrp_instance c_result" where
  "token_hold_cancel_send s =
     (if \<not> my_token_held s then Inr s
      else bindE (assertE (nodeid (my_id s) \<noteq> 0)) (\<lambda>_.
        Inr (emit (Mcast_flush_send (Hold_cancel
                \<lparr>thc_header = totemsrp_header s MESSAGE_TYPE_TOKEN_HOLD_CANCEL 0,
                 thc_ring_id = my_ring_id s\<rparr>))
              (emit (Stat ''token_hold_cancel_tx'') (s\<lparr>my_token_held := False\<rparr>)))))"

definition totemsrp_event_signal :: "totemsrp_instance \<Rightarrow> totemsrp_instance c_result" where
  "totemsrp_event_signal s = token_hold_cancel_send s"

definition orf_token_send_initial :: "totemsrp_instance \<Rightarrow> totemsrp_instance c_result" where
  "orf_token_send_initial s =
     bindE (assertE (nodeid (my_id s) \<noteq> 0)) (\<lambda>_.
       let flg = \<not> cs_queue_is_empty (retrans_message_queue s)
       in token_send
            \<lparr>tok_header = totemsrp_header s MESSAGE_TYPE_ORF_TOKEN 0, tok_seq = SEQNO_START_MSG,
             tok_token_seq = SEQNO_START_TOKEN, tok_aru = SEQNO_START_MSG - 1,
             aru_addr = nodeid (my_id s), tok_ring_id = my_ring_id s, backlog = 0, fcc = 0,
             tok_retrans_flg = (if flg then 1 else 0), rtr_list_entries = 0, rtr_list = []\<rparr>
            True (s\<lparr>my_set_retrans_flg := flg\<rparr>))"

section \<open>Flow control\<close>

definition backlog_get :: "totemsrp_instance \<Rightarrow> u32" where
  "backlog_get s =
     (case memb_state s of
        MEMB_STATE_OPERATIONAL \<Rightarrow> word_of_int (cs_queue_used (new_queue s))
      | MEMB_STATE_RECOVERY \<Rightarrow> word_of_int (cs_queue_used (retrans_message_queue s))
      | _ \<Rightarrow> 0)"

definition fcc_calculate :: "orf_token \<Rightarrow> totemsrp_instance \<Rightarrow> u32 \<times> totemsrp_instance" where
  "fcc_calculate token s =
     (let c = totem_config s;
          allowed = max_messages c;
          allowed1 = (if allowed > window_size c - fcc token then window_size c - fcc token
                      else allowed);
          s1 = s\<lparr>my_cbl := backlog_get s\<rparr>;
          total = backlog token + my_cbl s1 - my_pbl s1
      in if total \<noteq> 0
         then let backlog_calc = (window_size c * my_pbl s1) div total
              in (if backlog_calc > 0 \<and> allowed1 > backlog_calc then backlog_calc else allowed1, s1)
         else (allowed1, s1))"

text \<open>\<open>check\<close> is an \<^verbatim>\<open>int\<close> from which an unsigned sum is subtracted.\<close>

definition fcc_rtr_limit :: "orf_token \<Rightarrow> u32 \<Rightarrow> totemsrp_instance \<Rightarrow> u32 c_result" where
  "fcc_rtr_limit token transmits_allowed s =
     (let w = window_size (totem_config s);
          check = sint (of_nat QUEUE_RTR_ITEMS_SIZE_MAX - (transmits_allowed + w) :: u32)
      in bindE (assertE (check \<ge> 0)) (\<lambda>_.
           if sq_lt_compare
                (last_released s + of_nat QUEUE_RTR_ITEMS_SIZE_MAX - transmits_allowed - w)
                (tok_seq token)
           then Inr 0 else Inr transmits_allowed))"

definition fcc_token_update ::
  "orf_token \<Rightarrow> u32 \<Rightarrow> totemsrp_instance \<Rightarrow> orf_token \<times> totemsrp_instance" where
  "fcc_token_update token msgs_transmitted s =
     (token\<lparr>fcc := fcc token + (msgs_transmitted - my_trc s),
            backlog := backlog token + (my_cbl s - my_pbl s)\<rparr>,
      s\<lparr>my_trc := msgs_transmitted, my_pbl := my_cbl s\<rparr>)"

section \<open>Delivery\<close>

fun deliver_loop ::
  "nat \<Rightarrow> u32 \<Rightarrow> bool \<Rightarrow> totemsrp_instance \<Rightarrow> totemsrp_instance c_result" where
  "deliver_loop 0 seq skip s = Inr s"
| "deliver_loop (Suc n) seq skip s =
     (if \<not> sq_in_range (regular_sort_queue s) seq then Inr s
      else bindE (sq_item_get (regular_sort_queue s) seq) (\<lambda>(res, ptr).
        if res \<noteq> 0 \<and> \<not> skip then Inr s
        else let s1 = s\<lparr>my_high_delivered := seq\<rparr> in
          case ptr of
            None \<Rightarrow> deliver_loop n (seq + 1) skip s1
          | Some item \<Rightarrow>
              let mcast_in = mi_mcast item;
                  endian_conversion_required = (magic (mc_header mcast_in) \<noteq> TOTEM_MH_MAGIC);
                  mcast_header = (if endian_conversion_required then mcast_endian_convert mcast_in
                                  else mcast_in)
              in if skip \<and> \<not> memb_set_subset [system_from mcast_header] (my_deliver_memb_list s1)
                 then deliver_loop n (seq + 1) skip s1
                 else deliver_loop n (seq + 1) skip
                        (emit (Deliver (hdr_nodeid (mc_header mcast_header)) (body mcast_in)
                                 (mi_msg_len item - of_nat sizeof_mcast)
                                 endian_conversion_required) s1)))"

definition messages_deliver_to_app ::
  "bool \<Rightarrow> u32 \<Rightarrow> totemsrp_instance \<Rightarrow> totemsrp_instance c_result" where
  "messages_deliver_to_app skip end_point s =
     (let range = end_point - my_high_delivered s in
      bindE (assertE (unat range < QUEUE_RTR_ITEMS_SIZE_MAX)) (\<lambda>_.
        deliver_loop (unat range) (my_high_delivered s + 1) skip s))"

end
