(* ===== verification/Srp_Member.thy ===== *)
theory Srp_Member
  imports Srp_Order
begin

text \<open>
  The membership algorithm of \<^verbatim>\<open>totemsrp.c\<close>: join and leave messages, the commit token, and the
  entry into each of the states \<open>GATHER\<close>, \<open>COMMIT\<close>, \<open>RECOVERY\<close> and \<open>OPERATIONAL\<close>. Where the code
  reads entries of an array beyond those in use, the model reports \<open>OutOfBounds\<close>.
\<close>

section \<open>Join messages\<close>

definition JOIN_DATA_SIZE :: nat where
  "JOIN_DATA_SIZE = 40000"

definition join_len :: "srp_addr list \<Rightarrow> srp_addr list \<Rightarrow> nat" where
  "join_len procs failed = sizeof_memb_join + (length procs + length failed) * sizeof_srp_addr"

definition memb_join_message_send :: "totemsrp_instance \<Rightarrow> totemsrp_instance c_result" where
  "memb_join_message_send s =
     bindE (assertE (nodeid (my_id s) \<noteq> 0)) (\<lambda>_.
       if join_len (my_proc_list s) (my_failed_list s) > JOIN_DATA_SIZE then Inr s
       else Inr (emit (Mcast_flush_send (Join
                   \<lparr>mj_header = totemsrp_header s MESSAGE_TYPE_MEMB_JOIN 0, mj_system_from = my_id s,
                    mj_ring_seq = ring_seq (my_ring_id s), proc_list = my_proc_list s,
                    failed_list = my_failed_list s\<rparr>))
                 (emit (Stat ''memb_join_tx'') s)))"

definition memb_leave_message_send :: "totemsrp_instance \<Rightarrow> totemsrp_instance c_result" where
  "memb_leave_message_send s =
     bindE (memb_set_merge [my_id s] (my_failed_list s)) (\<lambda>failed.
       let s1 = s\<lparr>my_failed_list := failed\<rparr>;
           active_memb = memb_set_subtract (my_proc_list s1) [my_id s1]
       in if join_len active_memb failed > JOIN_DATA_SIZE then Inr s1
          else Inr (emit (Mcast_flush_send (Join
                      \<lparr>mj_header = (totemsrp_header s1 MESSAGE_TYPE_MEMB_JOIN 0)
                                     \<lparr>hdr_nodeid := LEAVE_DUMMY_NODEID\<rparr>,
                       mj_system_from = my_id s1, mj_ring_seq = ring_seq (my_ring_id s1),
                       proc_list = active_memb, failed_list = failed\<rparr>))
                    (emit (Stat ''memb_join_tx'') s1)))"

definition memb_merge_detect_transmit :: "totemsrp_instance \<Rightarrow> totemsrp_instance c_result" where
  "memb_merge_detect_transmit s =
     bindE (assertE (nodeid (my_id s) \<noteq> 0)) (\<lambda>_.
       Inr (emit (Mcast_flush_send (Merge_detect
              \<lparr>md_header = totemsrp_header s MESSAGE_TYPE_MEMB_MERGE_DETECT 0,
               md_system_from = my_id s, md_ring_id = my_ring_id s\<rparr>))
             (emit (Stat ''memb_merge_detect_tx'') s)))"

definition timer_function_merge_detect_timeout ::
  "totemsrp_instance \<Rightarrow> totemsrp_instance c_result" where
  "timer_function_merge_detect_timeout s =
     (let s1 = s\<lparr>my_merge_detect_timeout_outstanding := False\<rparr> in
      case memb_state s1 of
        MEMB_STATE_OPERATIONAL \<Rightarrow>
          if rep (my_ring_id s1) = nodeid (my_id s1) then memb_merge_detect_transmit s1 else Inr s1
      | _ \<Rightarrow> Inr s1)"

section \<open>Gather\<close>

definition reset_join_timeout :: "totemsrp_instance \<Rightarrow> totemsrp_instance" where
  "reset_join_timeout s =
     reset_timer Gather_join_timeout (uint (join_timeout (totem_config s)) * QB_TIME_NS_IN_MSEC) s"

definition memb_state_gather_enter ::
  "gather_state_from \<Rightarrow> totemsrp_instance \<Rightarrow> totemsrp_instance c_result" where
  "memb_state_gather_enter gather_from s =
     (let s1 = s\<lparr>orf_token_discard := True, originated_orf_token := False\<rparr> in
      bindE (memb_set_merge [my_id s1] (my_proc_list s1)) (\<lambda>procs.
      bindE (memb_join_message_send (s1\<lparr>my_proc_list := procs\<rparr>)) (\<lambda>s2.
        let s3 = reset_timer Gather_consensus_timeout
                   (uint (consensus_timeout (totem_config s2)) * QB_TIME_NS_IN_MSEC)
                   (reset_join_timeout s2);
            s4 = cancel_merge_detect_timeout (cancel_token_timeout (cancel_token_retransmit_timeout s3))
        in bindE (memb_consensus_set (my_id s4) (memb_consensus_reset s4)) (\<lambda>s5.
             let s6 = emit (Stat ''gather_entered'') (s5\<lparr>memb_state := MEMB_STATE_GATHER\<rparr>)
             in Inr (if gather_from = TOTEMSRP_GSFROM_THE_CONSENSUS_TIMEOUT_EXPIRED
                     then emit (Stat ''continuous_gather'') s6 else s6)))))"

definition memb_state_consensus_timeout_expired ::
  "totemsrp_instance \<Rightarrow> totemsrp_instance c_result" where
  "memb_state_consensus_timeout_expired s =
     (let s1 = emit (Stat ''consensus_timeouts'') s in
      bindE (memb_consensus_agreed s1) (\<lambda>agreed.
        if agreed
        then bindE (memb_consensus_set (my_id s1) (memb_consensus_reset s1)) (\<lambda>s2.
               Inr (reset_token_timeout s2))
        else bindE (memb_set_merge (memb_consensus_notset s1) (my_failed_list s1)) (\<lambda>failed.
               memb_state_gather_enter TOTEMSRP_GSFROM_CONSENSUS_TIMEOUT
                 (s1\<lparr>my_failed_list := failed\<rparr>))))"

definition memb_recovery_state_token_loss :: "totemsrp_instance \<Rightarrow> totemsrp_instance c_result" where
  "memb_recovery_state_token_loss s =
     bindE (memb_state_gather_enter TOTEMSRP_GSFROM_THE_TOKEN_WAS_LOST_IN_THE_RECOVERY_STATE
              (old_ring_state_restore s)) (\<lambda>s1.
       Inr (emit (Stat ''recovery_token_lost'') s1))"

definition timer_function_orf_token_timeout :: "totemsrp_instance \<Rightarrow> totemsrp_instance c_result" where
  "timer_function_orf_token_timeout s =
     (case memb_state s of
        MEMB_STATE_OPERATIONAL \<Rightarrow>
          bindE (memb_state_gather_enter
                   TOTEMSRP_GSFROM_THE_TOKEN_WAS_LOST_IN_THE_OPERATIONAL_STATE (emit Iface_check s))
            (\<lambda>s1. Inr (emit (Stat ''operational_token_lost'') s1))
      | MEMB_STATE_GATHER \<Rightarrow>
          bindE (memb_state_consensus_timeout_expired s) (\<lambda>s1.
          bindE (memb_state_gather_enter TOTEMSRP_GSFROM_THE_CONSENSUS_TIMEOUT_EXPIRED s1) (\<lambda>s2.
            Inr (emit (Stat ''gather_token_lost'') s2)))
      | MEMB_STATE_COMMIT \<Rightarrow>
          bindE (memb_state_gather_enter TOTEMSRP_GSFROM_THE_TOKEN_WAS_LOST_IN_THE_COMMIT_STATE s)
            (\<lambda>s1. Inr (emit (Stat ''commit_token_lost'') s1))
      | MEMB_STATE_RECOVERY \<Rightarrow>
          bindE (memb_recovery_state_token_loss s) (\<lambda>s1. Inr (s1\<lparr>orf_token_discard := True\<rparr>)))"

definition timer_function_heartbeat_timeout :: "totemsrp_instance \<Rightarrow> totemsrp_instance c_result" where
  "timer_function_heartbeat_timeout s = timer_function_orf_token_timeout s"

definition totemsrp_force_gather :: "totemsrp_instance \<Rightarrow> totemsrp_instance c_result" where
  "totemsrp_force_gather s = timer_function_orf_token_timeout s"

definition memb_timer_function_state_gather :: "totemsrp_instance \<Rightarrow> totemsrp_instance c_result" where
  "memb_timer_function_state_gather s =
     (if memb_state s = MEMB_STATE_OPERATIONAL \<or> memb_state s = MEMB_STATE_RECOVERY
      then Inl AssertFailed
      else bindE (memb_join_message_send s) (\<lambda>s1. Inr (reset_join_timeout s1)))"

definition memb_timer_function_gather_consensus_timeout ::
  "totemsrp_instance \<Rightarrow> totemsrp_instance c_result" where
  "memb_timer_function_gather_consensus_timeout s = memb_state_consensus_timeout_expired s"

section \<open>The commit token\<close>

fun lowest_nodeid :: "u32 \<Rightarrow> srp_addr list \<Rightarrow> u32" where
  "lowest_nodeid lowest [] = lowest"
| "lowest_nodeid lowest (a # as) =
     (if lowest > nodeid a then lowest_nodeid (nodeid a) as else lowest_nodeid lowest as)"

definition memb_lowest_in_config :: "totemsrp_instance \<Rightarrow> bool c_result" where
  "memb_lowest_in_config s =
     (case memb_set_subtract (my_proc_list s) (my_failed_list s) of
        [] \<Rightarrow> Inl AssertFailed
      | a # token_memb \<Rightarrow> Inr (lowest_nodeid (nodeid a) token_memb = nodeid (my_id s)))"

definition zero_memb_entry :: memb_commit_token_memb_entry where
  "zero_memb_entry =
     \<lparr>me_ring_id = \<lparr>rep = 0, ring_seq = 0\<rparr>, me_aru = 0, me_high_delivered = 0, me_received_flg = 0\<rparr>"

definition memb_state_commit_token_create :: "totemsrp_instance \<Rightarrow> totemsrp_instance c_result" where
  "memb_state_commit_token_create s =
     (let token_memb = sort (memb_set_subtract (my_proc_list s) (my_failed_list s)) in
      bindE (assertE (nodeid (my_id s) \<noteq> 0)) (\<lambda>_.
        Inr (s\<lparr>commit_token :=
               \<lparr>ct_header = totemsrp_header s MESSAGE_TYPE_MEMB_COMMIT_TOKEN 0, ct_token_seq = 0,
                ct_ring_id = \<lparr>rep = nodeid (my_id s), ring_seq = token_ring_id_seq s + 4\<rparr>,
                ct_retrans_flg = 0, memb_index = 0, ct_addr = token_memb,
                memb_list = replicate (length token_memb) zero_memb_entry\<rparr>\<rparr>)))"

text \<open>The highest \<open>aru\<close> of the entries that come from the ring \<open>r\<close>.\<close>

fun high_aru_loop :: "totem_ring_id \<Rightarrow> u32 \<Rightarrow> memb_commit_token_memb_entry list \<Rightarrow> u32" where
  "high_aru_loop r high_aru [] = high_aru"
| "high_aru_loop r high_aru (e # es) =
     (if me_ring_id e = r \<and> sq_lt_compare high_aru (me_aru e)
      then high_aru_loop r (me_aru e) es else high_aru_loop r high_aru es)"

definition clear_received ::
  "totem_ring_id \<Rightarrow> u32 \<Rightarrow> memb_commit_token_memb_entry \<Rightarrow> memb_commit_token_memb_entry" where
  "clear_received r high_aru e =
     (if me_ring_id e = r \<and> sq_lt_compare (me_aru e) high_aru then e\<lparr>me_received_flg := 0\<rparr> else e)"

definition my_memb_entry :: "totemsrp_instance \<Rightarrow> memb_commit_token_memb_entry" where
  "my_memb_entry s =
     \<lparr>me_ring_id = my_old_ring_id s, me_aru = old_ring_state_aru s,
      me_high_delivered = my_high_delivered s,
      me_received_flg = (if my_aru s = my_high_seq_received s then 1 else 0)\<rparr>"

definition memb_state_commit_token_update :: "totemsrp_instance \<Rightarrow> totemsrp_instance c_result" where
  "memb_state_commit_token_update s =
     (let ct = commit_token s; n = length (ct_addr ct); i = nat (sint (memb_index ct)) in
      if n > PROCESSOR_COUNT_MAX \<or> sint (memb_index ct) < 0 \<or> length (memb_list ct) \<noteq> n
      then Inl OutOfBounds
      else bindE (assertE (sint (memb_index ct) + 1 \<le> int n)) (\<lambda>_.
        let l1 = (memb_list ct)[i := my_memb_entry s];
            r = my_old_ring_id s;
            high_aru = high_aru_loop r (old_ring_state_aru s) (take (Suc i) l1);
            l2 = map (clear_received r high_aru) (take (Suc i) l1) @ drop (Suc i) l1;
            s1 = s\<lparr>my_new_memb_list := ct_addr ct,
                   my_received_flg := (my_aru s = my_high_seq_received s) \<and>
                     \<not> sq_lt_compare (old_ring_state_aru s) high_aru,
                   commit_token := ct\<lparr>memb_list := l2, memb_index := memb_index ct + 1,
                     ct_header := (ct_header ct)\<lparr>hdr_nodeid := nodeid (my_id s)\<rparr>\<rparr>\<rparr>
        in bindE (assertE (nodeid (my_id s) \<noteq> 0)) (\<lambda>_. Inr s1)))"

text \<open>
  The token is sent and a copy kept for retransmission: from the instance on the way through the
  ring, from the received message when recovery is entered.
\<close>

definition commit_token_out ::
  "memb_commit_token \<Rightarrow> totemsrp_instance \<Rightarrow> memb_commit_token" where
  "commit_token_out ct s =
     ct\<lparr>ct_token_seq := ct_token_seq ct + 1,
        ct_header := (ct_header ct)\<lparr>hdr_nodeid := nodeid (my_id s)\<rparr>\<rparr>"

definition memb_state_commit_token_send_recovery ::
  "memb_commit_token \<Rightarrow> totemsrp_instance \<Rightarrow> totemsrp_instance" where
  "memb_state_commit_token_send_recovery ct s =
     (let ct1 = commit_token_out ct s
      in reset_token_retransmit_timeout (emit (Token_send (Some (Commit_token ct1)))
           (emit (Stat ''memb_commit_token_tx'')
             (s\<lparr>orf_token_retransmit := Some (Commit_token ct1)\<rparr>))))"

definition memb_state_commit_token_send :: "totemsrp_instance \<Rightarrow> totemsrp_instance" where
  "memb_state_commit_token_send s =
     memb_state_commit_token_send_recovery (commit_token s)
       (s\<lparr>commit_token := commit_token_out (commit_token s) s\<rparr>)"

definition target_set_completed :: "totemsrp_instance \<Rightarrow> totemsrp_instance" where
  "target_set_completed s = memb_state_commit_token_send s"

text \<open>The network layer calls \<open>target_set_completed\<close> back as soon as the target is set.\<close>

definition memb_state_commit_token_target_set :: "totemsrp_instance \<Rightarrow> totemsrp_instance c_result" where
  "memb_state_commit_token_target_set s =
     (let ct = commit_token s in
      if ct_addr ct = [] then Inl DivideByZero
      else bindE (array_get (ct_addr ct) (sint (memb_index ct) mod int (length (ct_addr ct)))) (\<lambda>a.
             Inr (target_set_completed (emit (Token_target_set (nodeid a)) s))))"

section \<open>Commit\<close>

definition memb_state_commit_enter :: "totemsrp_instance \<Rightarrow> totemsrp_instance c_result" where
  "memb_state_commit_enter s =
     bindE (memb_state_commit_token_update (old_ring_state_save s)) (\<lambda>s1.
     bindE (memb_state_commit_token_target_set s1) (\<lambda>s2.
       let s3 = memb_ring_id_set (ct_ring_id (commit_token s2))
                  (emit (Timer_del Gather_consensus_timeout) (emit (Timer_del Gather_join_timeout) s2));
           s4 = (emit (Ring_id_store (my_ring_id s3) (nodeid (my_id s3))) s3)
                  \<lparr>token_ring_id_seq := ring_seq (my_ring_id s3), memb_state := MEMB_STATE_COMMIT\<rparr>;
           s5 = emit (Stat_clear ''continuous_gather'') (emit (Stat ''commit_entered'')
                  (reset_token_timeout (reset_token_retransmit_timeout s4)))
       in Inr (s5\<lparr>my_trc := 0, my_pbl := 0, my_cbl := 0\<rparr>)))"

end
