(* ===== verification/Srp_Recovery.thy ===== *)
theory Srp_Recovery
  imports Srp_Member
begin

text \<open>
  The two state entries of \<^verbatim>\<open>totemsrp.c\<close> that move messages between rings. On entering \<open>RECOVERY\<close>
  the messages of the old ring that some member of the transitional configuration may lack are
  encapsulated and queued for the new ring; on entering \<open>OPERATIONAL\<close> the recovered messages go
  back into the sort queue of the old ring, are delivered around the transitional configuration,
  and the recovery queue becomes the sort queue of the new ring.
\<close>

section \<open>Entering the recovery state\<close>

definition encapsulate :: "totemsrp_instance \<Rightarrow> sort_queue_item \<Rightarrow> message_item" where
  "encapsulate s item =
     \<lparr>mi_mcast =
        Mcast (totemsrp_header s MESSAGE_TYPE_MCAST (encap_code MESSAGE_ENCAPSULATED)) (my_id s) 0 0
          (my_ring_id s) 0 0 (Inner (mi_mcast item)),
      mi_msg_len = mi_msg_len item + of_nat sizeof_mcast\<rparr>"

fun originate_loop ::
  "bool \<Rightarrow> nat \<Rightarrow> u32 \<Rightarrow> totemsrp_instance \<Rightarrow> totemsrp_instance c_result" where
  "originate_loop buffer 0 seq s = Inr s"
| "originate_loop buffer (Suc n) seq s =
     bindE (sq_item_get (regular_sort_queue s) seq) (\<lambda>(res, ptr).
       case ptr of
         None \<Rightarrow> originate_loop buffer n (seq + 1) s
       | Some item \<Rightarrow>
           bindE (assertE (buffer \<and> nodeid (my_id s) \<noteq> 0)) (\<lambda>_.
           bindE (cs_queue_item_add (retrans_message_queue s) (encapsulate s item)) (\<lambda>q.
             originate_loop buffer n (seq + 1) (s\<lparr>retrans_message_queue := q\<rparr>))))"

definition not_received ::
  "srp_addr list \<Rightarrow> srp_addr \<times> memb_commit_token_memb_entry \<Rightarrow> bool" where
  "not_received members m \<longleftrightarrow> memb_set_subset [fst m] members \<and> me_received_flg (snd m) = 0"

text \<open>The lowest \<open>aru\<close> and the highest delivered message over the members of the old ring.\<close>

fun low_aru_loop ::
  "totemsrp_instance \<Rightarrow> (srp_addr \<times> memb_commit_token_memb_entry) list \<Rightarrow> u32 \<Rightarrow> u32 \<Rightarrow> u32 \<times> u32" where
  "low_aru_loop s [] low high = (low, high)"
| "low_aru_loop s ((a, e) # ms) low high =
     (if memb_set_subset [a] (my_deliver_memb_list s) \<and> my_old_ring_id s = me_ring_id e
      then low_aru_loop s ms
             (if sq_lt_compare (me_aru e) low then me_aru e else low)
             (if sq_lt_compare high (me_high_delivered e) then me_high_delivered e else high)
      else low_aru_loop s ms low high)"

definition recovery_originate ::
  "bool \<Rightarrow> (srp_addr \<times> memb_commit_token_memb_entry) list \<Rightarrow> totemsrp_instance \<Rightarrow>
   totemsrp_instance c_result" where
  "recovery_originate buffer membs s =
     (if \<not> list_ex (not_received (my_trans_memb_list s)) membs then Inr s
      else let s1 = s\<lparr>my_deliver_memb_list := my_trans_memb_list s\<rparr>;
               (low_ring_aru, high) =
                 low_aru_loop s1 membs (old_ring_state_high_seq_received s1) (my_high_ring_delivered s1);
               s2 = s1\<lparr>my_high_ring_delivered := high\<rparr>;
               range = old_ring_state_high_seq_received s2 - low_ring_aru
           in if range = 0 then Inr s2
              else bindE (assertE (unat range < QUEUE_RTR_ITEMS_SIZE_MAX)) (\<lambda>_.
                originate_loop buffer (unat range) (low_ring_aru + 1) s2))"

definition recovery_reset :: "memb_commit_token \<Rightarrow> totemsrp_instance \<Rightarrow> totemsrp_instance" where
  "recovery_reset ct s =
     (let s1 = s\<lparr>orf_token_discard := False, my_high_ring_delivered := 0,
                 recovery_sort_queue := sq_reinit zero_item (recovery_sort_queue s) SEQNO_START_MSG,
                 retrans_message_queue := cs_queue_reinit zero_item (retrans_message_queue s)\<rparr>;
          s2 = (memb_state_commit_token_send_recovery ct s1)\<lparr>my_token_seq := SEQNO_START_TOKEN - 1\<rparr>
      in emit (Processor_count_set (int (length (ct_addr ct)))) s2)"

definition memb_state_recovery_enter ::
  "bool \<Rightarrow> memb_commit_token \<Rightarrow> totemsrp_instance \<Rightarrow> totemsrp_instance c_result" where
  "memb_state_recovery_enter buffer ct s =
     (if length (ct_addr ct) \<noteq> length (my_new_memb_list s) \<or>
         length (memb_list ct) \<noteq> length (ct_addr ct) then Inl OutOfBounds
      else let s1 = recovery_reset ct s;
               s2 = s1\<lparr>my_trans_memb_list :=
                        memb_set_and_with_ring_id (my_new_memb_list s1) (map me_ring_id (memb_list ct))
                          (my_memb_list s1) (my_old_ring_id s1)\<rparr>
           in bindE (recovery_originate buffer (zip (my_new_memb_list s2) (memb_list ct)) s2) (\<lambda>s3.
                let s4 = s3\<lparr>my_aru := SEQNO_START_MSG, my_aru_count := 0, my_seq_unchanged := 0,
                            my_high_seq_received := SEQNO_START_MSG, my_install_seq := SEQNO_START_MSG,
                            last_released := SEQNO_START_MSG\<rparr>;
                    s5 = reset_token_retransmit_timeout (reset_token_timeout s4)
                in Inr (emit (Stat_clear ''continuous_gather'') (emit (Stat ''recovery_entered'')
                          (s5\<lparr>memb_state := MEMB_STATE_RECOVERY\<rparr>)))))"

section \<open>Recovered messages\<close>

text \<open>
  The bytes of an encapsulated message are those of a message of the old ring; a message of the
  new ring that is marked as encapsulated and carries anything else is read past its end.
\<close>

definition recover_item :: "mcast \<Rightarrow> u32 \<Rightarrow> totemsrp_instance \<Rightarrow> totemsrp_instance c_result" where
  "recover_item m msg_len s =
     (if my_old_ring_id s = mc_ring_id m
      then bindE (sq_item_inuse (regular_sort_queue s) (mc_seq m)) (\<lambda>inuse.
             if inuse then Inr s
             else bindE (sq_item_add (regular_sort_queue s)
                           \<lparr>mi_mcast = m, mi_msg_len = msg_len - of_nat sizeof_mcast\<rparr> (mc_seq m)) (\<lambda>q.
               let s1 = s\<lparr>regular_sort_queue := q\<rparr>
               in Inr (if sq_lt_compare (old_ring_state_high_seq_received s1) (mc_seq m)
                       then s1\<lparr>old_ring_state_high_seq_received := mc_seq m\<rparr> else s1)))
      else Inr s)"

fun recover_loop :: "nat \<Rightarrow> u32 \<Rightarrow> totemsrp_instance \<Rightarrow> totemsrp_instance c_result" where
  "recover_loop 0 seq s = Inr s"
| "recover_loop (Suc n) seq s =
     bindE (sq_item_get (recovery_sort_queue s) seq) (\<lambda>(res, ptr).
       case ptr of
         None \<Rightarrow> recover_loop n (seq + 1) s
       | Some item \<Rightarrow>
           if mc_encapsulated (mi_mcast item)
           then (case body (mi_mcast item) of
                   Data bytes \<Rightarrow> Inl OutOfBounds
                 | Inner m \<Rightarrow> bindE (recover_item m (mi_msg_len item) s) (recover_loop n (seq + 1)))
           else recover_loop n (seq + 1) s)"

definition deliver_messages_from_recovery_to_regular ::
  "totemsrp_instance \<Rightarrow> totemsrp_instance c_result" where
  "deliver_messages_from_recovery_to_regular s =
     recover_loop (unat (my_aru s - SEQNO_START_MSG)) (1 + SEQNO_START_MSG) s"

section \<open>Entering the operational state\<close>

text \<open>
  The notice of a new membership is printed into buffers of 1024 bytes with
  \<^verbatim>\<open>snprintf (msg + sptr, sizeof (msg) - sptr, ...)\<close>, where \<open>sptr\<close> grows by the length the text
  would have. Once \<open>sptr\<close> exceeds the size, the size argument wraps around.
\<close>

definition NODE_MSG_SIZE :: nat where
  "NODE_MSG_SIZE = 1024"

fun dec_digits :: "nat \<Rightarrow> nat" where
  "dec_digits n = (if n < 10 then 1 else Suc (dec_digits (n div 10)))"

declare dec_digits.simps [simp del]

fun node_msg_fits :: "nat \<Rightarrow> u32 list \<Rightarrow> bool" where
  "node_msg_fits sptr [] = True"
| "node_msg_fits sptr (n # ns) =
     (if sptr > NODE_MSG_SIZE then False else node_msg_fits (sptr + 1 + dec_digits (unat n)) ns)"

definition membership_notice_fits :: "totemsrp_instance \<Rightarrow> u32 list \<Rightarrow> u32 list \<Rightarrow> bool" where
  "membership_notice_fits s joined left \<longleftrightarrow>
     node_msg_fits (length '' joined:'') joined \<and>
     node_msg_fits (length '' left:'') left \<and>
     node_msg_fits (length '' failed:'') (filter (\<lambda>n. my_leave_memb_match s n = 0) left)"

text \<open>The highest sequence number of the new ring that was received, or 0.\<close>

fun high_loop :: "sort_queue_item sq \<Rightarrow> nat \<Rightarrow> nat c_result" where
  "high_loop q 0 = bindE (sq_item_get q 0) (\<lambda>_. Inr 0)"
| "high_loop q (Suc i) =
     bindE (sq_item_get q (of_nat (Suc i))) (\<lambda>(res, ptr).
       if res = 0 then Inr (Suc i) else high_loop q i)"

fun free_items_loop :: "nat \<Rightarrow> u32 \<Rightarrow> totemsrp_instance \<Rightarrow> totemsrp_instance c_result" where
  "free_items_loop 0 seq s = Inr s"
| "free_items_loop (Suc n) seq s =
     bindE (sq_item_get (regular_sort_queue s) seq) (\<lambda>(res, ptr).
       free_items_loop n (seq + 1)
         (case ptr of None \<Rightarrow> s | Some item \<Rightarrow> emit (Buffer_release (mi_mcast item)) s))"

text \<open>From the recovered messages to the delivery of the transitional configuration.\<close>

definition operational_transitional ::
  "totemsrp_instance \<Rightarrow> (srp_addr list \<times> totemsrp_instance) c_result" where
  "operational_transitional s =
     bindE (deliver_messages_from_recovery_to_regular
              (old_ring_state_reset (memb_consensus_reset (s\<lparr>originated_orf_token := False\<rparr>)))) (\<lambda>s1.
     bindE (messages_deliver_to_app False (old_ring_state_high_seq_received s1)
              (s1\<lparr>my_aru := old_ring_state_aru s1\<rparr>)) (\<lambda>s2.
       let left = memb_set_subtract (my_memb_list s2) (my_trans_memb_list s2);
           joined_list = memb_set_subtract (my_new_memb_list s2) (my_trans_memb_list s2);
           s3 = s2\<lparr>my_left_memb_list := left, my_memb_list := my_new_memb_list s2, last_released := 0,
                   my_set_retrans_flg := False\<rparr>;
           s4 = (emit (Confchg TOTEM_CONFIGURATION_TRANSITIONAL
                         (srp_addr_to_nodeid (my_trans_memb_list s3)) (srp_addr_to_nodeid left) []
                         (my_ring_id s3)) s3)\<lparr>waiting_trans_ack := True\<rparr>
       in bindE (messages_deliver_to_app True (old_ring_state_high_seq_received s4) s4) (\<lambda>s5.
            Inr (joined_list, emit (Waiting_trans_ack_cb True) s5\<lparr>my_aru := my_aru s1\<rparr>))))"

text \<open>The regular configuration and the switch to the sort queue of the new ring.\<close>

definition operational_regular ::
  "srp_addr list \<Rightarrow> totemsrp_instance \<Rightarrow> totemsrp_instance c_result" where
  "operational_regular joined_list s =
     (let s1 = emit (Confchg TOTEM_CONFIGURATION_REGULAR (srp_addr_to_nodeid (my_new_memb_list s)) []
                       (srp_addr_to_nodeid joined_list) (my_ring_id s)) s in
      bindE (sq_copy (regular_sort_queue s1) (recovery_sort_queue s1)) (\<lambda>q.
        let s2 = s1\<lparr>regular_sort_queue := q, my_last_aru := SEQNO_START_MSG,
                    my_proc_list := my_new_memb_list s1, my_failed_list := []\<rparr>
        in bindE (high_loop q (unat (my_high_seq_received s2))) (\<lambda>high.
           bindE (free_items_loop (Suc high) 0 (s2\<lparr>my_high_delivered := of_nat high\<rparr>)) (\<lambda>s3.
           bindE (sq_items_release (regular_sort_queue s3) (my_high_delivered s3)) (\<lambda>q'.
             Inr (s3\<lparr>regular_sort_queue := q', last_released := my_high_delivered s3\<rparr>))))))"

definition memb_state_operational_enter :: "totemsrp_instance \<Rightarrow> totemsrp_instance c_result" where
  "memb_state_operational_enter s =
     bindE (operational_transitional s) (\<lambda>(joined_list, s1).
     bindE (operational_regular joined_list s1) (\<lambda>s2.
       if \<not> membership_notice_fits s2 (srp_addr_to_nodeid joined_list)
              (srp_addr_to_nodeid (my_left_memb_list s2)) then Inl OutOfBounds
       else let s3 = (my_leave_memb_clear s2)\<lparr>memb_state := MEMB_STATE_OPERATIONAL\<rparr>;
                s4 = (emit (Stat_clear ''continuous_gather'') (emit (Stat ''operational_entered'') s3))
                       \<lparr>my_received_flg := True\<rparr>
            in Inr ((reset_pause_timeout s4)\<lparr>my_old_ring_id := my_ring_id s4\<rparr>)))"

end
