(* ===== verification/Srp_Handlers.thy ===== *)
theory Srp_Handlers
  imports Srp_Recovery
begin

text \<open>
  The message handlers of \<^verbatim>\<open>totemsrp.c\<close>, the dispatcher \<open>main_deliver_fn\<close> and the functions called
  from outside the protocol. What the handlers obtain from their environment is the record
  \<open>srp_env\<close>: the largest frame of the network layer, whether buffers can be allocated, the clock,
  the results of the token callbacks, the multicasts that flushing the receive queue brings, and
  what the stack holds where the conversion of a commit token leaves it untouched.
\<close>

record srp_env =
  frame_size_max :: nat
  buffer_alloc :: bool
  nano_current :: u64
  recv_mcast_empty :: int
  callback_result :: "nat \<Rightarrow> int"
  recv_queue :: "(srp_multicast \<times> nat) list"
  stack_entries :: "memb_commit_token_memb_entry list"

section \<open>Multicast messages\<close>

definition foreign_message ::
  "srp_addr \<Rightarrow> gather_state_from \<Rightarrow> totemsrp_instance \<Rightarrow> totemsrp_instance c_result" where
  "foreign_message from g s =
     bindE (memb_set_merge [from] (my_proc_list s)) (\<lambda>procs.
       memb_state_gather_enter g (s\<lparr>my_proc_list := procs\<rparr>))"

definition mcast_foreign :: "srp_addr \<Rightarrow> totemsrp_instance \<Rightarrow> totemsrp_instance c_result" where
  "mcast_foreign from s =
     (case memb_state s of
        MEMB_STATE_OPERATIONAL \<Rightarrow>
          foreign_message from TOTEMSRP_GSFROM_FOREIGN_MESSAGE_IN_OPERATIONAL_STATE s
      | MEMB_STATE_GATHER \<Rightarrow>
          if \<not> memb_set_subset [from] (my_proc_list s)
          then foreign_message from TOTEMSRP_GSFROM_FOREIGN_MESSAGE_IN_GATHER_STATE s
          else Inr s
      | MEMB_STATE_COMMIT \<Rightarrow> Inr (emit (Stat ''rx_msg_dropped'') s)
      | MEMB_STATE_RECOVERY \<Rightarrow> Inr (emit (Stat ''rx_msg_dropped'') s))"

text \<open>The queue the message belongs to, by the flag of its header.\<close>

definition mcast_sort_queue :: "mcast \<Rightarrow> totemsrp_instance \<Rightarrow> sort_queue_item sq" where
  "mcast_sort_queue m s =
     (if mc_encapsulated m then recovery_sort_queue s else regular_sort_queue s)"

definition put_mcast_sort_queue ::
  "mcast \<Rightarrow> sort_queue_item sq \<Rightarrow> totemsrp_instance \<Rightarrow> totemsrp_instance" where
  "put_mcast_sort_queue m q s =
     (if mc_encapsulated m then s\<lparr>recovery_sort_queue := q\<rparr> else s\<lparr>regular_sort_queue := q\<rparr>)"

text \<open>
  The message \<open>raw\<close> is stored as received; \<open>m\<close> is its header in the local byte order. \<open>None\<close> is
  the early return with -1 when no buffer is left.
\<close>

definition mcast_store ::
  "srp_env \<Rightarrow> mcast \<Rightarrow> mcast \<Rightarrow> nat \<Rightarrow> totemsrp_instance \<Rightarrow> totemsrp_instance option c_result" where
  "mcast_store env raw m msg_len s =
     (let q = mcast_sort_queue m s in
      if \<not> (msg_len > 0 \<and> msg_len \<le> frame_size_max env \<and> sq_in_range q (mc_seq m)) then Inr (Some s)
      else bindE (sq_item_inuse q (mc_seq m)) (\<lambda>inuse.
        if inuse then Inr (Some s)
        else if \<not> buffer_alloc env then Inr None
        else let s1 = (if sq_lt_compare (my_high_seq_received s) (mc_seq m)
                       then s\<lparr>my_high_seq_received := mc_seq m\<rparr> else s)
             in bindE (sq_item_add q \<lparr>mi_mcast = raw, mi_msg_len = of_nat msg_len\<rparr> (mc_seq m)) (\<lambda>q'.
                  Inr (Some (put_mcast_sort_queue m q' s1)))))"

definition message_handler_mcast ::
  "srp_env \<Rightarrow> mcast \<Rightarrow> nat \<Rightarrow> bool \<Rightarrow> totemsrp_instance \<Rightarrow> (int \<times> totemsrp_instance) c_result" where
  "message_handler_mcast env raw msg_len endian_conversion_needed s =
     (if \<not> check_mcast_sanity msg_len then Inr (0, s)
      else let m = (if endian_conversion_needed then mcast_endian_convert raw else raw) in
        bindE (assertE (msg_len \<le> frame_size_max env)) (\<lambda>_.
          if my_ring_id s \<noteq> mc_ring_id m
          then bindE (mcast_foreign (system_from m) s) (\<lambda>s1. Inr (0, s1))
          else bindE (mcast_store env raw m msg_len s) (\<lambda>r.
            case r of
              None \<Rightarrow> Inr (- 1, s)
            | Some s1 \<Rightarrow>
                bindE (update_aru s1) (\<lambda>s2.
                bindE (if memb_state s2 = MEMB_STATE_OPERATIONAL
                       then messages_deliver_to_app False (my_high_seq_received s2) s2
                       else Inr s2) (\<lambda>s3. Inr (0, s3))))))"

section \<open>Merge detection\<close>

definition message_handler_memb_merge_detect ::
  "memb_merge_detect \<Rightarrow> nat \<Rightarrow> bool \<Rightarrow> totemsrp_instance \<Rightarrow> totemsrp_instance c_result" where
  "message_handler_memb_merge_detect raw msg_len endian_conversion_needed s =
     (if \<not> check_memb_merge_detect_sanity msg_len then Inr s
      else let m = (if endian_conversion_needed then memb_merge_detect_endian_convert raw else raw) in
        if my_ring_id s = md_ring_id m then Inr s
        else case memb_state s of
               MEMB_STATE_OPERATIONAL \<Rightarrow>
                 foreign_message (md_system_from m) TOTEMSRP_GSFROM_MERGE_DURING_OPERATIONAL_STATE s
             | MEMB_STATE_GATHER \<Rightarrow>
                 if \<not> memb_set_subset [md_system_from m] (my_proc_list s)
                 then foreign_message (md_system_from m) TOTEMSRP_GSFROM_MERGE_DURING_GATHER_STATE s
                 else Inr s
             | _ \<Rightarrow> Inr s)"

section \<open>Join messages\<close>

text \<open>The last entry of the failed list of a leave message is the processor that leaves.\<close>

definition note_leave :: "memb_join \<Rightarrow> totemsrp_instance \<Rightarrow> totemsrp_instance" where
  "note_leave m s =
     (if failed_list m \<noteq> [] then my_leave_memb_set (nodeid (last (failed_list m))) s else s)"

definition is_leave :: "memb_join \<Rightarrow> bool" where
  "is_leave m \<longleftrightarrow> hdr_nodeid (mj_header m) = LEAVE_DUMMY_NODEID"

text \<open>The join message agrees with this processor: consensus may be complete.\<close>

definition join_agreed :: "memb_join \<Rightarrow> totemsrp_instance \<Rightarrow> totemsrp_instance c_result" where
  "join_agreed m s =
     bindE (if \<not> is_leave m then memb_consensus_set (mj_system_from m) s else Inr s) (\<lambda>s1.
     bindE (memb_consensus_agreed s1) (\<lambda>agreed.
       if agreed \<and> failed_to_recv s1
       then bindE (memb_state_commit_token_create
                     (s1\<lparr>failed_to_recv := False, my_proc_list := [my_id s1], my_failed_list := []\<rparr>))
              memb_state_commit_enter
       else bindE (if agreed then memb_lowest_in_config s1 else Inr False) (\<lambda>lowest.
              if agreed \<and> lowest
              then bindE (memb_state_commit_token_create s1) memb_state_commit_enter
              else if memb_state s1 = MEMB_STATE_OPERATIONAL
              then memb_state_gather_enter TOTEMSRP_GSFROM_JOIN_DURING_OPERATIONAL_STATE s1
              else Inr s1)))"

text \<open>The join message brings something new: merge its lists and gather again.\<close>

definition join_merge_failed :: "memb_join \<Rightarrow> totemsrp_instance \<Rightarrow> srp_addr list c_result" where
  "join_merge_failed m s =
     (let from = mj_system_from m in
      if memb_set_subset [my_id s] (failed_list m) then memb_set_merge [from] (my_failed_list s)
      else if memb_set_subset [from] (my_memb_list s)
      then (if \<not> memb_set_subset [from] (my_failed_list s)
            then memb_set_merge (failed_list m) (my_failed_list s)
            else memb_set_merge (memb_set_subtract (failed_list m) (my_memb_list s)) (my_failed_list s))
      else Inr (my_failed_list s))"

definition join_merge :: "memb_join \<Rightarrow> totemsrp_instance \<Rightarrow> totemsrp_instance c_result" where
  "join_merge m s =
     bindE (memb_set_merge (proc_list m) (my_proc_list s)) (\<lambda>procs.
       let s1 = s\<lparr>my_proc_list := procs\<rparr> in
     bindE (join_merge_failed m s1) (\<lambda>failed.
       memb_state_gather_enter TOTEMSRP_GSFROM_MERGE_DURING_JOIN (s1\<lparr>my_failed_list := failed\<rparr>)))"

definition memb_join_process :: "memb_join \<Rightarrow> totemsrp_instance \<Rightarrow> totemsrp_instance c_result" where
  "memb_join_process m s =
     (if flushing s then Inr (if is_leave m then note_leave m s else s)
      else let s1 = (if is_leave m then note_leave m s else s) in
        if memb_set_equal (proc_list m) (my_proc_list s1) \<and>
           memb_set_equal (failed_list m) (my_failed_list s1)
        then join_agreed m s1
        else if memb_set_subset (proc_list m) (my_proc_list s1) \<and>
                memb_set_subset (failed_list m) (my_failed_list s1) \<or>
                memb_set_subset [mj_system_from m] (my_failed_list s1)
        then (if memb_state s1 = MEMB_STATE_OPERATIONAL
              then memb_state_gather_enter TOTEMSRP_GSFROM_JOIN_DURING_OPERATIONAL_STATE s1
              else Inr s1)
        else join_merge m s1)"

definition ignore_join_under_operational :: "memb_join \<Rightarrow> totemsrp_instance \<Rightarrow> bool" where
  "ignore_join_under_operational m s =
     (if memb_set_subset [my_id s] (failed_list m) then True
      else if memb_set_subset [mj_system_from m] (my_memb_list s) \<and>
              mj_ring_seq m < ring_seq (my_ring_id s) then True
      else False)"

definition pause_flush :: "srp_env \<Rightarrow> totemsrp_instance \<Rightarrow> int" where
  "pause_flush env s =
     (let now_msec = nano_current env div 1000000;
          timestamp_msec = pause_timestamp s div 1000000
      in if now_msec - timestamp_msec > ucast (token_timeout (totem_config s) div 2)
         then recv_mcast_empty env else 0)"

text \<open>The count of a list as it stands in a received message.\<close>

definition wire_count :: "bool \<Rightarrow> nat \<Rightarrow> u32" where
  "wire_count endian n = (if endian then swab32 (of_nat n) else of_nat n)"

definition message_handler_memb_join ::
  "srp_env \<Rightarrow> memb_join \<Rightarrow> nat \<Rightarrow> bool \<Rightarrow> totemsrp_instance \<Rightarrow> totemsrp_instance c_result" where
  "message_handler_memb_join env raw msg_len endian_conversion_needed s =
     (if \<not> check_memb_join_sanity (wire_count endian_conversion_needed (length (proc_list raw)))
             (wire_count endian_conversion_needed (length (failed_list raw))) msg_len
             endian_conversion_needed then Inr s
      else let m = (if endian_conversion_needed then memb_join_endian_convert raw else raw) in
        if pause_flush env s \<noteq> 0 then Inr s
        else let s1 = (if token_ring_id_seq s < mj_ring_seq m
                       then s\<lparr>token_ring_id_seq := mj_ring_seq m\<rparr> else s)
        in case memb_state s1 of
             MEMB_STATE_OPERATIONAL \<Rightarrow>
               if \<not> ignore_join_under_operational m s1 then memb_join_process m s1 else Inr s1
           | MEMB_STATE_GATHER \<Rightarrow> memb_join_process m s1
           | MEMB_STATE_COMMIT \<Rightarrow>
               if memb_set_subset [mj_system_from m] (my_new_memb_list s1) \<and>
                  mj_ring_seq m \<ge> ring_seq (my_ring_id s1)
               then bindE (memb_join_process m s1)
                      (memb_state_gather_enter TOTEMSRP_GSFROM_JOIN_DURING_COMMIT_STATE)
               else Inr s1
           | MEMB_STATE_RECOVERY \<Rightarrow>
               if memb_set_subset [mj_system_from m] (my_new_memb_list s1) \<and>
                  mj_ring_seq m \<ge> ring_seq (my_ring_id s1)
               then bindE (memb_join_process m s1) (\<lambda>s2.
                    bindE (memb_recovery_state_token_loss s2)
                      (memb_state_gather_enter TOTEMSRP_GSFROM_JOIN_DURING_RECOVERY))
               else Inr s1)"

section \<open>The commit token\<close>

definition COMMIT_TOKEN_STORAGE :: nat where
  "COMMIT_TOKEN_STORAGE = 40000"

definition message_handler_memb_commit_token ::
  "srp_env \<Rightarrow> memb_commit_token \<Rightarrow> nat \<Rightarrow> bool \<Rightarrow> totemsrp_instance \<Rightarrow> totemsrp_instance c_result" where
  "message_handler_memb_commit_token env raw msg_len endian_conversion_needed s =
     (if \<not> check_memb_commit_token_sanity (wire_count endian_conversion_needed (length (ct_addr raw)))
             msg_len endian_conversion_needed then Inr s
      else let ct = (if endian_conversion_needed
                     then memb_commit_token_endian_convert (stack_entries env) raw else raw) in
        case memb_state s of
          MEMB_STATE_OPERATIONAL \<Rightarrow> Inr s
        | MEMB_STATE_GATHER \<Rightarrow>
            if memb_set_equal (ct_addr ct) (memb_set_subtract (my_proc_list s) (my_failed_list s)) \<and>
               ring_seq (ct_ring_id ct) > ring_seq (my_ring_id s)
            then if msg_len > COMMIT_TOKEN_STORAGE then Inl OutOfBounds
                 else memb_state_commit_enter (s\<lparr>commit_token := ct\<rparr>)
            else Inr s
        | MEMB_STATE_COMMIT \<Rightarrow>
            if ring_seq (ct_ring_id ct) = ring_seq (my_ring_id s) \<and>
               sint (memb_index ct) = int (length (ct_addr ct))
            then memb_state_recovery_enter (buffer_alloc env) ct s
            else Inr s
        | MEMB_STATE_RECOVERY \<Rightarrow>
            if nodeid (my_id s) = rep (my_ring_id s)
            then if originated_orf_token s then Inr s
                 else bindE (orf_token_send_initial (s\<lparr>originated_orf_token := True\<rparr>)) (\<lambda>s1.
                        Inr (reset_token_retransmit_timeout (reset_token_timeout s1)))
            else Inr s)"

section \<open>Token hold cancellation\<close>

definition message_handler_token_hold_cancel ::
  "token_hold_cancel \<Rightarrow> nat \<Rightarrow> bool \<Rightarrow> totemsrp_instance \<Rightarrow> totemsrp_instance" where
  "message_handler_token_hold_cancel m msg_len endian_conversion_needed s =
     (if \<not> check_token_hold_cancel_sanity msg_len then s
      else if thc_ring_id m = my_ring_id s
      then let s1 = s\<lparr>my_seq_unchanged := 0\<rparr>
           in if rep (my_ring_id s1) = nodeid (my_id s1)
              then timer_function_token_retransmit_timeout s1 else s1
      else s)"

end
