(* ===== verification/Srp_Token.thy ===== *)
theory Srp_Token
  imports Srp_Handlers
begin

text \<open>
  The handler of the token, the dispatcher of received messages and the functions the layer above
  and the network layer call (\<^verbatim>\<open>totemsrp.c\<close>).
\<close>

section \<open>Dispatch of multicasts\<close>

definition multicast_header :: "srp_multicast \<Rightarrow> totem_message_header" where
  "multicast_header m =
     (case m of Mcast_msg m \<Rightarrow> mc_header m | Merge_detect m \<Rightarrow> md_header m | Join m \<Rightarrow> mj_header m
      | Hold_cancel m \<Rightarrow> thc_header m)"

definition deliver_multicast ::
  "srp_env \<Rightarrow> srp_multicast \<times> nat \<Rightarrow> totemsrp_instance \<Rightarrow> (int \<times> totemsrp_instance) c_result" where
  "deliver_multicast env p s =
     (let (msg, msg_len) = p; h = multicast_header msg;
          endian_conversion_needed = (magic h \<noteq> TOTEM_MH_MAGIC)
      in if \<not> check_message_header_validity h msg_len then Inr (- 1, s)
         else case msg of
                Mcast_msg m \<Rightarrow>
                  message_handler_mcast env m msg_len endian_conversion_needed (emit (Stat ''mcast_rx'') s)
              | Merge_detect m \<Rightarrow>
                  bindE (message_handler_memb_merge_detect m msg_len endian_conversion_needed
                           (emit (Stat ''memb_merge_detect_rx'') s)) (\<lambda>s1. Inr (0, s1))
              | Join m \<Rightarrow>
                  bindE (message_handler_memb_join env m msg_len endian_conversion_needed
                           (emit (Stat ''memb_join_rx'') s)) (\<lambda>s1. Inr (0, s1))
              | Hold_cancel m \<Rightarrow>
                  Inr (0, message_handler_token_hold_cancel m msg_len endian_conversion_needed
                            (emit (Stat ''token_hold_cancel_rx'') s)))"

fun deliver_multicasts ::
  "srp_env \<Rightarrow> (srp_multicast \<times> nat) list \<Rightarrow> totemsrp_instance \<Rightarrow> totemsrp_instance c_result" where
  "deliver_multicasts env [] s = Inr s"
| "deliver_multicasts env (p # ps) s =
     bindE (deliver_multicast env p s) (\<lambda>(res, s1). deliver_multicasts env ps s1)"

section \<open>Token callbacks\<close>

definition callbacks :: "totem_callback_token_type \<Rightarrow> totemsrp_instance \<Rightarrow> token_callback_instance list" where
  "callbacks t s =
     (case t of TOTEM_CALLBACK_TOKEN_RECEIVED \<Rightarrow> token_callback_received s
      | TOTEM_CALLBACK_TOKEN_SENT \<Rightarrow> token_callback_sent s)"

definition put_callbacks ::
  "totem_callback_token_type \<Rightarrow> token_callback_instance list \<Rightarrow> totemsrp_instance \<Rightarrow> totemsrp_instance" where
  "put_callbacks t cs s =
     (case t of TOTEM_CALLBACK_TOKEN_RECEIVED \<Rightarrow> s\<lparr>token_callback_received := cs\<rparr>
      | TOTEM_CALLBACK_TOKEN_SENT \<Rightarrow> s\<lparr>token_callback_sent := cs\<rparr>)"

definition totemsrp_callback_token_create ::
  "nat \<Rightarrow> totem_callback_token_type \<Rightarrow> bool \<Rightarrow> bool \<Rightarrow> totemsrp_instance \<Rightarrow>
   (int \<times> totemsrp_instance) c_result" where
  "totemsrp_callback_token_create handle t delete malloc_ok s =
     bindE (token_hold_cancel_send s) (\<lambda>s1.
       if \<not> malloc_ok then Inr (- 1, s1)
       else Inr (0, put_callbacks t (\<lparr>tc_id = handle, tc_type = t, tc_delete = delete\<rparr> # callbacks t s1) s1))"

definition totemsrp_callback_token_destroy :: "nat \<Rightarrow> totemsrp_instance \<Rightarrow> totemsrp_instance" where
  "totemsrp_callback_token_destroy handle s =
     s\<lparr>token_callback_received := filter (\<lambda>c. tc_id c \<noteq> handle) (token_callback_received s),
       token_callback_sent := filter (\<lambda>c. tc_id c \<noteq> handle) (token_callback_sent s)\<rparr>"

text \<open>The list is walked as it was at the start; a failed one-shot callback goes back to its head.\<close>

fun callbacks_loop ::
  "(nat \<Rightarrow> int) \<Rightarrow> totem_callback_token_type \<Rightarrow> token_callback_instance list \<Rightarrow>
   totemsrp_instance \<Rightarrow> totemsrp_instance" where
  "callbacks_loop run t [] s = s"
| "callbacks_loop run t (c # cs) s =
     (let s1 = (if tc_delete c then put_callbacks t (remove1 c (callbacks t s)) s else s);
          s2 = emit (Callback_run (tc_type c) (tc_id c)) s1;
          s3 = (if run (tc_id c) = - 1 \<and> tc_delete c then put_callbacks t (c # callbacks t s2) s2 else s2)
      in callbacks_loop run t cs s3)"

definition token_callbacks_execute ::
  "srp_env \<Rightarrow> totem_callback_token_type \<Rightarrow> totemsrp_instance \<Rightarrow> totemsrp_instance" where
  "token_callbacks_execute env t s = callbacks_loop (callback_result env) t (callbacks t s) s"

section \<open>The token\<close>

definition token_activity :: "orf_token \<Rightarrow> totemsrp_instance \<Rightarrow> totemsrp_instance" where
  "token_activity token s =
     (let s1 = (if tok_seq token = my_last_seq s
                then (start_merge_detect_timeout s)\<lparr>my_seq_unchanged := my_seq_unchanged s + 1\<rparr>
                else (cancel_token_hold_retransmit_timeout (cancel_merge_detect_timeout s))
                       \<lparr>my_seq_unchanged := 0\<rparr>)
      in s1\<lparr>my_last_seq := tok_seq token\<rparr>)"

definition token_hold :: "totemsrp_instance \<Rightarrow> totemsrp_instance" where
  "token_hold s =
     (let c = uint (seqno_unchanged_const (totem_config s));
          is_rep = (rep (my_ring_id s) = nodeid (my_id s))
      in s\<lparr>my_token_held := (is_rep \<and> my_seq_unchanged s > c \<or> \<not> is_rep \<and> my_seq_unchanged s \<ge> c)\<rparr>)"

definition token_aru :: "orf_token \<Rightarrow> totemsrp_instance \<Rightarrow> orf_token" where
  "token_aru token s =
     (if sq_lt_compare (my_aru s) (tok_aru token) \<or> nodeid (my_id s) = aru_addr token \<or> aru_addr token = 0
      then token\<lparr>tok_aru := my_aru s,
                 aru_addr := (if my_aru s = tok_seq token then 0 else nodeid (my_id s))\<rparr>
      else token)"

text \<open>
  The retransmission flag of the token in the recovery state. The membership list is copied with
  the element size of another structure, \<open>sizeof_totem_ip_address\<close>.
\<close>

definition sizeof_totem_ip_address :: nat where
  "sizeof_totem_ip_address = 22"

definition recovery_flag :: "orf_token \<Rightarrow> totemsrp_instance \<Rightarrow> orf_token \<times> totemsrp_instance" where
  "recovery_flag token s =
     (if \<not> cs_queue_is_empty (retrans_message_queue s)
      then if tok_retrans_flg token = 0
           then (token\<lparr>tok_retrans_flg := 1\<rparr>, s\<lparr>my_set_retrans_flg := True\<rparr>) else (token, s)
      else if tok_retrans_flg token = 1 \<and> my_set_retrans_flg s
           then (token\<lparr>tok_retrans_flg := 0\<rparr>, s\<lparr>my_set_retrans_flg := False\<rparr>) else (token, s))"

definition recovery_received :: "totemsrp_instance \<Rightarrow> totemsrp_instance c_result" where
  "recovery_received s =
     (if my_retrans_flg_count s \<ge> 2 \<and> \<not> my_received_flg s \<and>
         sq_lte_compare (my_install_seq s) (my_aru s)
      then if length (my_trans_memb_list s) * sizeof_totem_ip_address
              > PROCESSOR_COUNT_MAX * sizeof_srp_addr then Inl OutOfBounds
           else Inr (s\<lparr>my_received_flg := True, my_deliver_memb_list := my_trans_memb_list s\<rparr>)
      else Inr s)"

definition recovery_token ::
  "orf_token \<Rightarrow> totemsrp_instance \<Rightarrow> (orf_token \<times> totemsrp_instance) c_result" where
  "recovery_token token s =
     (let (token1, s1) = recovery_flag token s;
          s2 = s1\<lparr>my_retrans_flg_count :=
                   (if tok_retrans_flg token1 = 0 then my_retrans_flg_count s1 + 1 else 0)\<rparr>;
          s3 = (if my_retrans_flg_count s2 = 2 then s2\<lparr>my_install_seq := tok_seq token1\<rparr> else s2)
      in bindE (recovery_received s3) (\<lambda>s4.
           let s5 = s4\<lparr>my_rotation_counter :=
                        (if my_retrans_flg_count s4 \<ge> 3 \<and> sq_lte_compare (my_install_seq s4) (tok_aru token1)
                         then my_rotation_counter s4 + 1 else 0)\<rparr>
           in if my_rotation_counter s5 = 2
              then bindE (memb_state_operational_enter s5) (\<lambda>s6.
                     Inr (token1, s6\<lparr>my_rotation_counter := 0, my_retrans_flg_count := 0\<rparr>))
              else Inr (token1, s5)))"

text \<open>The token is accepted: pass it on, then deliver.\<close>

definition token_pass ::
  "srp_env \<Rightarrow> orf_token \<Rightarrow> bool \<Rightarrow> totemsrp_instance \<Rightarrow> totemsrp_instance c_result" where
  "token_pass env token forward_token s =
     (let s1 = s\<lparr>my_token_seq := tok_token_seq token\<rparr>;
          token1 = token\<lparr>tok_token_seq := tok_token_seq token + 1\<rparr>
      in bindE (if memb_state s1 = MEMB_STATE_RECOVERY then recovery_token token1 s1
                else Inr (token1, s1)) (\<lambda>(token2, s2).
         bindE (token_send token2 forward_token (emit Send_flush s2)) (\<lambda>s3.
         bindE (if memb_state s3 = MEMB_STATE_OPERATIONAL
                then messages_deliver_to_app False (my_high_seq_received s3) s3 else Inr s3) (\<lambda>s4.
           let s5 = reset_token_retransmit_timeout (reset_token_timeout s4);
               s6 = (if nodeid (my_id s5) = rep (my_ring_id s5) \<and> my_token_held s5
                     then start_token_hold_retransmit_timeout s5 else s5)
           in Inr (token_callbacks_execute env TOTEM_CALLBACK_TOKEN_SENT s6)))))"

text \<open>A processor that does not keep up declares itself failed.\<close>

definition token_finish ::
  "srp_env \<Rightarrow> u32 \<Rightarrow> orf_token \<Rightarrow> bool \<Rightarrow> totemsrp_instance \<Rightarrow> totemsrp_instance c_result" where
  "token_finish env last_aru token forward_token s =
     (let token1 = token_aru token s;
          s1 = s\<lparr>my_aru_count :=
                  (if tok_aru token1 = last_aru \<and> aru_addr token1 \<noteq> 0 then my_aru_count s + 1 else 0)\<rparr>
      in if my_aru_count s1 > uint (fail_to_recv_const (totem_config s1)) \<and>
            aru_addr token1 = nodeid (my_id s1)
         then bindE (memb_set_merge [my_id s1] (my_failed_list s1)) (\<lambda>failed.
                memb_state_gather_enter TOTEMSRP_GSFROM_FAILED_TO_RECEIVE
                  (s1\<lparr>failed_to_recv := True, my_failed_list := failed\<rparr>))
         else token_pass env token1 forward_token s1)"

definition heartbeat_update :: "bool \<Rightarrow> totemsrp_instance \<Rightarrow> totemsrp_instance" where
  "heartbeat_update forward_token s =
     (if forward_token \<and> use_heartbeat s then reset_heartbeat_timeout s else cancel_heartbeat_timeout s)"

text \<open>The token belongs to this ring and is new.\<close>

definition token_valid ::
  "srp_env \<Rightarrow> orf_token \<Rightarrow> bool \<Rightarrow> totemsrp_instance \<Rightarrow> totemsrp_instance c_result" where
  "token_valid env token forward_token s =
     (let s1 = token_callbacks_execute env TOTEM_CALLBACK_TOKEN_RECEIVED s;
          last_aru = my_last_aru s1;
          (transmits_allowed, s2) = fcc_calculate token (s1\<lparr>my_last_aru := tok_aru token\<rparr>)
      in bindE (orf_token_rtr token transmits_allowed s2) (\<lambda>(mcasted_retransmit, allowed1, token1, s3).
           let cancel = (cancel_token_hold_on_retransmit (totem_config s3) \<and> my_token_held s3 \<and>
                         (sint (rtr_list_entries token1) > 0 \<or> mcasted_retransmit > 0));
               s4 = (if cancel then s3\<lparr>my_token_held := False\<rparr> else s3);
               forward = (if cancel then True else forward_token)
           in bindE (fcc_rtr_limit token1 allowed1 s4) (\<lambda>allowed2.
              bindE (orf_token_mcast token1 allowed2 s4) (\<lambda>(mcasted_regular, token2, s5).
                let (token3, s6) = fcc_token_update token2 (mcasted_retransmit + of_nat mcasted_regular) s5
                in bindE (token_finish env last_aru token3 forward s6) (\<lambda>s7.
                     Inr (heartbeat_update forward s7))))))"

definition token_body ::
  "srp_env \<Rightarrow> orf_token \<Rightarrow> totemsrp_instance \<Rightarrow> totemsrp_instance c_result" where
  "token_body env token s =
     (let s1 = token_hold s;
          forward_token = \<not> (rep (my_ring_id s1) = nodeid (my_id s1) \<and> my_token_held s1)
      in if memb_state s1 = MEMB_STATE_COMMIT then Inr (heartbeat_update forward_token s1)
         else bindE (if memb_state s1 = MEMB_STATE_OPERATIONAL then messages_free (tok_aru token) s1
                     else Inr s1) (\<lambda>s2.
           if tok_ring_id token \<noteq> my_ring_id s2 then Inr (heartbeat_update forward_token s2)
           else if sq_lte_compare (tok_token_seq token) (my_token_seq s2) then Inr s2
           else token_valid env token forward_token s2))"

definition TOKEN_STORAGE :: nat where
  "TOKEN_STORAGE = 1500"

definition message_handler_orf_token ::
  "srp_env \<Rightarrow> orf_token \<Rightarrow> nat \<Rightarrow> bool \<Rightarrow> totemsrp_instance \<Rightarrow> totemsrp_instance c_result" where
  "message_handler_orf_token env raw msg_len endian_conversion_needed s =
     (if \<not> check_orf_token_sanity raw msg_len TOKEN_STORAGE endian_conversion_needed then Inr s
      else if orf_token_discard s then Inr s
      else let token = (if endian_conversion_needed then orf_token_endian_convert raw else raw);
               s1 = emit Recv_flush ((token_activity token s)\<lparr>flushing := True\<rparr>)
           in bindE (deliver_multicasts env (recv_queue env) s1) (\<lambda>s2.
                token_body env token (s2\<lparr>flushing := False\<rparr>)))"

section \<open>The dispatcher\<close>

definition main_deliver_fn ::
  "srp_env \<Rightarrow> srp_msg \<Rightarrow> nat \<Rightarrow> totemsrp_instance \<Rightarrow> (int \<times> totemsrp_instance) c_result" where
  "main_deliver_fn env msg msg_len s =
     (case msg of
        Multicast m \<Rightarrow> deliver_multicast env (m, msg_len) s
      | Orf_token t \<Rightarrow>
          if \<not> check_message_header_validity (tok_header t) msg_len then Inr (- 1, s)
          else bindE (message_handler_orf_token env t msg_len (magic (tok_header t) \<noteq> TOTEM_MH_MAGIC)
                        (emit (Stat ''orf_token_rx'') s)) (\<lambda>s1. Inr (0, s1))
      | Commit_token t \<Rightarrow>
          if \<not> check_message_header_validity (ct_header t) msg_len then Inr (- 1, s)
          else bindE (message_handler_memb_commit_token env t msg_len
                        (magic (ct_header t) \<noteq> TOTEM_MH_MAGIC)
                        (emit (Stat ''memb_commit_token_rx'') s)) (\<lambda>s1. Inr (0, s1))
      | Unknown_type h \<Rightarrow>
          if \<not> check_message_header_validity h msg_len then Inr (- 1, s)
          else Inr (0, emit (Stat ''rx_msg_dropped'') s))"

section \<open>Entry points\<close>

text \<open>
  The first interface that comes up loads the stored ring identifier, which is passed in; the
  gather state is entered once every configured interface has been reported.
\<close>

definition main_iface_change_fn ::
  "u32 \<Rightarrow> totem_ring_id \<Rightarrow> totemsrp_instance \<Rightarrow> totemsrp_instance c_result" where
  "main_iface_change_fn iface_nodeid loaded s =
     (let s1 = (if nodeid (my_id s) = 0 then s\<lparr>my_id := Srp_addr iface_nodeid\<rparr> else s);
          s2 = (if iface_changes s1 = 0
                then emit Service_ready
                       (s1\<lparr>my_ring_id := loaded\<lparr>ring_seq := ring_seq loaded + 1\<rparr>,
                           token_ring_id_seq := ring_seq loaded + 1\<rparr>)
                else s1);
          s3 = s2\<lparr>iface_changes := iface_changes s2 + 1\<rparr>
      in if iface_changes s3 \<ge> interfaces_configured (totem_config s3)
         then memb_state_gather_enter TOTEMSRP_GSFROM_INTERFACE_CHANGE s3
         else Inr s3)"

definition totemsrp_trans_ack :: "totemsrp_instance \<Rightarrow> totemsrp_instance" where
  "totemsrp_trans_ack s = emit (Waiting_trans_ack_cb False) (s\<lparr>waiting_trans_ack := False\<rparr>)"

definition totemsrp_finalize :: "totemsrp_instance \<Rightarrow> totemsrp_instance c_result" where
  "totemsrp_finalize s = memb_leave_message_send s"

definition totemsrp_my_nodeid_get :: "totemsrp_instance \<Rightarrow> u32" where
  "totemsrp_my_nodeid_get s = nodeid (my_id s)"

definition totemsrp_net_mtu_adjust :: "totem_config \<Rightarrow> totem_config" where
  "totemsrp_net_mtu_adjust c = c\<lparr>net_mtu := net_mtu c - 2 * of_nat sizeof_mcast\<rparr>"

definition totempg_mtu_changed :: "u32 \<Rightarrow> totemsrp_instance \<Rightarrow> totemsrp_instance" where
  "totempg_mtu_changed mtu s =
     s\<lparr>totem_config := (totem_config s)\<lparr>net_mtu := mtu - 2 * of_nat sizeof_mcast\<rparr>\<rparr>"

section \<open>Start\<close>

definition null_cs_queue :: "message_item cs_queue" where
  "null_cs_queue = \<lparr>q_head = 0, q_tail = 0, q_used = 0, q_usedhw = 0, q_size = 0, q_items = [],
     q_size_per_item = 0, q_iterator = 0, q_threaded_mode_enabled = False\<rparr>"

definition null_sq :: "sort_queue_item sq" where
  "null_sq = \<lparr>sq_head = 0, sq_size = 0, sq_items = [], sq_items_inuse = [], sq_items_miss_count = [],
     sq_size_per_item = 0, sq_head_seqid = 0, sq_item_count = 0, sq_pos_max = 0\<rparr>"

definition null_ring_id :: totem_ring_id where
  "null_ring_id = \<lparr>rep = 0, ring_seq = 0\<rparr>"

definition null_commit_token :: memb_commit_token where
  "null_commit_token =
     \<lparr>ct_header = mc_header zero_mcast, ct_token_seq = 0, ct_ring_id = null_ring_id, ct_retrans_flg = 0,
      memb_index = 0, ct_addr = [], memb_list = []\<rparr>"

definition totemsrp_instance_initialize :: "totem_config \<Rightarrow> totemsrp_instance" where
  "totemsrp_instance_initialize cfg =
     \<lparr>iface_changes = 0, failed_to_recv = False, fcc_remcast_current = 0, consensus_list = [],
      my_id = Srp_addr 0, my_proc_list = [], my_failed_list = [], my_new_memb_list = [],
      my_trans_memb_list = [], my_memb_list = [], my_deliver_memb_list = [], my_left_memb_list = [],
      my_leave_memb_list = [], my_ring_id = null_ring_id, my_old_ring_id = null_ring_id,
      my_aru_count = 0, my_merge_detect_timeout_outstanding = False, my_last_aru = 0,
      my_seq_unchanged = 0, my_received_flg = True, my_high_seq_received = SEQNO_START_MSG,
      my_install_seq = 0, my_rotation_counter = 0, my_set_retrans_flg = False,
      my_retrans_flg_count = 0, my_high_ring_delivered = 0, heartbeat_timeout = 0,
      new_message_queue = null_cs_queue, new_message_queue_trans = null_cs_queue,
      retrans_message_queue = null_cs_queue, regular_sort_queue = null_sq,
      recovery_sort_queue = null_sq, my_aru = SEQNO_START_MSG, my_high_delivered = SEQNO_START_MSG,
      token_callback_received = [], token_callback_sent = [], orf_token_retransmit = None,
      my_token_seq = SEQNO_START_TOKEN - 1, memb_state = MEMB_STATE_OPERATIONAL, global_seqno = 0,
      my_token_held = False, token_ring_id_seq = 0, last_released = 0, old_ring_state_saved = False,
      old_ring_state_aru = 0, old_ring_state_high_seq_received = 0, my_last_seq = 0,
      totem_config = cfg, use_heartbeat = False, my_trc = 0, my_pbl = 0, my_cbl = 0,
      pause_timestamp = 0, commit_token = null_commit_token, orf_token_discard = False,
      originated_orf_token = False, waiting_trans_ack = True, flushing = False, effects = []\<rparr>"

definition heartbeat_configure :: "totemsrp_instance \<Rightarrow> totemsrp_instance" where
  "heartbeat_configure s =
     (let c = totem_config s in
      if heartbeat_failures_allowed c = 0 then s\<lparr>use_heartbeat := False\<rparr>
      else let t = heartbeat_failures_allowed c * token_retransmit_timeout c + max_network_delay c
           in s\<lparr>heartbeat_timeout := t, use_heartbeat := \<not> t \<ge> token_timeout c\<rparr>)"

text \<open>
  \<open>boundto\<close> is the identifier of the node, \<open>queue_max\<close> the number of items
  \<^verbatim>\<open>MESSAGE_QUEUE_MAX\<close> of the two queues of new messages, \<open>now\<close> the clock; the collector of token
  statistics is the callback 0 for both events. The allocations and the initialisation of the
  network layer succeed.
\<close>

definition totemsrp_initialize ::
  "totem_config \<Rightarrow> u32 \<Rightarrow> nat \<Rightarrow> u64 \<Rightarrow> totemsrp_instance c_result" where
  "totemsrp_initialize cfg boundto queue_max now =
     (let s = emit (Waiting_trans_ack_cb True) (totemsrp_instance_initialize cfg);
          item_size = 16;
          s1 = s\<lparr>retrans_message_queue :=
                   snd (cs_queue_init (retrans_message_queue s) zero_item
                          (int RETRANS_MESSAGE_QUEUE_SIZE_MAX) item_size False True),
                 regular_sort_queue :=
                   snd (sq_init (regular_sort_queue s) zero_item (int QUEUE_RTR_ITEMS_SIZE_MAX)
                          item_size 0 True True True),
                 recovery_sort_queue :=
                   snd (sq_init (recovery_sort_queue s) zero_item (int QUEUE_RTR_ITEMS_SIZE_MAX)
                          item_size 0 True True True),
                 use_heartbeat := True\<rparr>;
          s2 = (heartbeat_configure (timer_function_pause_timeout now s1))\<lparr>my_id := Srp_addr boundto\<rparr>;
          s3 = s2\<lparr>new_message_queue :=
                    snd (cs_queue_init (new_message_queue s2) zero_item (int queue_max) item_size False True),
                  new_message_queue_trans :=
                    snd (cs_queue_init (new_message_queue_trans s2) zero_item (int queue_max) item_size
                           False True)\<rparr>
      in bindE (totemsrp_callback_token_create 0 TOTEM_CALLBACK_TOKEN_RECEIVED False True s3) (\<lambda>(res, s4).
         bindE (totemsrp_callback_token_create 0 TOTEM_CALLBACK_TOKEN_SENT False True s4) (\<lambda>(res, s5).
           Inr s5)))"

end
