(* ===== verification/Srp_Delivery.thy ===== *)
theory Srp_Delivery
  imports Srp_Token "HOL-Library.Sublist"
begin

text \<open>
  Agreed delivery. In the operational state the messages of a ring are numbered by the token; a
  processor receives them in any order, some of them several times or not at all. The theory
  follows \<open>message_handler_mcast\<close> over such a sequence of receptions and shows that the layer above
  gets the messages in the order of their numbers, without a gap and each of them once, so that
  the deliveries of two processors never disagree. A window of the sort queue that starts after
  the number \<open>b\<close> is described by the map \<open>H\<close> from the distance to \<open>b\<close> to the message held.
\<close>

section \<open>What has been delivered\<close>

type_synonym delivery = "u32 \<times> mcast_body \<times> u32 \<times> bool"

definition delivery_of :: "srp_effect \<Rightarrow> delivery option" where
  "delivery_of e = (case e of Deliver n b l c \<Rightarrow> Some (n, b, l, c) | _ \<Rightarrow> None)"

definition delivery_log :: "srp_effect list \<Rightarrow> delivery list" where
  "delivery_log es = rev (List.map_filter delivery_of es)"

definition deliveries :: "totemsrp_instance \<Rightarrow> delivery list" where
  "deliveries s = delivery_log (effects s)"

lemma delivery_log_simps [simp]:
  "delivery_log [] = []"
  "delivery_log (es @ es') = delivery_log es' @ delivery_log es"
  "delivery_log (Deliver n b l c # es) = delivery_log es @ [(n, b, l, c)]"
  by (simp_all add: delivery_log_def map_filter_def delivery_of_def)

text \<open>What the layer above gets of a message.\<close>

definition content :: "sort_queue_item \<Rightarrow> delivery" where
  "content item =
     (let m = mi_mcast item; conv = (magic (mc_header m) \<noteq> TOTEM_MH_MAGIC)
      in (hdr_nodeid (mc_header (if conv then mcast_endian_convert m else m)), body m,
          mi_msg_len item - of_nat sizeof_mcast, conv))"

section \<open>The run of consecutive messages\<close>

fun run :: "(nat \<rightharpoonup> 'a) \<Rightarrow> nat \<Rightarrow> nat \<Rightarrow> nat" where
  "run H j 0 = 0"
| "run H j (Suc n) = (if H (Suc j) = None then 0 else Suc (run H (Suc j) n))"

lemma run_le: "run H j n \<le> n"
  by (induction n arbitrary: j) auto

lemma run_held: "j < k \<Longrightarrow> k \<le> j + run H j n \<Longrightarrow> H k \<noteq> None"
proof (induction n arbitrary: j)
  case (Suc n)
  then show ?case using Suc.IH [of "Suc j"] by (cases "k = Suc j") (auto split: if_splits)
qed simp

lemma run_stops: "(\<And>k. j + n < k \<Longrightarrow> H k = None) \<Longrightarrow> H (Suc (j + run H j n)) = None"
proof (induction n arbitrary: j)
  case (Suc n)
  then show ?case using Suc.IH [of "Suc j"] by auto
qed simp

section \<open>The window\<close>

definition window :: "sort_queue_item sq \<Rightarrow> u32 \<Rightarrow> (nat \<rightharpoonup> sort_queue_item) \<Rightarrow> bool" where
  "window q b H \<longleftrightarrow>
     sq_inv q \<and> sq_len q = QUEUE_RTR_ITEMS_SIZE_MAX \<and> sq_head_seqid q = b + 1 \<and>
     (\<forall>i. 0 < i \<longrightarrow> i < QUEUE_RTR_ITEMS_SIZE_MAX \<longrightarrow> sq_abs q (b + of_nat i) = H i) \<and>
     (\<forall>i. \<not> (0 < i \<and> i < QUEUE_RTR_ITEMS_SIZE_MAX) \<longrightarrow> H i = None)"

lemma unat_of_nat_u32: "i < 2 ^ 32 \<Longrightarrow> unat (of_nat i :: u32) = i"
  by (simp add: unat_of_nat take_bit_nat_eq_self)

lemma window_off:
  assumes "window q b H" "0 < i" "i < QUEUE_RTR_ITEMS_SIZE_MAX"
  shows "sq_off q (b + of_nat i) = i - 1" "sq_off q (b + of_nat i) < sq_len q"
proof -
  obtain j where j: "i = Suc j" using assms(2) by (cases i) auto
  have "b + of_nat i - (b + 1) = (of_nat j :: u32)" by (simp add: j)
  then have "sq_off q (b + of_nat i) = j"
    using assms j by (simp add: sq_off_def window_def QUEUE_RTR_ITEMS_SIZE_MAX_def unat_of_nat_u32)
  then show "sq_off q (b + of_nat i) = i - 1" "sq_off q (b + of_nat i) < sq_len q"
    using assms j by (simp_all add: window_def)
qed

lemma window_get:
  assumes "window q b H" "0 < i" "i < QUEUE_RTR_ITEMS_SIZE_MAX"
  shows "sq_item_get q (b + of_nat i) =
    Inr (case H i of None \<Rightarrow> (ENOENT, None) | Some x \<Rightarrow> (0, Some x))"
  using assms window_off(2) [OF assms] by (simp add: sq_item_get_ok window_def)

lemma window_in_range:
  assumes "window q b H" "0 < i" "i < QUEUE_RTR_ITEMS_SIZE_MAX"
  shows "sq_in_range q (b + of_nat i)" "sq_item_inuse q (b + of_nat i) = Inr (H i \<noteq> None)"
  using assms window_off(2) [OF assms] by (simp_all add: sq_in_range_off sq_item_inuse_ok window_def)

lemma of_nat_u32_inj:
  "i < QUEUE_RTR_ITEMS_SIZE_MAX \<Longrightarrow> j < QUEUE_RTR_ITEMS_SIZE_MAX \<Longrightarrow>
   (of_nat i = (of_nat j :: u32)) \<longleftrightarrow> i = j"
proof -
  assume "i < QUEUE_RTR_ITEMS_SIZE_MAX" "j < QUEUE_RTR_ITEMS_SIZE_MAX"
  then have "unat (of_nat i :: u32) = i" "unat (of_nat j :: u32) = j"
    by (simp_all add: QUEUE_RTR_ITEMS_SIZE_MAX_def unat_of_nat_u32)
  then show ?thesis by metis
qed

lemma window_add:
  assumes w: "window q b H" and i: "0 < i" "i < QUEUE_RTR_ITEMS_SIZE_MAX" and free: "H i = None"
  shows "\<exists>q'. sq_item_add q x (b + of_nat i) = Inr q' \<and> window q' b (H(i \<mapsto> x))"
proof -
  have "sq_abs q (b + of_nat i) = None" using w i free by (simp add: window_def)
  with w obtain q' where "sq_item_add q x (b + of_nat i) = Inr q'" "sq_inv q'"
      "sq_abs q' = (sq_abs q)(b + of_nat i \<mapsto> x)" "sq_head_seqid q' = sq_head_seqid q"
      "sq_len q' = sq_len q"
    using sq_item_add_ok [of q "b + of_nat i" x] window_off(2) [OF w i] by (auto simp: window_def)
  then show ?thesis using w i by (auto simp: window_def of_nat_u32_inj)
qed

section \<open>The counter and the delivery follow the run\<close>

lemma of_nat_Suc_add: "b + of_nat (Suc j) = b + of_nat j + (1 :: u32)"
  by (simp add: algebra_simps)

lemma aru_loop_run:
  assumes "window q b H"
  shows "j + n < QUEUE_RTR_ITEMS_SIZE_MAX \<Longrightarrow>
    aru_loop q n (b + of_nat (Suc j)) = Inr (run H j n)"
proof (induction n arbitrary: j)
  case (Suc n)
  have "aru_loop q n (b + of_nat (Suc (Suc j))) = Inr (run H (Suc j) n)"
    using Suc by (simp del: of_nat_Suc)
  then show ?case
    using window_get [OF assms, of "Suc j"] Suc.prems
    by (simp add: of_nat_Suc_add [symmetric] ENOENT_def split: option.splits del: of_nat_Suc)
qed simp

text \<open>The messages \<open>j + 1, \<dots>, j + n\<close> in order.\<close>

definition contents :: "(nat \<rightharpoonup> sort_queue_item) \<Rightarrow> nat \<Rightarrow> nat \<Rightarrow> delivery list" where
  "contents H j n = map (\<lambda>k. content (the (H k))) [Suc j..<Suc (j + n)]"

lemma contents_0 [simp]: "contents H j 0 = []"
  by (simp add: contents_def)

lemma contents_Suc: "contents H j (Suc n) = content (the (H (Suc j))) # contents H (Suc j) n"
  by (simp add: contents_def upt_conv_Cons del: upt_Suc)

lemma deliver_loop_run:
  assumes "j + n < QUEUE_RTR_ITEMS_SIZE_MAX" "window (regular_sort_queue s) b H"
    "my_high_delivered s = b + of_nat j"
  shows "\<exists>es. deliver_loop n (b + of_nat (Suc j)) False s =
      Inr (s\<lparr>my_high_delivered := b + of_nat (j + run H j n), effects := es @ effects s\<rparr>) \<and>
      delivery_log es = contents H j (run H j n)"
  using assms
proof (induction n arbitrary: j s)
  case 0
  then show ?case by (intro exI [of _ "[]"]) simp
next
  case (Suc n)
  let ?q = "regular_sort_queue s"
  have i: "0 < Suc j" "Suc j < QUEUE_RTR_ITEMS_SIZE_MAX" using Suc.prems by auto
  note facts = window_get [OF Suc.prems(2) i] window_in_range [OF Suc.prems(2) i]
  show ?case
  proof (cases "H (Suc j)")
    case None
    then show ?thesis using facts Suc.prems(3)
      by (intro exI [of _ "[]"]) (simp add: ENOENT_def del: of_nat_Suc)
  next
    case (Some item)
    let ?c = "content item"
    let ?e = "Deliver (fst ?c) (fst (snd ?c)) (fst (snd (snd ?c))) (snd (snd (snd ?c)))"
    let ?s = "emit ?e (s\<lparr>my_high_delivered := b + of_nat (Suc j)\<rparr>)"
    have "window (regular_sort_queue ?s) b H" "my_high_delivered ?s = b + of_nat (Suc j)"
      using Suc.prems(2) by (simp_all add: emit_def)
    from Suc.IH [OF _ this] Suc.prems(1) obtain es where
      es: "deliver_loop n (b + of_nat (Suc (Suc j))) False ?s =
        Inr (?s\<lparr>my_high_delivered := b + of_nat (Suc j + run H (Suc j) n), effects := es @ effects ?s\<rparr>)"
      "delivery_log es = contents H (Suc j) (run H (Suc j) n)" by auto
    have "deliver_loop (Suc n) (b + of_nat (Suc j)) False s = deliver_loop n (b + of_nat (Suc (Suc j))) False ?s"
      using facts Some by (simp add: of_nat_Suc_add [symmetric] Let_def content_def emit_def del: of_nat_Suc)
    then show ?thesis using es Some
      by (intro exI [of _ "es @ [?e]"])
         (simp add: emit_def contents_Suc del: of_nat_Suc)
  qed
qed

section \<open>A processor in the operational state\<close>

text \<open>
  \<open>L\<close> is what had been delivered before the window, \<open>d\<close> the distance of the last message delivered
  since, \<open>h\<close> that of the highest message received.
\<close>

definition pending ::
  "delivery list \<Rightarrow> u32 \<Rightarrow> (nat \<rightharpoonup> sort_queue_item) \<Rightarrow> nat \<Rightarrow> nat \<Rightarrow> totemsrp_instance \<Rightarrow> bool" where
  "pending L b H d h s \<longleftrightarrow>
     memb_state s = MEMB_STATE_OPERATIONAL \<and> window (regular_sort_queue s) b H \<and>
     my_high_delivered s = b + of_nat d \<and> my_aru s = b + of_nat d \<and>
     my_high_seq_received s = b + of_nat h \<and> d \<le> h \<and> h < QUEUE_RTR_ITEMS_SIZE_MAX \<and>
     (\<forall>k. h < k \<longrightarrow> H k = None) \<and> (\<forall>k. 0 < k \<longrightarrow> k \<le> d \<longrightarrow> H k \<noteq> None) \<and>
     deliveries s = L @ contents H 0 d"

definition receiving ::
  "delivery list \<Rightarrow> u32 \<Rightarrow> (nat \<rightharpoonup> sort_queue_item) \<Rightarrow> nat \<Rightarrow> nat \<Rightarrow> totemsrp_instance \<Rightarrow> bool" where
  "receiving L b H d h s \<longleftrightarrow> pending L b H d h s \<and> H (Suc d) = None"

lemma contents_append: "contents H 0 (d + k) = contents H 0 d @ contents H d k"
proof -
  have "[Suc 0..<Suc (d + k)] = [Suc 0..<Suc d] @ [Suc d..<Suc (d + k)]"
    using upt_add_eq_append [of "Suc 0" "Suc d" k] by simp
  then show ?thesis by (simp only: contents_def map_append add_0)
qed

lemma contents_cong:
  "(\<And>k. j < k \<Longrightarrow> k \<le> j + n \<Longrightarrow> H k = H' k) \<Longrightarrow> contents H j n = contents H' j n"
  unfolding contents_def by (rule map_cong) auto

lemma unat_dist: "j \<le> i \<Longrightarrow> i < QUEUE_RTR_ITEMS_SIZE_MAX \<Longrightarrow>
    unat (b + of_nat i - (b + of_nat j) :: u32) = i - j"
proof -
  assume "j \<le> i" "i < QUEUE_RTR_ITEMS_SIZE_MAX"
  then obtain k where "i = j + k" "k < 2 ^ 32"
    by (auto simp: le_iff_add QUEUE_RTR_ITEMS_SIZE_MAX_def)
  then show ?thesis by (simp add: unat_of_nat_u32)
qed

lemma sq_lt_window:
  assumes "i < QUEUE_RTR_ITEMS_SIZE_MAX" "j < QUEUE_RTR_ITEMS_SIZE_MAX"
  shows "sq_lt_compare (b + of_nat i) (b + of_nat j) \<longleftrightarrow> i < j"
proof (cases "i \<le> j")
  case True
  then have "unat (b + of_nat j - (b + of_nat i) :: u32) < 0x10000"
    using assms by (simp only: unat_dist) (simp add: QUEUE_RTR_ITEMS_SIZE_MAX_def)
  then show ?thesis
    using sq_compare_near(1) True assms by (auto simp: of_nat_u32_inj)
next
  case False
  then have "unat (b + of_nat i - (b + of_nat j) :: u32) < 0x10000"
    using assms by (simp only: unat_dist) (simp add: QUEUE_RTR_ITEMS_SIZE_MAX_def)
  then show ?thesis using sq_compare_near(3) False by auto
qed

text \<open>After a message was stored: count, deliver.\<close>

lemma update_aru_window:
  assumes "window (regular_sort_queue s) b H" "memb_state s = MEMB_STATE_OPERATIONAL"
    "my_aru s = b + of_nat d" "my_high_seq_received s = b + of_nat h" "d \<le> h"
    "h < QUEUE_RTR_ITEMS_SIZE_MAX"
  shows "update_aru s = Inr (s\<lparr>my_aru := b + of_nat (d + run H d (h - d))\<rparr>)"
proof -
  have "aru_loop (regular_sort_queue s) (h - d) (b + of_nat (Suc d)) = Inr (run H d (h - d))"
    using aru_loop_run [OF assms(1), of d "h - d"] assms(5,6) by simp
  then show ?thesis
    using assms unat_dist [of d h b] by (simp add: update_aru_def ring_sort_queue_def algebra_simps)
qed

lemma deliver_window:
  assumes "window (regular_sort_queue s) b H"
    "my_high_delivered s = b + of_nat d" "my_high_seq_received s = b + of_nat h" "d \<le> h"
    "h < QUEUE_RTR_ITEMS_SIZE_MAX"
  shows "\<exists>es. messages_deliver_to_app False (my_high_seq_received s) s =
      Inr (s\<lparr>my_high_delivered := b + of_nat (d + run H d (h - d)), effects := es @ effects s\<rparr>) \<and>
      delivery_log es = contents H d (run H d (h - d))"
  using deliver_loop_run [OF _ assms(1,2), of "h - d"] assms unat_dist [of d h b]
  by (simp add: messages_deliver_to_app_def algebra_simps less_imp_diff_less)

text \<open>The two steps together, from a window in which the run may have grown.\<close>

lemma receive_finish:
  assumes p: "pending L b H d h s"
  shows "\<exists>s1 s2 d'. update_aru s = Inr s1 \<and>
      messages_deliver_to_app False (my_high_seq_received s1) s1 = Inr s2 \<and>
      memb_state s1 = MEMB_STATE_OPERATIONAL \<and> receiving L b H d' h s2 \<and> my_ring_id s2 = my_ring_id s"
proof -
  have w: "window (regular_sort_queue s) b H" and st: "memb_state s = MEMB_STATE_OPERATIONAL"
    and pos: "my_aru s = b + of_nat d" "my_high_delivered s = b + of_nat d"
      "my_high_seq_received s = b + of_nat h" "d \<le> h" "h < QUEUE_RTR_ITEMS_SIZE_MAX"
    and H: "\<forall>k. h < k \<longrightarrow> H k = None" "\<forall>k. 0 < k \<longrightarrow> k \<le> d \<longrightarrow> H k \<noteq> None"
    and L: "deliveries s = L @ contents H 0 d"
    using p by (simp_all add: pending_def)
  let ?k = "run H d (h - d)"
  let ?s = "s\<lparr>my_aru := b + of_nat (d + ?k)\<rparr>"
  have "window (regular_sort_queue ?s) b H" "my_high_delivered ?s = b + of_nat d"
    "my_high_seq_received ?s = b + of_nat h" using w pos by simp_all
  from deliver_window [OF this pos(4,5)] obtain es where
    es: "messages_deliver_to_app False (my_high_seq_received ?s) ?s =
        Inr (?s\<lparr>my_high_delivered := b + of_nat (d + ?k), effects := es @ effects ?s\<rparr>)"
      "delivery_log es = contents H d ?k" by blast
  let ?s2 = "?s\<lparr>my_high_delivered := b + of_nat (d + ?k), effects := es @ effects ?s\<rparr>"
  have held: "\<forall>k. 0 < k \<longrightarrow> k \<le> d + ?k \<longrightarrow> H k \<noteq> None"
    using H(2) run_held [of d _ H "h - d"] by (metis leI)
  have "H (Suc (d + ?k)) = None" using run_stops [of d "h - d" H] H(1) pos(4) by simp
  moreover have "d + ?k \<le> h" using run_le [of H d "h - d"] pos(4) by simp
  moreover have "deliveries ?s2 = L @ contents H 0 (d + ?k)"
    using L es(2) by (simp add: deliveries_def contents_append)
  ultimately have "receiving L b H (d + ?k) h ?s2"
    using w st pos H held by (simp add: receiving_def pending_def)
  then show ?thesis
    using update_aru_window [OF w st pos(1,3,4,5)] es(1) st
    by (intro exI [of _ ?s] exI [of _ ?s2] exI [of _ "d + ?k"]) (simp del: of_nat_add)
qed

section \<open>Receiving the messages of a ring\<close>

text \<open>A received message in the local byte order, and its distance to \<open>b\<close>.\<close>

definition local_mcast :: "mcast \<Rightarrow> mcast" where
  "local_mcast m = (if magic (mc_header m) \<noteq> TOTEM_MH_MAGIC then mcast_endian_convert m else m)"

definition dist :: "u32 \<Rightarrow> mcast \<times> nat \<Rightarrow> nat" where
  "dist b p = unat (mc_seq (local_mcast (fst p)) - b)"

definition stored :: "mcast \<times> nat \<Rightarrow> sort_queue_item" where
  "stored p = \<lparr>mi_mcast = fst p, mi_msg_len = of_nat (snd p)\<rparr>"

text \<open>A regular message of the ring \<open>r\<close> less than a window after \<open>b\<close>.\<close>

definition ring_message :: "srp_env \<Rightarrow> totem_ring_id \<Rightarrow> u32 \<Rightarrow> mcast \<times> nat \<Rightarrow> bool" where
  "ring_message env r b p \<longleftrightarrow>
     check_message_header_validity (mc_header (fst p)) (snd p) \<and>
     sizeof_mcast \<le> snd p \<and> snd p \<le> frame_size_max env \<and>
     \<not> mc_encapsulated (local_mcast (fst p)) \<and> mc_ring_id (local_mcast (fst p)) = r \<and>
     0 < dist b p \<and> dist b p < QUEUE_RTR_ITEMS_SIZE_MAX"

definition hold :: "u32 \<Rightarrow> mcast \<times> nat \<Rightarrow> (nat \<rightharpoonup> sort_queue_item) \<Rightarrow> (nat \<rightharpoonup> sort_queue_item)" where
  "hold b p H = (if H (dist b p) = None then H(dist b p \<mapsto> stored p) else H)"

lemma seq_dist: "mc_seq (local_mcast (fst p)) = b + of_nat (dist b p)"
  by (simp add: dist_def)

lemma mcast_store_new:
  assumes r: "pending L b H d h s" and m: "ring_message env (my_ring_id s) b p"
    and buf: "buffer_alloc env" and free: "H (dist b p) = None"
  shows "\<exists>q'. mcast_store env (fst p) (local_mcast (fst p)) (snd p) s =
      Inr (Some (s\<lparr>my_high_seq_received := b + of_nat (max h (dist b p)), regular_sort_queue := q'\<rparr>)) \<and>
      window q' b (hold b p H)"
proof -
  let ?i = "dist b p"
  have i: "0 < ?i" "?i < QUEUE_RTR_ITEMS_SIZE_MAX" using m by (auto simp: ring_message_def)
  have w: "window (regular_sort_queue s) b H" using r by (simp add: pending_def)
  obtain q' where q': "sq_item_add (regular_sort_queue s) (stored p) (b + of_nat ?i) = Inr q'"
      "window q' b (hold b p H)"
    using window_add [OF w i free] free by (auto simp: hold_def)
  have "sq_lt_compare (my_high_seq_received s) (b + of_nat ?i) \<longleftrightarrow> h < ?i"
    using sq_lt_window [of h ?i b] r i by (simp add: pending_def)
  moreover have "s\<lparr>my_high_seq_received := b + of_nat h\<rparr> = s" using r by (simp add: pending_def)
  ultimately show ?thesis
    using q' window_in_range [OF w i] m buf free
    by (intro exI [of _ q'])
       (auto simp: mcast_store_def mcast_sort_queue_def put_mcast_sort_queue_def seq_dist [of p b]
         ring_message_def stored_def sizeof_mcast_def max_def)
qed

lemma pending_hold:
  assumes r: "pending L b H d h s" and free: "H (dist b p) = None"
    and i: "dist b p < QUEUE_RTR_ITEMS_SIZE_MAX" "0 < dist b p" and w: "window q b (hold b p H)"
  shows "pending L b (hold b p H) d (max h (dist b p))
    (s\<lparr>my_high_seq_received := b + of_nat (max h (dist b p)), regular_sort_queue := q\<rparr>)"
proof -
  have held: "\<forall>k. 0 < k \<longrightarrow> k \<le> d \<longrightarrow> H k \<noteq> None" and top: "\<forall>k. h < k \<longrightarrow> H k = None"
    using r by (simp_all add: pending_def)
  have "\<not> dist b p \<le> d" using held free i(2) by blast
  then have "contents H 0 d = contents (hold b p H) 0 d"
    by (intro contents_cong) (auto simp: hold_def)
  moreover have "\<forall>k. max h (dist b p) < k \<longrightarrow> hold b p H k = None"
    using top by (simp add: hold_def)
  moreover have "\<forall>k. 0 < k \<longrightarrow> k \<le> d \<longrightarrow> hold b p H k \<noteq> None" using held by (simp add: hold_def)
  ultimately show ?thesis
    using r w i by (simp add: pending_def deliveries_def le_max_iff_disj)
qed

lemma mcast_store_pending:
  assumes r: "pending L b H d h s" and m: "ring_message env (my_ring_id s) b p"
    and buf: "buffer_alloc env"
  shows "\<exists>s1 h'. mcast_store env (fst p) (local_mcast (fst p)) (snd p) s = Inr (Some s1) \<and>
    pending L b (hold b p H) d h' s1 \<and> my_ring_id s1 = my_ring_id s"
proof (cases "H (dist b p)")
  case None
  have i: "dist b p < QUEUE_RTR_ITEMS_SIZE_MAX" "0 < dist b p" using m by (auto simp: ring_message_def)
  obtain q' where q': "mcast_store env (fst p) (local_mcast (fst p)) (snd p) s =
      Inr (Some (s\<lparr>my_high_seq_received := b + of_nat (max h (dist b p)), regular_sort_queue := q'\<rparr>))"
      "window q' b (hold b p H)"
    using mcast_store_new [OF r m buf None] by blast
  show ?thesis
    by (intro exI conjI, rule q'(1), rule pending_hold [OF r None i q'(2)]) simp
next
  case (Some x)
  have i: "0 < dist b p" "dist b p < QUEUE_RTR_ITEMS_SIZE_MAX" using m by (auto simp: ring_message_def)
  have w: "window (regular_sort_queue s) b H" using r by (simp add: pending_def)
  have "mcast_store env (fst p) (local_mcast (fst p)) (snd p) s = Inr (Some s)"
    using window_in_range [OF w i] m Some
    by (simp add: mcast_store_def mcast_sort_queue_def seq_dist [of p b] ring_message_def Let_def)
  then show ?thesis using r Some by (intro exI conjI) (auto simp: hold_def)
qed

lemma deliver_mcast_unfold:
  assumes "ring_message env (my_ring_id s) b p"
    and "mcast_store env (fst p) (local_mcast (fst p)) (snd p) (emit (Stat ''mcast_rx'') s) = Inr (Some s1)"
    and "update_aru s1 = Inr s2" "memb_state s2 = MEMB_STATE_OPERATIONAL"
    and "messages_deliver_to_app False (my_high_seq_received s2) s2 = Inr s3"
  shows "deliver_multicast env (Mcast_msg (fst p), snd p) s = Inr (0, s3)"
  using assms
  by (simp add: deliver_multicast_def multicast_header_def message_handler_mcast_def check_mcast_sanity_def
      ring_message_def local_mcast_def emit_def)

lemma pending_emit_Stat:
  "pending L b H d h (emit (Stat x) s) \<longleftrightarrow> pending L b H d h s"
  by (simp add: pending_def emit_def deliveries_def delivery_log_def map_filter_simps delivery_of_def)

lemma receive_mcast:
  assumes r: "receiving L b H d h s" and m: "ring_message env (my_ring_id s) b p"
    and buf: "buffer_alloc env"
  shows "\<exists>s' d' h'. deliver_multicast env (Mcast_msg (fst p), snd p) s = Inr (0, s') \<and>
    receiving L b (hold b p H) d' h' s' \<and> my_ring_id s' = my_ring_id s"
proof -
  let ?s = "emit (Stat ''mcast_rx'') s"
  have "pending L b H d h ?s" "ring_message env (my_ring_id ?s) b p"
    using r m by (simp_all add: receiving_def pending_emit_Stat)
  then obtain s1 h' where
    s1: "mcast_store env (fst p) (local_mcast (fst p)) (snd p) ?s = Inr (Some s1)"
      "pending L b (hold b p H) d h' s1" "my_ring_id s1 = my_ring_id ?s"
    using mcast_store_pending buf by blast
  from receive_finish [OF s1(2)] obtain s2 s3 d' where
    "update_aru s1 = Inr s2" "messages_deliver_to_app False (my_high_seq_received s2) s2 = Inr s3"
    "memb_state s2 = MEMB_STATE_OPERATIONAL" "receiving L b (hold b p H) d' h' s3"
    "my_ring_id s3 = my_ring_id s1" by blast
  then show ?thesis
    using deliver_mcast_unfold [OF m s1(1)] s1(3)
    by (intro exI [of _ s3] exI [of _ d'] exI [of _ h']) (simp add: emit_def)
qed

fun holds :: "u32 \<Rightarrow> (mcast \<times> nat) list \<Rightarrow> (nat \<rightharpoonup> sort_queue_item) \<Rightarrow> (nat \<rightharpoonup> sort_queue_item)" where
  "holds b [] H = H"
| "holds b (p # ps) H = holds b ps (hold b p H)"

definition mcasts :: "(mcast \<times> nat) list \<Rightarrow> (srp_multicast \<times> nat) list" where
  "mcasts ps = map (\<lambda>p. (Mcast_msg (fst p), snd p)) ps"

lemma receive_mcasts:
  assumes "buffer_alloc env"
  shows "receiving L b H d h s \<Longrightarrow> list_all (ring_message env (my_ring_id s) b) ps \<Longrightarrow>
    \<exists>s' d' h'. deliver_multicasts env (mcasts ps) s = Inr s' \<and> receiving L b (holds b ps H) d' h' s'"
proof (induction ps arbitrary: H d h s)
  case Nil
  then show ?case by (auto simp: mcasts_def)
next
  case (Cons p ps)
  have "ring_message env (my_ring_id s) b p" using Cons.prems(2) by simp
  then obtain s1 d1 h1 where "deliver_multicast env (Mcast_msg (fst p), snd p) s = Inr (0, s1)"
      "receiving L b (hold b p H) d1 h1 s1" "my_ring_id s1 = my_ring_id s"
    using receive_mcast [OF Cons.prems(1) _ assms] by blast
  then show ?case using Cons.IH [of "hold b p H" d1 h1 s1] Cons.prems(2) by (simp add: mcasts_def)
qed

text \<open>What is held in the end: of the copies of a message, the first.\<close>

lemma holds_map: "holds b ps H = map_of (map (\<lambda>p. (dist b p, stored p)) ps) ++ H"
proof (induction ps arbitrary: H)
  case (Cons p ps)
  then show ?case by (auto simp: hold_def map_add_def fun_eq_iff split: option.splits)
qed simp

section \<open>Agreed delivery\<close>

text \<open>A processor that has delivered everything up to \<open>b\<close> and holds nothing after it.\<close>

definition ready :: "u32 \<Rightarrow> totemsrp_instance \<Rightarrow> bool" where
  "ready b s \<longleftrightarrow>
     memb_state s = MEMB_STATE_OPERATIONAL \<and> sq_inv (regular_sort_queue s) \<and>
     sq_len (regular_sort_queue s) = QUEUE_RTR_ITEMS_SIZE_MAX \<and>
     sq_head_seqid (regular_sort_queue s) = b + 1 \<and> (\<forall>q. sq_abs (regular_sort_queue s) q = None) \<and>
     my_high_delivered s = b \<and> my_aru s = b \<and> my_high_seq_received s = b"

lemma ready_receiving: "ready b s \<Longrightarrow> receiving (deliveries s) b Map.empty 0 0 s"
  by (simp add: ready_def receiving_def pending_def window_def QUEUE_RTR_ITEMS_SIZE_MAX_def)

text \<open>The first copy received of the message at distance \<open>k\<close>.\<close>

definition received :: "u32 \<Rightarrow> (mcast \<times> nat) list \<Rightarrow> nat \<rightharpoonup> sort_queue_item" where
  "received b ps = map_of (map (\<lambda>p. (dist b p, stored p)) ps)"

lemma receive_all:
  assumes "ready b s" "buffer_alloc env" "list_all (ring_message env (my_ring_id s) b) ps"
  shows "\<exists>s' d. deliver_multicasts env (mcasts ps) s = Inr s' \<and>
    (\<forall>k. 0 < k \<longrightarrow> k \<le> d \<longrightarrow> received b ps k \<noteq> None) \<and> received b ps (Suc d) = None \<and>
    deliveries s' = deliveries s @ contents (received b ps) 0 d"
  using receive_mcasts [OF assms(2) ready_receiving [OF assms(1)] assms(3)]
  by (auto simp: holds_map received_def receiving_def pending_def)

lemma received_in: "received b ps k = Some x \<Longrightarrow> \<exists>p \<in> set ps. dist b p = k \<and> x = stored p"
  using map_of_SomeD [of "map (\<lambda>p. (dist b p, stored p)) ps" k x] by (auto simp: received_def)

lemma received_None: "received b ps k = None \<longleftrightarrow> (\<forall>p \<in> set ps. dist b p \<noteq> k)"
  by (simp add: received_def map_of_eq_None_iff image_image) blast

text \<open>
  A history of the ring: the message at distance \<open>k\<close>, as the processors get it. Copies of one
  message may differ in nothing the layer above sees.
\<close>

definition history :: "u32 \<Rightarrow> (nat \<Rightarrow> delivery) \<Rightarrow> (mcast \<times> nat) list \<Rightarrow> bool" where
  "history b M ps \<longleftrightarrow> list_all (\<lambda>p. content (stored p) = M (dist b p)) ps"

lemma contents_history:
  assumes "history b M ps" "\<forall>k. 0 < k \<longrightarrow> k \<le> d \<longrightarrow> received b ps k \<noteq> None"
  shows "contents (received b ps) 0 d = map M [1..<Suc d]"
proof -
  have "content (the (received b ps k)) = M k" if k: "k \<in> set [1..<Suc d]" for k
  proof -
    obtain x where "received b ps k = Some x" using assms(2) k by fastforce
    with received_in obtain p where "p \<in> set ps" "dist b p = k" "received b ps k = Some (stored p)"
      by metis
    then show ?thesis using assms(1) by (auto simp: history_def list_all_iff)
  qed
  then show ?thesis unfolding contents_def by (intro map_cong) simp_all
qed

section \<open>A concrete ring\<close>

definition demo_config :: totem_config where
  "demo_config =
     \<lparr>token_timeout = 3000, token_warning = 75, token_retransmit_timeout = 714, token_hold_timeout = 561,
      join_timeout = 50, send_join_timeout = 0, consensus_timeout = 3600, merge_timeout = 200,
      fail_to_recv_const = 2500, seqno_unchanged_const = 30, heartbeat_failures_allowed = 0,
      max_network_delay = 50, window_size = 50, max_messages = 17, miss_count_const = 5,
      cancel_token_hold_on_retransmit = False, interfaces_configured = 1, net_mtu = 1500\<rparr>"

definition demo_ring :: totem_ring_id where
  "demo_ring = \<lparr>rep = 1, ring_seq = 4\<rparr>"

definition demo_env :: srp_env where
  "demo_env = \<lparr>frame_size_max = 65536, buffer_alloc = True, nano_current = 0, recv_mcast_empty = 0,
     callback_result = (\<lambda>_. 0), recv_queue = [], stack_entries = []\<rparr>"

text \<open>Processor \<open>n\<close> in the operational state of \<open>demo_ring\<close>, before the first message.\<close>

definition demo_node :: "u32 \<Rightarrow> totemsrp_instance" where
  "demo_node n = (totemsrp_instance_initialize demo_config)
     \<lparr>my_id := Srp_addr n, my_ring_id := demo_ring,
      regular_sort_queue := snd (sq_init null_sq zero_item (int QUEUE_RTR_ITEMS_SIZE_MAX) 16 1 True True True)\<rparr>"

definition demo_mcast :: "u32 \<Rightarrow> mcast" where
  "demo_mcast k =
     Mcast \<lparr>magic = TOTEM_MH_MAGIC, version = TOTEM_MH_VERSION, msg_type = type_code MESSAGE_TYPE_MCAST,
            encapsulated = encap_code MESSAGE_NOT_ENCAPSULATED, hdr_nodeid = 2, target_nodeid = 0\<rparr>
       (Srp_addr 2) k 0 demo_ring 0 0 (Data [ucast k])"

lemma demo_ready: "ready 0 (demo_node n)"
  using sq_init_ok [of "int QUEUE_RTR_ITEMS_SIZE_MAX" null_sq zero_item 16 1 _
      "snd (sq_init null_sq zero_item (int QUEUE_RTR_ITEMS_SIZE_MAX) 16 1 True True True)"]
  by (simp add: ready_def demo_node_def totemsrp_instance_initialize_def SEQNO_START_MSG_def
      QUEUE_RTR_ITEMS_SIZE_MAX_def prod_eq_iff)

lemma demo_node_simps [simp]: "my_ring_id (demo_node n) = demo_ring" "deliveries (demo_node n) = []"
  by (simp_all add: demo_node_def totemsrp_instance_initialize_def deliveries_def)

lemma demo_local [simp]: "local_mcast (demo_mcast k) = demo_mcast k"
  by (simp add: local_mcast_def demo_mcast_def)

lemma demo_dist [simp]: "dist 0 (demo_mcast k, l) = unat k"
  by (simp add: dist_def) (simp add: demo_mcast_def)

lemma demo_ring_message:
  "0 < unat k \<Longrightarrow> unat k < QUEUE_RTR_ITEMS_SIZE_MAX \<Longrightarrow> ring_message demo_env demo_ring 0 (demo_mcast k, 46)"
  by (simp add: ring_message_def)
     (simp add: demo_mcast_def check_message_header_validity_def sizeof_defs demo_env_def mc_encapsulated_def
       encap_code_def)

definition demo_history :: "nat \<Rightarrow> delivery" where
  "demo_history k = (2, Data [word_of_nat k], 1, False)"

lemma demo_content [simp]: "content (stored (demo_mcast k, 46)) = demo_history (unat k)"
  by (simp add: content_def stored_def demo_mcast_def demo_history_def sizeof_defs) 

text \<open>(C3) A processor that is ready for a window of the ring and receives its messages in any
  order, with losses and duplicates, returns from every reception and delivers exactly the longest
  run of consecutive messages it has received: in the order of their sequence numbers, without a
  gap, each of them once.\<close>

theorem ordered_delivery:
  assumes "ready b s" "buffer_alloc env" "list_all (ring_message env (my_ring_id s) b) ps"
    "history b M ps"
  shows "\<exists>s' d. deliver_multicasts env (mcasts ps) s = Inr s' \<and>
    deliveries s' = deliveries s @ map M [1..<Suc d] \<and>
    (\<forall>k. 0 < k \<longrightarrow> k \<le> d \<longrightarrow> (\<exists>p \<in> set ps. dist b p = k)) \<and> (\<forall>p \<in> set ps. dist b p \<noteq> Suc d)"
proof -
  obtain s' d where d: "deliver_multicasts env (mcasts ps) s = Inr s'"
      "\<forall>k. 0 < k \<longrightarrow> k \<le> d \<longrightarrow> received b ps k \<noteq> None" "received b ps (Suc d) = None"
      "deliveries s' = deliveries s @ contents (received b ps) 0 d"
    using receive_all [OF assms(1-3)] by blast
  moreover have "\<forall>k. 0 < k \<longrightarrow> k \<le> d \<longrightarrow> (\<exists>p \<in> set ps. dist b p = k)"
    using d(2) received_None [of b ps] by blast
  moreover have "\<forall>p \<in> set ps. dist b p \<noteq> Suc d" using d(3) received_None by blast
  ultimately show ?thesis using contents_history [OF assms(4) d(2)]
    by (intro exI [of _ s'] exI [of _ d]) simp
qed

text \<open>Messages 2, 1, 2 and 4 arrive: 1 and 2 are delivered.\<close>

theorem ordered_delivery_witness:
  "\<exists>s'. deliver_multicasts demo_env
          (mcasts [(demo_mcast 2, 46), (demo_mcast 1, 46), (demo_mcast 2, 46), (demo_mcast 4, 46)])
          (demo_node 1) = Inr s' \<and>
        deliveries s' = [(2, Data [1], 1, False), (2, Data [2], 1, False)]"
proof -
  let ?ps = "[(demo_mcast 2, 46), (demo_mcast 1, 46), (demo_mcast 2, 46), (demo_mcast 4, 46)]"
  have "buffer_alloc demo_env" "history 0 demo_history ?ps"
      "list_all (ring_message demo_env (my_ring_id (demo_node 1)) 0) ?ps"
    using demo_ring_message by (simp_all add: demo_env_def history_def QUEUE_RTR_ITEMS_SIZE_MAX_def)
  from ordered_delivery [OF demo_ready this(1,3,2)] obtain s' d where
    s': "deliver_multicasts demo_env (mcasts ?ps) (demo_node 1) = Inr s'"
      "deliveries s' = map demo_history [1..<Suc d]"
      "\<forall>k. 0 < k \<longrightarrow> k \<le> d \<longrightarrow> (\<exists>p \<in> set ?ps. dist 0 p = k)" "\<forall>p \<in> set ?ps. dist 0 p \<noteq> Suc d"
    by (auto simp only: demo_node_simps append_Nil)
  have "d \<noteq> 0" "d \<noteq> 1" using s'(4) by auto
  moreover have "\<not> 3 \<le> d" using s'(3) [rule_format, of 3] by auto
  ultimately have "d = 2" by simp
  then show ?thesis using s'(1,2) by (simp add: demo_history_def upt_conv_Cons)
qed

text \<open>(C4) Two processors of a ring that are ready for the same window and receive each its own
  selection of the messages of the ring, in its own order, never disagree: what one of them has
  delivered is a prefix of what the other has delivered.\<close>

theorem agreed_delivery:
  assumes "ready b s" "ready b t" "my_ring_id s = r" "my_ring_id t = r"
    "buffer_alloc env" "list_all (ring_message env r b) ps" "list_all (ring_message env r b) qs"
    "history b M ps" "history b M qs" "deliveries s = deliveries t"
  shows "\<exists>s' t'. deliver_multicasts env (mcasts ps) s = Inr s' \<and>
    deliver_multicasts env (mcasts qs) t = Inr t' \<and>
    (prefix (deliveries s') (deliveries t') \<or> prefix (deliveries t') (deliveries s'))"
proof -
  obtain s' d where s': "deliver_multicasts env (mcasts ps) s = Inr s'"
      "\<forall>k. 0 < k \<longrightarrow> k \<le> d \<longrightarrow> received b ps k \<noteq> None"
      "deliveries s' = deliveries s @ contents (received b ps) 0 d"
    using receive_all [of b s env ps] assms(1,3,5,6) by blast
  obtain t' e where t': "deliver_multicasts env (mcasts qs) t = Inr t'"
      "\<forall>k. 0 < k \<longrightarrow> k \<le> e \<longrightarrow> received b qs k \<noteq> None"
      "deliveries t' = deliveries t @ contents (received b qs) 0 e"
    using receive_all [of b t env qs] assms(2,4,5,7) by blast
  have pre: "i \<le> j \<Longrightarrow> prefix [1..<Suc i] [1..<Suc j]" for i j
    using upt_add_eq_append [of 1 "Suc i" "j - i"] by simp
  then have "prefix (map M [1..<Suc d]) (map M [1..<Suc e]) \<or> prefix (map M [1..<Suc e]) (map M [1..<Suc d])"
    by (meson linear map_mono_prefix)
  then show ?thesis
    using s' t' contents_history [OF assms(8) s'(2)] contents_history [OF assms(9) t'(2)] assms(10)
    by auto
qed

text \<open>One processor receives 1 and 3, the other 2 and 1: \<open>[1]\<close> is a prefix of \<open>[1, 2]\<close>.\<close>

theorem agreed_delivery_witness:
  "\<exists>s' t'. deliver_multicasts demo_env (mcasts [(demo_mcast 1, 46), (demo_mcast 3, 46)]) (demo_node 1) = Inr s' \<and>
    deliver_multicasts demo_env (mcasts [(demo_mcast 2, 46), (demo_mcast 1, 46)]) (demo_node 2) = Inr t' \<and>
    (prefix (deliveries s') (deliveries t') \<or> prefix (deliveries t') (deliveries s'))"
  using agreed_delivery [OF demo_ready demo_ready, of 1 demo_ring 2 demo_env
      "[(demo_mcast 1, 46), (demo_mcast 3, 46)]" "[(demo_mcast 2, 46), (demo_mcast 1, 46)]" demo_history]
    demo_ring_message
  by (simp add: demo_env_def history_def QUEUE_RTR_ITEMS_SIZE_MAX_def)

end
