(* ===== verification/Srp_Invariant.thy ===== *)
theory Srp_Invariant
  imports Srp_Token
begin

text \<open>
  The invariant of a ring protocol instance and its preservation by every handler and entry point:
  the processor lists are sets within their arrays, the queues are well formed, and a processor
  that gathers is a member of its own processor list and agrees with itself. No assumption is made
  on the messages received.
\<close>

section \<open>The queues\<close>

lemma cs_queue_item_add_keeps:
  "cs_queue_inv q \<Longrightarrow> cs_queue_item_add q x = Inr q' \<Longrightarrow> cs_queue_inv q'"
  using cs_q.add_ok [of q x] cs_q.add_full [of q x] by (cases "length (cs_queue_list q) < cs_queue_capacity q") auto

lemma cs_queue_item_remove_keeps:
  "cs_queue_inv q \<Longrightarrow> cs_queue_item_remove q = Inr q' \<Longrightarrow> cs_queue_inv q'"
  using cs_queue_item_remove_ok [of q] cs_queue_item_remove_empty [of q] by (cases "cs_queue_list q = []") auto

text \<open>The sort queues of the instance.\<close>

definition sq_good :: "'a sq \<Rightarrow> bool" where
  "sq_good q \<longleftrightarrow> sq_inv q \<and> sq_len q = QUEUE_RTR_ITEMS_SIZE_MAX"

lemma slot_set_length: "slot_set xs i v = Inr ys \<Longrightarrow> unat i < length xs \<and> ys = xs[unat i := v]"
  by (auto simp: slot_set_def array_set_def split: if_splits)

lemma sq_item_add_keeps:
  assumes g: "sq_good q" and add: "sq_item_add q x s = Inr q'"
  shows "sq_good q'"
proof -
  obtain p its mc where p: "unat p < sq_len q" "q' = q\<lparr>sq_pos_max := (if p > sq_pos_max q then p else sq_pos_max q),
      sq_items := its, sq_items_inuse := (sq_items_inuse q)[unat p := (if s = 0 then 1 else s)],
      sq_items_miss_count := mc\<rparr>" "length its = sq_len q" "length mc = sq_len q"
    using add g sq_invD(4-6) [of q]
    by (auto simp: sq_item_add_def sq_good_def Let_def bindE_eq_Inr dest!: slot_set_length)
  then have "sq_inv q'"
    using sq_item_add_inv [OF _ p(1) p(2)] g by (simp add: sq_good_def)
  then show ?thesis using g p(2) by (simp add: sq_good_def sq_len_def)
qed

lemma memset0_keeps:
  "memset0 i n xs = Inr ys \<Longrightarrow> length ys = length xs \<and> (\<forall>k < length xs. xs ! k = 0 \<longrightarrow> ys ! k = 0)"
  using memset0_ok [of i n xs] by (auto simp: memset0_def split: if_splits)

lemma sq_good_head:
  assumes "sq_good q" "unat hp < sq_len q" "length inuse = sq_len q" "length mc = sq_len q"
    "\<forall>k < sq_len q. sq_items_inuse q ! k = 0 \<longrightarrow> inuse ! k = 0"
  shows "sq_good (q\<lparr>sq_head := hp, sq_items_inuse := inuse, sq_items_miss_count := mc, sq_head_seqid := x\<rparr>)"
    "sq_good (q\<lparr>sq_head := hp, sq_items_inuse := inuse, sq_head_seqid := x\<rparr>)"
  using assms by (auto simp: sq_good_def sq_inv_def sq_len_def)

lemma sq_items_release_keeps:
  assumes g: "sq_good q" and rel: "sq_items_release q s = Inr q'"
  shows "sq_good q'"
proof -
  have inv: "sq_inv q" using g by (simp add: sq_good_def)
  have head: "unat (x mod sq_size q) < sq_len q" for x
    using sq_invD(1) [OF inv] by (simp add: sq_len_def unat_mod)
  show ?thesis
    using rel head sq_invD(5,6) [OF inv]
    by (auto simp: sq_items_release_def Let_def sq_mod_def bindE_eq_Inr dest!: memset0_keeps
        split: if_splits intro!: sq_good_head [OF g])
qed

lemma sq_item_miss_count_keeps:
  "sq_good q \<Longrightarrow> sq_item_miss_count q s = Inr (c, q') \<Longrightarrow> sq_good q'"
  by (auto simp: sq_item_miss_count_def sq_good_def sq_inv_def sq_len_def bindE_eq_Inr dest!: slot_set_length)

lemma sq_copy_keeps: "sq_good d \<Longrightarrow> sq_good s \<Longrightarrow> sq_copy d s = Inr q \<Longrightarrow> sq_good q"
  using sq_copy_ok [of s d] by (auto simp: sq_good_def)

lemma sq_reinit_keeps: "sq_good q \<Longrightarrow> sq_good (sq_reinit zero q h)"
  by (simp add: sq_good_def sq_reinit_ok)

section \<open>The invariant\<close>

definition lists_inv :: "totemsrp_instance \<Rightarrow> bool" where
  "lists_inv s \<longleftrightarrow>
     memb_set (my_proc_list s) \<and> memb_set (my_failed_list s) \<and> memb_set (my_new_memb_list s) \<and>
     memb_set (my_trans_memb_list s) \<and> memb_set (my_memb_list s) \<and>
     memb_set (my_deliver_memb_list s) \<and> memb_set (my_left_memb_list s) \<and>
     distinct (map ci_addr (consensus_list s)) \<and> length (consensus_list s) \<le> PROCESSOR_COUNT_MAX \<and>
     distinct (my_leave_memb_list s) \<and> length (my_leave_memb_list s) < PROCESSOR_COUNT_MAX"

definition queues_inv :: "totemsrp_instance \<Rightarrow> bool" where
  "queues_inv s \<longleftrightarrow>
     cs_queue_inv (new_message_queue s) \<and> cs_queue_inv (new_message_queue_trans s) \<and>
     cs_queue_inv (retrans_message_queue s) \<and> sq_good (regular_sort_queue s) \<and>
     sq_good (recovery_sort_queue s)"

text \<open>A processor in the gather state.\<close>

definition gather_inv :: "totemsrp_instance \<Rightarrow> bool" where
  "gather_inv s \<longleftrightarrow>
     (memb_state s = MEMB_STATE_GATHER \<longrightarrow>
        nodeid (my_id s) \<noteq> 0 \<and> my_id s \<in> set (my_proc_list s) \<and> memb_consensus_isset s (my_id s))"

definition srp_inv :: "totemsrp_instance \<Rightarrow> bool" where
  "srp_inv s \<longleftrightarrow> lists_inv s \<and> queues_inv s \<and> gather_inv s"

text \<open>What the invariant depends on.\<close>

definition srp_view where
  "srp_view s =
     ((my_proc_list s, my_failed_list s, my_new_memb_list s, my_trans_memb_list s, my_memb_list s,
       my_deliver_memb_list s, my_left_memb_list s), consensus_list s, my_leave_memb_list s,
      (new_message_queue s, new_message_queue_trans s, retrans_message_queue s),
      (regular_sort_queue s, recovery_sort_queue s), memb_state s, my_id s)"

lemma srp_inv_view: "srp_view s = srp_view t \<Longrightarrow> srp_inv s \<longleftrightarrow> srp_inv t"
  by (simp add: srp_view_def srp_inv_def lists_inv_def queues_inv_def gather_inv_def memb_consensus_isset_def)

lemmas srp_inv_keep = srp_inv_view [THEN iffD1, rotated]

named_theorems view \<open>functions that leave the view alone\<close>

lemma view_emit [view]: "srp_view (emit e s) = srp_view s"
  by (simp add: srp_view_def emit_def)

lemma view_timers [view]:
  "srp_view (reset_timer t n s) = srp_view s"
  "srp_view (reset_token_retransmit_timeout s) = srp_view s"
  "srp_view (start_merge_detect_timeout s) = srp_view s"
  "srp_view (cancel_merge_detect_timeout s) = srp_view s"
  "srp_view (reset_pause_timeout s) = srp_view s"
  "srp_view (reset_token_warning s) = srp_view s"
  "srp_view (reset_token_timeout s) = srp_view s"
  "srp_view (reset_heartbeat_timeout s) = srp_view s"
  "srp_view (cancel_token_warning s) = srp_view s"
  "srp_view (cancel_token_timeout s) = srp_view s"
  "srp_view (cancel_heartbeat_timeout s) = srp_view s"
  "srp_view (cancel_token_retransmit_timeout s) = srp_view s"
  "srp_view (start_token_hold_retransmit_timeout s) = srp_view s"
  "srp_view (cancel_token_hold_retransmit_timeout s) = srp_view s"
  "srp_view (reset_join_timeout s) = srp_view s"
  by (simp_all add: srp_view_def emit_def reset_timer_def reset_token_retransmit_timeout_def
      start_merge_detect_timeout_def cancel_merge_detect_timeout_def reset_pause_timeout_def
      reset_token_warning_def reset_token_timeout_def reset_heartbeat_timeout_def
      cancel_token_warning_def cancel_token_timeout_def cancel_heartbeat_timeout_def
      cancel_token_retransmit_timeout_def start_token_hold_retransmit_timeout_def
      cancel_token_hold_retransmit_timeout_def reset_join_timeout_def Let_def)

lemma view_ring_state [view]:
  "srp_view (old_ring_state_save s) = srp_view s"
  "srp_view (old_ring_state_restore s) = srp_view s"
  "srp_view (old_ring_state_reset s) = srp_view s"
  "srp_view (memb_ring_id_set r s) = srp_view s"
  by (simp_all add: srp_view_def old_ring_state_save_def old_ring_state_restore_def
      old_ring_state_reset_def memb_ring_id_set_def)

lemma view_update [view]:
  "srp_view (s\<lparr>effects := a1\<rparr>) = srp_view s"
  "srp_view (s\<lparr>my_aru := a2\<rparr>) = srp_view s"
  "srp_view (s\<lparr>my_high_delivered := a2\<rparr>) = srp_view s"
  "srp_view (s\<lparr>my_high_seq_received := a2\<rparr>) = srp_view s"
  "srp_view (s\<lparr>last_released := a2\<rparr>) = srp_view s"
  "srp_view (s\<lparr>global_seqno := a2\<rparr>) = srp_view s"
  "srp_view (s\<lparr>fcc_remcast_current := a2\<rparr>) = srp_view s"
  "srp_view (s\<lparr>my_cbl := a2\<rparr>) = srp_view s"
  "srp_view (s\<lparr>my_trc := a2\<rparr>) = srp_view s"
  "srp_view (s\<lparr>my_pbl := a2\<rparr>) = srp_view s"
  "srp_view (s\<lparr>my_last_aru := a2\<rparr>) = srp_view s"
  "srp_view (s\<lparr>my_last_seq := a2\<rparr>) = srp_view s"
  "srp_view (s\<lparr>my_token_seq := a2\<rparr>) = srp_view s"
  "srp_view (s\<lparr>my_install_seq := a2\<rparr>) = srp_view s"
  "srp_view (s\<lparr>my_high_ring_delivered := a2\<rparr>) = srp_view s"
  "srp_view (s\<lparr>old_ring_state_high_seq_received := a2\<rparr>) = srp_view s"
  by (simp_all add: srp_view_def)

lemma view_update_flags [view]:
  "srp_view (s\<lparr>my_seq_unchanged := a3\<rparr>) = srp_view s"
  "srp_view (s\<lparr>my_aru_count := a3\<rparr>) = srp_view s"
  "srp_view (s\<lparr>my_rotation_counter := a3\<rparr>) = srp_view s"
  "srp_view (s\<lparr>my_retrans_flg_count := a3\<rparr>) = srp_view s"
  "srp_view (s\<lparr>my_token_held := a4\<rparr>) = srp_view s"
  "srp_view (s\<lparr>flushing := a4\<rparr>) = srp_view s"
  "srp_view (s\<lparr>my_received_flg := a4\<rparr>) = srp_view s"
  "srp_view (s\<lparr>my_set_retrans_flg := a4\<rparr>) = srp_view s"
  "srp_view (s\<lparr>orf_token_discard := a4\<rparr>) = srp_view s"
  "srp_view (s\<lparr>originated_orf_token := a4\<rparr>) = srp_view s"
  "srp_view (s\<lparr>waiting_trans_ack := a4\<rparr>) = srp_view s"
  "srp_view (s\<lparr>failed_to_recv := a4\<rparr>) = srp_view s"
  "srp_view (s\<lparr>my_merge_detect_timeout_outstanding := a4\<rparr>) = srp_view s"
  "srp_view (s\<lparr>commit_token := a5\<rparr>) = srp_view s"
  "srp_view (s\<lparr>orf_token_retransmit := a6\<rparr>) = srp_view s"
  "srp_view (s\<lparr>my_ring_id := a7\<rparr>) = srp_view s"
  "srp_view (s\<lparr>my_old_ring_id := a7\<rparr>) = srp_view s"
  "srp_view (s\<lparr>token_ring_id_seq := a8\<rparr>) = srp_view s"
  "srp_view (s\<lparr>pause_timestamp := a8\<rparr>) = srp_view s"
  "srp_view (s\<lparr>iface_changes := a9\<rparr>) = srp_view s"
  "srp_view (s\<lparr>token_callback_received := a10\<rparr>) = srp_view s"
  "srp_view (s\<lparr>token_callback_sent := a10\<rparr>) = srp_view s"
  by (simp_all add: srp_view_def)

section \<open>Functions that only move messages\<close>

definition memb_view where
  "memb_view s =
     ((my_proc_list s, my_failed_list s, my_new_memb_list s, my_trans_memb_list s, my_memb_list s,
       my_deliver_memb_list s, my_left_memb_list s), consensus_list s, my_leave_memb_list s,
      memb_state s, my_id s)"

definition moves :: "totemsrp_instance \<Rightarrow> totemsrp_instance \<Rightarrow> bool" where
  "moves s t \<longleftrightarrow> memb_view t = memb_view s \<and> (queues_inv s \<longrightarrow> queues_inv t)"

lemma moves_srp_inv: "moves s t \<Longrightarrow> srp_inv s \<Longrightarrow> srp_inv t"
  by (simp add: moves_def memb_view_def srp_inv_def lists_inv_def gather_inv_def memb_consensus_isset_def)

lemma moves_refl [simp]: "moves s s"
  by (simp add: moves_def)

lemma moves_trans [trans]: "moves s t \<Longrightarrow> moves t u \<Longrightarrow> moves s u"
  by (auto simp: moves_def)

lemma view_moves: "srp_view t = srp_view s \<Longrightarrow> moves s t"
  by (simp add: srp_view_def moves_def memb_view_def queues_inv_def)

lemma moves_queues:
  "(sq_good (regular_sort_queue s) \<Longrightarrow> sq_good q) \<Longrightarrow> moves s (s\<lparr>regular_sort_queue := q\<rparr>)"
  "(sq_good (recovery_sort_queue s) \<Longrightarrow> sq_good q) \<Longrightarrow> moves s (s\<lparr>recovery_sort_queue := q\<rparr>)"
  "(cs_queue_inv (retrans_message_queue s) \<Longrightarrow> cs_queue_inv c) \<Longrightarrow> moves s (s\<lparr>retrans_message_queue := c\<rparr>)"
  "(sq_good (ring_sort_queue s) \<Longrightarrow> sq_good q) \<Longrightarrow> moves s (put_sort_queue q s)"
  "(cs_queue_inv (new_queue s) \<Longrightarrow> cs_queue_inv c) \<Longrightarrow> moves s (put_new_queue c s)"
  "(cs_queue_inv (mcast_queue s) \<Longrightarrow> cs_queue_inv c) \<Longrightarrow> moves s (put_mcast_queue c s)"
  by (auto simp: moves_def memb_view_def queues_inv_def ring_sort_queue_def put_sort_queue_def
      new_queue_def put_new_queue_def mcast_queue_def put_mcast_queue_def)

lemma deliver_loop_view: "deliver_loop n seq skip s = Inr s' \<Longrightarrow> srp_view s' = srp_view s"
  by (induction n arbitrary: seq s)
     (auto simp: bindE_eq_Inr Let_def view split: if_splits option.splits)

lemma deliver_view: "messages_deliver_to_app skip e s = Inr s' \<Longrightarrow> srp_view s' = srp_view s"
  by (auto simp: messages_deliver_to_app_def Let_def bindE_eq_Inr dest: deliver_loop_view)

lemma update_aru_view: "update_aru s = Inr s' \<Longrightarrow> srp_view s' = srp_view s"
  by (auto simp: update_aru_def bindE_eq_Inr view)

lemma token_send_view: "token_send t f s = Inr s' \<Longrightarrow> srp_view s' = srp_view s"
  by (auto simp: token_send_def Let_def bindE_eq_Inr view split: if_splits)

lemma token_hold_cancel_send_view: "token_hold_cancel_send s = Inr s' \<Longrightarrow> srp_view s' = srp_view s"
  by (auto simp: token_hold_cancel_send_def bindE_eq_Inr view split: if_splits)

lemma orf_token_send_initial_view: "orf_token_send_initial s = Inr s' \<Longrightarrow> srp_view s' = srp_view s"
  by (auto simp: orf_token_send_initial_def Let_def bindE_eq_Inr view dest!: token_send_view)

lemma token_retransmit_view [view]:
  "srp_view (token_retransmit s) = srp_view s"
  "srp_view (timer_function_token_retransmit_timeout s) = srp_view s"
  "srp_view (timer_function_token_hold_retransmit_timeout s) = srp_view s"
  by (auto simp: token_retransmit_def timer_function_token_retransmit_timeout_def
      timer_function_token_hold_retransmit_timeout_def view split: memb_state_t.splits)

lemma remcast_view: "orf_token_remcast s seq = Inr (b, s') \<Longrightarrow> srp_view s' = srp_view s"
  by (auto simp: orf_token_remcast_def bindE_eq_Inr view split: if_splits option.splits)

lemma rtr_loop_view: "rtr_loop n rs s = Inr (rs', k, s') \<Longrightarrow> srp_view s' = srp_view s"
  by (induction n rs s arbitrary: rs' k s' rule: rtr_loop.induct)
     (fastforce simp: bindE_eq_Inr view split: if_splits dest: remcast_view)+

lemma free_loop_moves: "free_loop n seq s = Inr s' \<Longrightarrow> moves s s'"
proof (induction n arbitrary: seq s)
  case (Suc n)
  from Suc.prems obtain ptr :: "sort_queue_item option" and q where q: "sq_items_release (regular_sort_queue s) seq = Inr q"
    and r: "free_loop n (seq + 1) ((case ptr of None \<Rightarrow> s | Some item \<Rightarrow> emit (Buffer_release (mi_mcast item)) s)
        \<lparr>regular_sort_queue := q\<rparr>) = Inr s'"
    by (auto simp: bindE_eq_Inr Let_def)
  let ?s = "case ptr of None \<Rightarrow> s | Some item \<Rightarrow> emit (Buffer_release (mi_mcast item)) s"
  have "moves s ?s" "regular_sort_queue ?s = regular_sort_queue s"
    by (auto intro!: view_moves simp: view split: option.splits)
  moreover have "moves ?s (?s\<lparr>regular_sort_queue := q\<rparr>)"
    using q calculation(2) by (intro moves_queues) (auto intro: sq_items_release_keeps)
  ultimately show ?case using Suc.IH [OF r] by (blast intro: moves_trans)
qed simp

lemma messages_free_moves: "messages_free a s = Inr s' \<Longrightarrow> moves s s'"
  by (auto simp: messages_free_def Let_def bindE_eq_Inr split: if_splits dest!: free_loop_moves
      intro: moves_trans [OF _ view_moves] simp: view)

lemma request_loop_moves: "request_loop n seq rs s = Inr (rs', s') \<Longrightarrow> moves s s'"
proof (induction n arbitrary: seq rs s)
  case (Suc n)
  show ?case
  proof (cases "length rs < RETRANSMIT_ENTRIES_MAX \<and> sq_in_range (ring_sort_queue s) seq")
    case True
    then obtain inuse where inuse: "sq_item_inuse (ring_sort_queue s) seq = Inr inuse"
      using Suc.prems by (auto simp: bindE_eq_Inr)
    show ?thesis
    proof (cases inuse)
      case False
      then obtain c q where q: "sq_item_miss_count (ring_sort_queue s) seq = Inr (c, q)"
        using Suc.prems True inuse by (auto simp: bindE_eq_Inr)
      have "moves s (put_sort_queue q s)"
        using q by (intro moves_queues) (auto intro: sq_item_miss_count_keeps)
      moreover obtain rs1 where "request_loop n (seq + 1) rs1 (put_sort_queue q s) = Inr (rs', s')"
        using Suc.prems True inuse False q by (auto simp: Let_def split: if_splits)
      ultimately show ?thesis using Suc.IH moves_trans by blast
    qed (use Suc.IH Suc.prems True inuse in auto)
  qed (use Suc.prems in \<open>auto split: if_splits\<close>)
qed simp

lemma orf_token_rtr_moves:
  assumes "orf_token_rtr t a s = Inr (k, a', t', s')"
  shows "moves s s'"
proof -
  obtain rs k1 s1 rs' where
    r: "rtr_loop (unat a) (take (unat (rtr_list_entries t)) (rtr_list t)) s = Inr (rs, k1, s1)"
      "request_loop (unat (tok_seq t - my_aru s1)) (my_aru s1 + 1) rs
         (s1\<lparr>fcc_remcast_current := of_nat k1\<rparr>) = Inr (rs', s')"
    using assms by (auto simp: orf_token_rtr_def Let_def bindE_eq_Inr split: if_splits)
  have "moves s (s1\<lparr>fcc_remcast_current := of_nat k1\<rparr>)"
    using rtr_loop_view [OF r(1)] by (intro view_moves) (simp add: view)
  then show ?thesis using request_loop_moves [OF r(2)] moves_trans by blast
qed

lemma mcast_loop_moves: "mcast_loop n t s = Inr (k, t', s') \<Longrightarrow> moves s s'"
proof (induction n arbitrary: t s k)
  case (Suc n)
  show ?case
  proof (cases "cs_queue_is_empty (mcast_queue s)")
    case False
    then obtain item :: message_item and m q mq k' where
      q: "sq_item_add (ring_sort_queue (s\<lparr>global_seqno := global_seqno s + 1\<rparr>)) (item\<lparr>mi_mcast := m\<rparr>) (tok_seq t + 1) = Inr q"
      and mq: "cs_queue_item_remove (mcast_queue (emit (Mcast_noflush_send m (mi_msg_len item))
          (put_sort_queue q (s\<lparr>global_seqno := global_seqno s + 1\<rparr>)))) = Inr mq"
      and r: "mcast_loop n (t\<lparr>tok_seq := tok_seq t + 1\<rparr>) ((put_mcast_queue mq (emit (Mcast_noflush_send m (mi_msg_len item))
          (put_sort_queue q (s\<lparr>global_seqno := global_seqno s + 1\<rparr>))))\<lparr>my_high_seq_received := tok_seq t + 1\<rparr>) = Inr (k', t', s')"
      using Suc.prems by (auto simp: bindE_eq_Inr Let_def)
    let ?s1 = "s\<lparr>global_seqno := global_seqno s + 1\<rparr>"
    let ?s2 = "emit (Mcast_noflush_send m (mi_msg_len item)) (put_sort_queue q ?s1)"
    have "moves s ?s1" by (rule view_moves) (simp add: view)
    also have "moves ?s1 (put_sort_queue q ?s1)"
      using q by (intro moves_queues) (auto intro: sq_item_add_keeps)
    also have "moves (put_sort_queue q ?s1) ?s2" by (rule view_moves) (simp add: view)
    also have "moves ?s2 (put_mcast_queue mq ?s2)"
      using mq by (intro moves_queues) (auto intro: cs_queue_item_remove_keeps)
    also have "moves (put_mcast_queue mq ?s2) ((put_mcast_queue mq ?s2)\<lparr>my_high_seq_received := tok_seq t + 1\<rparr>)"
      by (rule view_moves) (simp add: view)
    also have "moves \<dots> s'" using Suc.IH [OF r] .
    finally show ?thesis .
  qed (use Suc.prems in auto)
qed simp

lemma orf_token_mcast_moves:
  assumes "orf_token_mcast t a s = Inr (k, t', s')"
  shows "moves s s'"
proof -
  let ?s = "if memb_state s = MEMB_STATE_RECOVERY then reset_token_retransmit_timeout s else s"
  obtain t1 s1 where r: "mcast_loop (unat a) t ?s = Inr (k, t1, s1)" "update_aru s1 = Inr s'"
    using assms unfolding orf_token_mcast_def Let_def by (auto simp: bindE_eq_Inr)
  have "moves s ?s" by (rule view_moves) (simp add: view)
  also have "moves ?s s1" by (rule mcast_loop_moves [OF r(1)])
  also have "moves s1 s'" by (rule view_moves) (rule update_aru_view [OF r(2)])
  finally show ?thesis .
qed

lemma totemsrp_mcast_moves:
  assumes "totemsrp_mcast iov g b s = Inr (r, s')"
  shows "moves s s'"
proof (cases "cs_queue_is_full (new_queue s) \<or> \<not> b")
  case True
  then have "s' = s" using assms by (simp add: totemsrp_mcast_def split: if_splits)
  then show ?thesis by simp
next
  case False
  let ?s = "emit (Stat ''mcast_tx'') s"
  obtain item q where q: "cs_queue_item_add (new_queue s) item = Inr q" "s' = put_new_queue q ?s"
    using assms False by (simp add: totemsrp_mcast_def Let_def bindE_eq_Inr) blast
  have "moves s ?s" by (rule view_moves) (simp add: view)
  also have "moves ?s s'"
    unfolding q(2) using q(1)
    by (intro moves_queues) (auto intro: cs_queue_item_add_keeps simp: new_queue_def split: if_splits)
  finally show ?thesis .
qed

section \<open>Consensus and leave lists\<close>

lemma memb_set_filter: "memb_set xs \<Longrightarrow> memb_set (filter P xs)"
  by (auto simp: memb_set_def intro: le_trans [OF length_filter_le])

lemma memb_set_merge_keeps: "memb_set ys \<Longrightarrow> memb_set_merge xs ys = Inr zs \<Longrightarrow> memb_set zs"
  using memb_set_merge_Inr [of xs ys zs] by (simp add: memb_set_def)

lemma memb_set_merge_in: "memb_set_merge xs ys = Inr zs \<Longrightarrow> set zs = set xs \<union> set ys"
  using memb_set_merge_Inr by blast

lemma consensus_set_list_ok:
  "consensus_set_list a i cs = Inr cs' \<Longrightarrow> i + length cs \<le> PROCESSOR_COUNT_MAX \<Longrightarrow>
   set (map ci_addr cs') = insert a (set (map ci_addr cs)) \<and>
   (distinct (map ci_addr cs) \<longrightarrow> distinct (map ci_addr cs')) \<and> i + length cs' \<le> PROCESSOR_COUNT_MAX \<and>
   (\<forall>b. consensus_isset_list b cs' = (b = a \<or> consensus_isset_list b cs))"
  by (induction a i cs arbitrary: cs' rule: consensus_set_list.induct)
     (fastforce simp: bindE_eq_Inr split: if_splits)+

lemma consensus_set_keeps:
  "memb_consensus_set a s = Inr s' \<Longrightarrow> lists_inv s \<Longrightarrow>
   lists_inv s' \<and> (queues_inv s' \<longleftrightarrow> queues_inv s) \<and>
   (\<exists>cs. s' = s\<lparr>consensus_list := cs\<rparr>) \<and>
   (\<forall>b. memb_consensus_isset s' b = (b = a \<or> memb_consensus_isset s b))"
  using consensus_set_list_ok [of a 0 "consensus_list s"]
  by (auto simp: memb_consensus_set_def bindE_eq_Inr lists_inv_def queues_inv_def memb_consensus_isset_def)

lemma consensus_reset_keeps:
  "lists_inv s \<Longrightarrow> lists_inv (memb_consensus_reset s)" "queues_inv (memb_consensus_reset s) = queues_inv s"
  by (simp_all add: memb_consensus_reset_def lists_inv_def queues_inv_def)

lemma leave_set_keeps: "srp_inv s \<Longrightarrow> srp_inv (my_leave_memb_set n s)"
  by (auto simp: my_leave_memb_set_def srp_inv_def lists_inv_def queues_inv_def gather_inv_def
      memb_consensus_isset_def)

section \<open>Entering the states\<close>

lemma join_send_view:
  "memb_join_message_send s = Inr s' \<Longrightarrow> srp_view s' = srp_view s \<and> nodeid (my_id s) \<noteq> 0"
  by (auto simp: memb_join_message_send_def bindE_eq_Inr assertE_eq_Inr view split: if_splits)

text \<open>Gathering can start from any state whose lists and queues are in order.\<close>

lemma view_lists: "srp_view s = srp_view t \<Longrightarrow> lists_inv s = lists_inv t \<and> queues_inv s = queues_inv t"
  by (simp add: srp_view_def lists_inv_def queues_inv_def)

lemma view_proj:
  "srp_view s = srp_view t \<Longrightarrow> my_proc_list s = my_proc_list t \<and> my_failed_list s = my_failed_list t \<and>
     my_id s = my_id t \<and> memb_state s = memb_state t \<and> my_memb_list s = my_memb_list t \<and>
     my_new_memb_list s = my_new_memb_list t"
  by (simp add: srp_view_def)

lemma gather_enter_split:
  assumes e: "memb_state_gather_enter g s = Inr s'"
  shows "\<exists>procs s2 s4 s5. memb_set_merge [my_id s] (my_proc_list s) = Inr procs \<and>
    memb_join_message_send (s\<lparr>orf_token_discard := True, originated_orf_token := False, my_proc_list := procs\<rparr>) = Inr s2 \<and>
    srp_view s4 = srp_view s2 \<and> memb_consensus_set (my_id s2) (memb_consensus_reset s4) = Inr s5 \<and>
    srp_view s' = srp_view (s5\<lparr>memb_state := MEMB_STATE_GATHER\<rparr>)"
proof -
  let ?s1 = "s\<lparr>orf_token_discard := True, originated_orf_token := False\<rparr>"
  let ?s4 = "\<lambda>s2. cancel_merge_detect_timeout (cancel_token_timeout (cancel_token_retransmit_timeout
      (reset_timer Gather_consensus_timeout
        (uint (consensus_timeout (totem_config s2)) * QB_TIME_NS_IN_MSEC) (reset_join_timeout s2))))"
  obtain procs s2 s5 where
    procs: "memb_set_merge [my_id s] (my_proc_list s) = Inr procs"
    and s2: "memb_join_message_send (?s1\<lparr>my_proc_list := procs\<rparr>) = Inr s2"
    and s5: "memb_consensus_set (my_id (?s4 s2)) (memb_consensus_reset (?s4 s2)) = Inr s5"
    and s': "s' = (let s6 = emit (Stat ''gather_entered'') (s5\<lparr>memb_state := MEMB_STATE_GATHER\<rparr>)
             in (if g = TOTEMSRP_GSFROM_THE_CONSENSUS_TIMEOUT_EXPIRED
                     then emit (Stat ''continuous_gather'') s6 else s6))"
    using e by (auto simp: memb_state_gather_enter_def Let_def bindE_eq_Inr simp del: memb_set_merge.simps)
  have v: "srp_view (?s4 s2) = srp_view s2" by (simp add: view)
  then have "my_id (?s4 s2) = my_id s2" using view_proj by blast
  moreover have "srp_view s' = srp_view (s5\<lparr>memb_state := MEMB_STATE_GATHER\<rparr>)"
    by (simp add: s' Let_def view)
  ultimately show ?thesis using procs s2 s5 v by (intro exI [of _ procs] exI [of _ s2] exI [of _ "?s4 s2"] exI [of _ s5]) simp
qed

lemma gather_enter_keeps:
  assumes e: "memb_state_gather_enter g s = Inr s'" and l: "lists_inv s" and q: "queues_inv s"
  shows "srp_inv s' \<and> memb_state s' = MEMB_STATE_GATHER \<and> my_id s' = my_id s \<and>
    set (my_proc_list s') = insert (my_id s) (set (my_proc_list s)) \<and> my_failed_list s' = my_failed_list s"
proof -
  let ?s1 = "s\<lparr>orf_token_discard := True, originated_orf_token := False\<rparr>"
  obtain procs s2 s4 s5 where
    procs: "memb_set_merge [my_id s] (my_proc_list s) = Inr procs"
    and s2: "memb_join_message_send (?s1\<lparr>my_proc_list := procs\<rparr>) = Inr s2"
    and s4: "srp_view s4 = srp_view s2" "memb_consensus_set (my_id s2) (memb_consensus_reset s4) = Inr s5"
    and s': "srp_view s' = srp_view (s5\<lparr>memb_state := MEMB_STATE_GATHER\<rparr>)"
    using gather_enter_split [OF e] by blast
  have p: "memb_set procs" "set procs = insert (my_id s) (set (my_proc_list s))"
    using memb_set_merge_keeps [OF _ procs] memb_set_merge_in [OF procs] l by (simp_all add: lists_inv_def)
  let ?t = "?s1\<lparr>my_proc_list := procs\<rparr>"
  have v2: "srp_view s2 = srp_view ?t" and n: "nodeid (my_id s) \<noteq> 0"
    using join_send_view [OF s2] by simp_all
  have v4: "srp_view s4 = srp_view ?t" using s4(1) v2 by simp
  have "lists_inv ?t" "queues_inv ?t" using l q p(1) by (simp_all add: lists_inv_def queues_inv_def)
  then have "my_id s2 = my_id s" "lists_inv s4" "queues_inv s4" "my_proc_list s4 = procs"
      "my_failed_list s4 = my_failed_list s" "my_id s4 = my_id s"
    using view_proj [OF v2] view_proj [OF v4] view_lists [OF v4] by simp_all
  then have 5: "lists_inv s5" "queues_inv s5" "my_proc_list s5 = procs" "my_failed_list s5 = my_failed_list s"
      "my_id s5 = my_id s" "memb_consensus_isset s5 (my_id s)"
    using consensus_set_keeps [OF s4(2)] consensus_reset_keeps [of s4]
    by (auto simp: memb_consensus_reset_def)
  then have "srp_inv (s5\<lparr>memb_state := MEMB_STATE_GATHER\<rparr>)"
    using n p by (simp add: srp_inv_def lists_inv_def queues_inv_def gather_inv_def memb_consensus_isset_def)
  then show ?thesis using srp_inv_view [OF s'] view_proj [OF s'] p 5 by simp
qed

lemma gather_enter_inv: "memb_state_gather_enter g s = Inr s' \<Longrightarrow> srp_inv s \<Longrightarrow> srp_inv s'"
  using gather_enter_keeps by (simp add: srp_inv_def)

text \<open>Gathering after the processor or failed list has grown.\<close>

lemma gather_enter_lists:
  assumes "memb_state_gather_enter g t = Inr s'" "srp_inv s" "memb_set p" "memb_set f"
    "t = s\<lparr>my_proc_list := p, my_failed_list := f\<rparr> \<or> t = s\<lparr>my_proc_list := p\<rparr> \<or> t = s\<lparr>my_failed_list := f\<rparr>"
  shows "srp_inv s'"
proof -
  have "lists_inv t" "queues_inv t"
    using assms(2-5) by (auto simp: srp_inv_def lists_inv_def queues_inv_def)
  then show ?thesis using gather_enter_keeps [OF assms(1)] by blast
qed

lemma gather_enter_procs:
  "memb_state_gather_enter g (s\<lparr>my_proc_list := p\<rparr>) = Inr s' \<Longrightarrow> srp_inv s \<Longrightarrow> memb_set p \<Longrightarrow> srp_inv s'"
  by (rule gather_enter_lists [of _ _ _ s p "[]"]) auto

lemma gather_enter_failed:
  "memb_state_gather_enter g (s\<lparr>my_failed_list := f\<rparr>) = Inr s' \<Longrightarrow> srp_inv s \<Longrightarrow> memb_set f \<Longrightarrow> srp_inv s'"
  by (rule gather_enter_lists [of _ _ _ s "[]" f]) auto

lemma srp_inv_lists: "srp_inv s \<Longrightarrow> memb_set (my_proc_list s) \<and> memb_set (my_failed_list s) \<and>
    memb_set (my_memb_list s) \<and> memb_set (my_new_memb_list s) \<and> memb_set (my_trans_memb_list s)"
  by (simp add: srp_inv_def lists_inv_def)

lemma srp_inv_emit [simp]: "srp_inv (emit e s) = srp_inv s"
  by (rule srp_inv_view) (simp add: view)

lemma consensus_restart_inv:
  assumes "memb_consensus_set (my_id s) (memb_consensus_reset s) = Inr s'" "srp_inv s"
  shows "srp_inv s'"
proof -
  obtain cs where s': "s' = (memb_consensus_reset s)\<lparr>consensus_list := cs\<rparr>"
      "lists_inv s'" "queues_inv s'" "memb_consensus_isset s' (my_id s)"
    using consensus_set_keeps [OF assms(1)] consensus_reset_keeps [of s] assms(2)
    unfolding srp_inv_def by metis
  have "gather_inv s'"
    using s'(4) assms(2) unfolding gather_inv_def srp_inv_def s'(1) by (simp add: memb_consensus_reset_def)
  then show ?thesis using s'(2,3) by (simp add: srp_inv_def)
qed

lemma consensus_expired_inv:
  assumes e: "memb_state_consensus_timeout_expired s = Inr s'" and i: "srp_inv s"
  shows "srp_inv s'"
proof -
  define s1 where "s1 = emit (Stat ''consensus_timeouts'') s"
  have inv: "srp_inv s1" using i by (simp add: s1_def)
  note e' = e [unfolded memb_state_consensus_timeout_expired_def Let_def, folded s1_def, unfolded bindE_eq_Inr]
  from e' consider
      (yes) s2 where "memb_consensus_set (my_id s1) (memb_consensus_reset s1) = Inr s2" "s' = reset_token_timeout s2"
    | (no) f where "memb_set_merge (memb_consensus_notset s1) (my_failed_list s1) = Inr f"
        "memb_state_gather_enter TOTEMSRP_GSFROM_CONSENSUS_TIMEOUT (s1\<lparr>my_failed_list := f\<rparr>) = Inr s'"
    by (auto simp: bindE_eq_Inr split: if_splits)
  then show ?thesis
  proof cases
    case yes
    then show ?thesis using consensus_restart_inv [OF yes(1) inv] srp_inv_view [of s' s2] by (simp add: view)
  next
    case no
    then show ?thesis
      using gather_enter_failed [OF no(2) inv] memb_set_merge_keeps [OF _ no(1)] srp_inv_lists [OF inv] by blast
  qed
qed

lemma recovery_loss_inv: "memb_recovery_state_token_loss s = Inr s' \<Longrightarrow> srp_inv s \<Longrightarrow> srp_inv s'"
proof -
  assume a: "memb_recovery_state_token_loss s = Inr s'" "srp_inv s"
  obtain s1 where "memb_state_gather_enter TOTEMSRP_GSFROM_THE_TOKEN_WAS_LOST_IN_THE_RECOVERY_STATE
      (old_ring_state_restore s) = Inr s1" "s' = emit (Stat ''recovery_token_lost'') s1"
    using a(1) by (auto simp: memb_recovery_state_token_loss_def bindE_eq_Inr)
  moreover have "srp_inv (old_ring_state_restore s)" using a(2) srp_inv_view view_ring_state(2) by blast
  ultimately show ?thesis using gather_enter_inv by simp
qed

lemma token_timeout_inv:
  assumes "timer_function_orf_token_timeout s = Inr s'" "srp_inv s"
  shows "srp_inv s'"
proof (cases "memb_state s")
  case MEMB_STATE_RECOVERY
  then obtain s1 where "memb_recovery_state_token_loss s = Inr s1" "s' = s1\<lparr>orf_token_discard := True\<rparr>"
    using assms(1) by (auto simp: timer_function_orf_token_timeout_def bindE_eq_Inr)
  then show ?thesis using recovery_loss_inv [OF _ assms(2)] srp_inv_view [of s' s1] by (simp add: view)
next
  case MEMB_STATE_GATHER
  then obtain s1 s2 where "memb_state_consensus_timeout_expired s = Inr s1"
      "memb_state_gather_enter TOTEMSRP_GSFROM_THE_CONSENSUS_TIMEOUT_EXPIRED s1 = Inr s2"
      "s' = emit (Stat ''gather_token_lost'') s2"
    using assms(1) by (auto simp: timer_function_orf_token_timeout_def bindE_eq_Inr)
  then show ?thesis using consensus_expired_inv [OF _ assms(2)] gather_enter_inv by simp
next
  case MEMB_STATE_OPERATIONAL
  then obtain s1 where "memb_state_gather_enter TOTEMSRP_GSFROM_THE_TOKEN_WAS_LOST_IN_THE_OPERATIONAL_STATE
      (emit Iface_check s) = Inr s1" "s' = emit (Stat ''operational_token_lost'') s1"
    using assms(1) by (auto simp: timer_function_orf_token_timeout_def bindE_eq_Inr)
  then show ?thesis using gather_enter_inv assms(2) by simp
next
  case MEMB_STATE_COMMIT
  then obtain s1 where "memb_state_gather_enter TOTEMSRP_GSFROM_THE_TOKEN_WAS_LOST_IN_THE_COMMIT_STATE s = Inr s1"
      "s' = emit (Stat ''commit_token_lost'') s1"
    using assms(1) by (auto simp: timer_function_orf_token_timeout_def bindE_eq_Inr)
  then show ?thesis using gather_enter_inv assms(2) by simp
qed

lemma merge_timeout_view:
  "timer_function_merge_detect_timeout s = Inr s' \<Longrightarrow> srp_view s' = srp_view s"
  by (auto simp: timer_function_merge_detect_timeout_def memb_merge_detect_transmit_def Let_def bindE_eq_Inr view
      split: memb_state_t.splits if_splits)

lemma gather_timer_view: "memb_timer_function_state_gather s = Inr s' \<Longrightarrow> srp_view s' = srp_view s"
  by (auto simp: memb_timer_function_state_gather_def bindE_eq_Inr view split: if_splits dest: join_send_view)

lemma leave_send_inv:
  assumes a: "memb_leave_message_send s = Inr s'" and inv: "srp_inv s"
  shows "srp_inv s'"
proof -
  obtain failed where f: "memb_set_merge [my_id s] (my_failed_list s) = Inr failed"
      "s' = s\<lparr>my_failed_list := failed\<rparr> \<or> (\<exists>e e'. s' = emit e (emit e' (s\<lparr>my_failed_list := failed\<rparr>)))"
    using a unfolding memb_leave_message_send_def Let_def bindE_eq_Inr by (metis sum.inject(2))
  have v: "srp_view s' = srp_view (s\<lparr>my_failed_list := failed\<rparr>)" using f(2) by (auto simp: view)
  have "memb_set failed" using memb_set_merge_keeps [OF _ f(1)] srp_inv_lists [OF inv] by blast
  then have "srp_inv (s\<lparr>my_failed_list := failed\<rparr>)"
    using inv by (simp add: srp_inv_def lists_inv_def queues_inv_def gather_inv_def memb_consensus_isset_def)
  then show ?thesis using srp_inv_view [OF v] by simp
qed

end
