(* ===== verification/Srp_Reach.thy ===== *)
theory Srp_Reach
  imports Srp_Invariant Srp_Delivery
begin

text \<open>
  The rest of the preservation proof: the commit, recovery and operational states, the message
  handlers, and the runs of an instance from its initialisation.
\<close>

section \<open>Commit\<close>

lemma memb_set_sort [simp]: "memb_set (sort xs) = memb_set xs"
  by (simp add: memb_set_def)

lemma subtract_memb_set: "memb_set xs \<Longrightarrow> memb_set (memb_set_subtract xs ys)"
  using memb.subtract_ok [of xs ys] by blast

lemma commit_create:
  "memb_state_commit_token_create s = Inr s' \<Longrightarrow> lists_inv s \<Longrightarrow>
   srp_view s' = srp_view s \<and> memb_set (ct_addr (commit_token s'))"
  by (auto simp: memb_state_commit_token_create_def Let_def bindE_eq_Inr view lists_inv_def
      intro: subtract_memb_set)

lemma lists_inv_new: "lists_inv s \<Longrightarrow> memb_set l \<Longrightarrow> lists_inv (s\<lparr>my_new_memb_list := l\<rparr>)"
  by (simp add: lists_inv_def)

lemma queues_inv_lists [simp]:
  "queues_inv (s\<lparr>my_new_memb_list := l\<rparr>) = queues_inv s"
  "queues_inv (s\<lparr>my_trans_memb_list := l\<rparr>) = queues_inv s"
  "queues_inv (s\<lparr>my_deliver_memb_list := l\<rparr>) = queues_inv s"
  "queues_inv (s\<lparr>my_proc_list := l\<rparr>) = queues_inv s"
  "queues_inv (s\<lparr>my_failed_list := l\<rparr>) = queues_inv s"
  "queues_inv (s\<lparr>memb_state := st\<rparr>) = queues_inv s"
  by (simp_all add: queues_inv_def)

lemma commit_update:
  assumes "memb_state_commit_token_update s = Inr s'"
  shows "srp_view s' = srp_view (s\<lparr>my_new_memb_list := ct_addr (commit_token s)\<rparr>)"
proof -
  let ?t = "s\<lparr>my_new_memb_list := ct_addr (commit_token s)\<rparr>"
  obtain b c where "s' = ?t\<lparr>my_received_flg := b, commit_token := c\<rparr>"
    using assms unfolding memb_state_commit_token_update_def Let_def
    by (auto simp: bindE_eq_Inr split: if_splits)
  then show ?thesis by (simp add: view)
qed

lemma commit_send_view [view]:
  "srp_view (memb_state_commit_token_send_recovery ct s) = srp_view s"
  "srp_view (memb_state_commit_token_send s) = srp_view s"
  "srp_view (target_set_completed s) = srp_view s"
  by (simp_all add: memb_state_commit_token_send_recovery_def memb_state_commit_token_send_def
      target_set_completed_def Let_def view)

lemma target_set_view: "memb_state_commit_token_target_set s = Inr s' \<Longrightarrow> srp_view s' = srp_view s"
  by (auto simp: memb_state_commit_token_target_set_def Let_def bindE_eq_Inr view split: if_splits)

lemma view_memb_state [view]:
  "srp_view (s\<lparr>memb_state := x\<rparr>) = (case srp_view s of (a, b, c, d, e, st, i) \<Rightarrow> (a, b, c, d, e, x, i))"
  by (simp add: srp_view_def)

lemma commit_enter_inv:
  assumes e: "memb_state_commit_enter s = Inr s'" and l: "lists_inv s" and q: "queues_inv s"
    and ct: "memb_set (ct_addr (commit_token s))"
  shows "srp_inv s' \<and> memb_state s' = MEMB_STATE_COMMIT"
proof -
  obtain s1 s2 where s1: "memb_state_commit_token_update (old_ring_state_save s) = Inr s1"
    and s2: "memb_state_commit_token_target_set s1 = Inr s2"
    and s': "srp_view s' = srp_view (s2\<lparr>memb_state := MEMB_STATE_COMMIT\<rparr>)"
    using e by (auto simp: memb_state_commit_enter_def Let_def bindE_eq_Inr view)
  have "srp_view s2 = srp_view ((old_ring_state_save s)\<lparr>my_new_memb_list := ct_addr (commit_token s)\<rparr>)"
    using target_set_view [OF s2] commit_update [OF s1] by (simp add: old_ring_state_save_def)
  also have "\<dots> = srp_view (s\<lparr>my_new_memb_list := ct_addr (commit_token s)\<rparr>)"
    by (simp add: old_ring_state_save_def srp_view_def)
  finally have "lists_inv s2" "queues_inv s2"
    using view_lists [of s2] lists_inv_new [OF l ct] q by simp_all
  then have "srp_inv (s2\<lparr>memb_state := MEMB_STATE_COMMIT\<rparr>)"
    by (simp add: srp_inv_def gather_inv_def lists_inv_def)
  then show ?thesis using srp_inv_view [OF s'] view_proj [OF s'] by simp
qed

section \<open>Recovery\<close>

text \<open>Lists and queues in order, whatever the state.\<close>

definition good :: "totemsrp_instance \<Rightarrow> bool" where
  "good s \<longleftrightarrow> lists_inv s \<and> queues_inv s"

lemma srp_inv_good: "srp_inv s \<Longrightarrow> good s"
  by (simp add: srp_inv_def good_def)

lemma good_srp_inv: "good s \<Longrightarrow> memb_state s \<noteq> MEMB_STATE_GATHER \<Longrightarrow> srp_inv s"
  by (simp add: srp_inv_def good_def gather_inv_def)

lemma good_moves: "moves s t \<Longrightarrow> good s \<Longrightarrow> good t"
  by (simp add: good_def moves_def memb_view_def lists_inv_def)

lemma good_view: "srp_view s = srp_view t \<Longrightarrow> good s = good t"
  using view_lists [of s t] by (simp only: good_def)

lemma good_lists:
  "good s \<Longrightarrow> memb_set l \<Longrightarrow> good (s\<lparr>my_trans_memb_list := l\<rparr>)"
  "good s \<Longrightarrow> memb_set l \<Longrightarrow> good (s\<lparr>my_deliver_memb_list := l\<rparr>)"
  "good s \<Longrightarrow> memb_set l \<Longrightarrow> good (s\<lparr>my_left_memb_list := l\<rparr>)"
  "good s \<Longrightarrow> memb_set l \<Longrightarrow> good (s\<lparr>my_memb_list := l\<rparr>)"
  "good s \<Longrightarrow> memb_set l \<Longrightarrow> good (s\<lparr>my_proc_list := l\<rparr>)"
  "good s \<Longrightarrow> memb_set l \<Longrightarrow> good (s\<lparr>my_failed_list := l\<rparr>)"
  "good s \<Longrightarrow> good (s\<lparr>memb_state := st\<rparr>)"
  by (simp_all add: good_def lists_inv_def queues_inv_def)

lemma good_memb_sets:
  "good s \<Longrightarrow> memb_set (my_trans_memb_list s)" "good s \<Longrightarrow> memb_set (my_new_memb_list s)"
  "good s \<Longrightarrow> memb_set (my_memb_list s)" "good s \<Longrightarrow> memb_set (my_proc_list s)"
  "good s \<Longrightarrow> memb_set (my_failed_list s)"
  by (simp_all add: good_def lists_inv_def)

lemma originate_loop_moves: "originate_loop b n seq s = Inr s' \<Longrightarrow> moves s s'"
proof (induction n arbitrary: seq s)
  case (Suc n)
  then obtain res ptr where g: "sq_item_get (regular_sort_queue s) seq = Inr (res, ptr)"
    by (auto simp: bindE_eq_Inr)
  show ?case
  proof (cases ptr)
    case None
    then show ?thesis using Suc g by simp
  next
    case (Some item)
    then obtain q where q: "cs_queue_item_add (retrans_message_queue s) (encapsulate s item) = Inr q"
        "originate_loop b n (seq + 1) (s\<lparr>retrans_message_queue := q\<rparr>) = Inr s'"
      using Suc.prems g by (auto simp: bindE_eq_Inr)
    have "moves s (s\<lparr>retrans_message_queue := q\<rparr>)"
      using q(1) by (intro moves_queues) (rule cs_queue_item_add_keeps)
    then show ?thesis using Suc.IH [OF q(2)] moves_trans by blast
  qed
qed simp

lemma recovery_originate_good:
  assumes e: "recovery_originate b ms s = Inr s'" and g: "good s"
  shows "good s'"
proof (cases "list_ex (not_received (my_trans_memb_list s)) ms")
  case False
  then show ?thesis using assms by (simp add: recovery_originate_def)
next
  case True
  define s1 where "s1 = s\<lparr>my_deliver_memb_list := my_trans_memb_list s\<rparr>"
  obtain low high where lh: "low_aru_loop s1 ms (old_ring_state_high_seq_received s1) (my_high_ring_delivered s1) = (low, high)"
    by fastforce
  have "good s1" unfolding s1_def using g by (intro good_lists good_memb_sets)
  then have g1: "good (s1\<lparr>my_high_ring_delivered := high\<rparr>)" using good_view [of "s1\<lparr>my_high_ring_delivered := high\<rparr>" s1] by (simp add: view)
  have "s' = s1\<lparr>my_high_ring_delivered := high\<rparr> \<or>
      (\<exists>n seq. originate_loop b n seq (s1\<lparr>my_high_ring_delivered := high\<rparr>) = Inr s')"
    using e True lh unfolding recovery_originate_def Let_def s1_def [symmetric]
    by (auto simp: bindE_eq_Inr split: if_splits)
  then show ?thesis using g1 good_moves originate_loop_moves by blast
qed

lemma recovery_reset_good: "good s \<Longrightarrow> good (recovery_reset ct s)"
proof -
  assume g: "good s"
  define s1 where "s1 = s\<lparr>orf_token_discard := False, my_high_ring_delivered := 0,
      recovery_sort_queue := sq_reinit zero_item (recovery_sort_queue s) SEQNO_START_MSG,
      retrans_message_queue := cs_queue_reinit zero_item (retrans_message_queue s)\<rparr>"
  have "good s1" using g
    by (simp add: s1_def good_def lists_inv_def queues_inv_def sq_reinit_keeps cs_queue_reinit_inv)
  moreover have "srp_view (recovery_reset ct s) = srp_view s1"
    by (simp add: recovery_reset_def Let_def view s1_def)
  ultimately show ?thesis using good_view by blast
qed

lemma recovery_enter_inv:
  assumes e: "memb_state_recovery_enter b ct s = Inr s'" and g: "good s"
  shows "srp_inv s' \<and> memb_state s' = MEMB_STATE_RECOVERY"
proof -
  define s1 where "s1 = recovery_reset ct s"
  define s2 where "s2 = s1\<lparr>my_trans_memb_list :=
      memb_set_and_with_ring_id (my_new_memb_list s1) (map me_ring_id (memb_list ct)) (my_memb_list s1) (my_old_ring_id s1)\<rparr>"
  have "good s1" using g recovery_reset_good by (simp add: s1_def)
  then have g2: "good s2"
    unfolding s2_def memb_set_and_with_ring_id_filter
    by (intro good_lists) (auto intro: memb_set_filter good_memb_sets)
  obtain s3 where s3: "recovery_originate b (zip (my_new_memb_list s2) (memb_list ct)) s2 = Inr s3"
      "srp_view s' = srp_view (s3\<lparr>memb_state := MEMB_STATE_RECOVERY\<rparr>)"
    using e unfolding memb_state_recovery_enter_def Let_def s1_def [symmetric] s2_def [symmetric]
    by (auto simp: bindE_eq_Inr view split: if_splits)
  have "good (s3\<lparr>memb_state := MEMB_STATE_RECOVERY\<rparr>)"
    using recovery_originate_good [OF s3(1) g2] by (rule good_lists)
  then show ?thesis using good_srp_inv good_view [OF s3(2)] view_proj [OF s3(2)] by simp
qed

section \<open>The operational state\<close>

lemma recover_item_moves: "recover_item m l s = Inr s' \<Longrightarrow> moves s s'"
proof -
  assume e: "recover_item m l s = Inr s'"
  then consider "s' = s" | q it where "sq_item_add (regular_sort_queue s) it (mc_seq m) = Inr q"
      "s' = s\<lparr>regular_sort_queue := q\<rparr> \<or> (\<exists>h. s' = s\<lparr>regular_sort_queue := q, old_ring_state_high_seq_received := h\<rparr>)"
    unfolding recover_item_def Let_def by (auto simp: bindE_eq_Inr split: if_splits)
  then show ?thesis
  proof cases
    case (2 q it)
    have m: "moves s (s\<lparr>regular_sort_queue := q\<rparr>)"
      using 2(1) by (intro moves_queues) (rule sq_item_add_keeps)
    have "srp_view s' = srp_view (s\<lparr>regular_sort_queue := q\<rparr>)" using 2(2) by (auto simp: view)
    then show ?thesis using m view_moves moves_trans by blast
  qed simp
qed

lemma recover_loop_moves: "recover_loop n seq s = Inr s' \<Longrightarrow> moves s s'"
proof (induction n arbitrary: seq s)
  case (Suc n)
  then obtain res ptr where g: "sq_item_get (recovery_sort_queue s) seq = Inr (res, ptr)"
    by (auto simp: bindE_eq_Inr)
  show ?case
  proof (cases "\<exists>it m. ptr = Some it \<and> mc_encapsulated (mi_mcast it) \<and> body (mi_mcast it) = Inner m")
    case True
    then obtain it :: message_item and m s1 where "recover_item m (mi_msg_len it) s = Inr s1" "recover_loop n (seq + 1) s1 = Inr s'"
      using Suc.prems g by (auto simp: bindE_eq_Inr)
    then show ?thesis using Suc.IH recover_item_moves moves_trans by blast
  next
    case False
    then show ?thesis using Suc g by (auto split: option.splits if_splits mcast_body.splits)
  qed
qed simp

lemma free_items_loop_view: "free_items_loop n seq s = Inr s' \<Longrightarrow> srp_view s' = srp_view s"
  by (induction n arbitrary: seq s) (auto simp: bindE_eq_Inr view split: option.splits)

lemma good_leave: "good s \<Longrightarrow> good (my_leave_memb_clear s)"
  by (simp add: good_def lists_inv_def queues_inv_def my_leave_memb_clear_def PROCESSOR_COUNT_MAX_def)

lemma operational_transitional_good:
  assumes e: "operational_transitional s = Inr (joined, s')" and g: "good s"
  shows "good s'"
proof -
  define s0 where "s0 = old_ring_state_reset (memb_consensus_reset (s\<lparr>originated_orf_token := False\<rparr>))"
  let ?X = "\<lambda>s2. emit (Confchg TOTEM_CONFIGURATION_TRANSITIONAL (srp_addr_to_nodeid (my_trans_memb_list s2))
      (srp_addr_to_nodeid (memb_set_subtract (my_memb_list s2) (my_trans_memb_list s2))) [] (my_ring_id s2))
      (s2\<lparr>my_left_memb_list := memb_set_subtract (my_memb_list s2) (my_trans_memb_list s2),
        my_memb_list := my_new_memb_list s2, last_released := 0, my_set_retrans_flg := False\<rparr>)
      \<lparr>waiting_trans_ack := True\<rparr>"
  obtain s1 s2 s5 where
    s1: "recover_loop (unat (my_aru s0 - SEQNO_START_MSG)) (1 + SEQNO_START_MSG) s0 = Inr s1"
    and d2: "messages_deliver_to_app False (old_ring_state_high_seq_received s1) (s1\<lparr>my_aru := old_ring_state_aru s1\<rparr>) = Inr s2"
    and d5: "messages_deliver_to_app True (old_ring_state_high_seq_received (?X s2)) (?X s2) = Inr s5"
    and s': "s' = emit (Waiting_trans_ack_cb True) s5\<lparr>my_aru := my_aru s1\<rparr>"
    using e unfolding operational_transitional_def deliver_messages_from_recovery_to_regular_def s0_def [symmetric] Let_def
    by (auto simp: bindE_eq_Inr)
  have s2: "srp_view s2 = srp_view (s1\<lparr>my_aru := old_ring_state_aru s1\<rparr>)" by (rule deliver_view [OF d2])
  have s5: "srp_view s5 = srp_view (s2\<lparr>my_left_memb_list := memb_set_subtract (my_memb_list s2) (my_trans_memb_list s2),
      my_memb_list := my_new_memb_list s2\<rparr>)" using deliver_view [OF d5] by (simp add: view)
  define l where "l = memb_set_subtract (my_memb_list s2) (my_trans_memb_list s2)"
  have "good s0"
    using g consensus_reset_keeps [of "s\<lparr>originated_orf_token := False\<rparr>"]
      good_view [of s0 "memb_consensus_reset (s\<lparr>originated_orf_token := False\<rparr>)"]
      good_view [of "s\<lparr>originated_orf_token := False\<rparr>" s]
    by (simp add: s0_def view good_def)
  then have g2: "good s2" using good_moves [OF recover_loop_moves [OF s1]] good_view [OF s2]
      good_view [of "s1\<lparr>my_aru := old_ring_state_aru s1\<rparr>" s1] by (simp add: view)
  then have "memb_set l" unfolding l_def by (intro subtract_memb_set good_memb_sets)
  then have "good (s2\<lparr>my_left_memb_list := l, my_memb_list := my_new_memb_list s2\<rparr>)"
    using good_lists(4) [OF good_lists(3) [OF g2]] good_memb_sets(2) [OF g2] by simp
  then show ?thesis using good_view [OF s5] good_view [of s' s5] by (simp add: s' view l_def)
qed

lemma operational_regular_good:
  assumes e: "operational_regular joined s = Inr s'" and g: "good s"
  shows "good s'"
proof -
  let ?s2 = "\<lambda>q. (emit (Confchg TOTEM_CONFIGURATION_REGULAR (srp_addr_to_nodeid (my_new_memb_list s)) []
      (srp_addr_to_nodeid joined) (my_ring_id s)) s)\<lparr>regular_sort_queue := q, my_last_aru := SEQNO_START_MSG,
      my_proc_list := my_new_memb_list s, my_failed_list := []\<rparr>"
  obtain q high s3 q' where
    q: "sq_copy (regular_sort_queue s) (recovery_sort_queue s) = Inr q"
    and f: "free_items_loop (Suc high) 0 (?s2 q\<lparr>my_high_delivered := of_nat high\<rparr>) = Inr s3"
    and q': "sq_items_release (regular_sort_queue s3) (my_high_delivered s3) = Inr q'"
    and s': "s' = s3\<lparr>regular_sort_queue := q', last_released := my_high_delivered s3\<rparr>"
    using e unfolding operational_regular_def Let_def
    by (auto simp: bindE_eq_Inr simp del: free_items_loop.simps)
  have s3: "srp_view s3 = srp_view (?s2 q)" using free_items_loop_view [OF f] by (simp add: view)
  have "sq_good q" using q g sq_copy_keeps by (auto simp: good_def queues_inv_def)
  then have "good (?s2 q)" using g by (auto simp: good_def lists_inv_def queues_inv_def memb_set_def)
  then have "good (s3\<lparr>regular_sort_queue := q'\<rparr>)"
    using good_view [OF s3] q' good_moves [OF moves_queues(1)] sq_items_release_keeps by blast
  then show ?thesis using good_view [of s' "s3\<lparr>regular_sort_queue := q'\<rparr>"] by (simp add: s' view)
qed

lemma operational_enter_inv:
  assumes e: "memb_state_operational_enter s = Inr s'" and g: "good s"
  shows "srp_inv s' \<and> memb_state s' = MEMB_STATE_OPERATIONAL"
proof -
  obtain joined s1 s2 where "operational_transitional s = Inr (joined, s1)" "operational_regular joined s1 = Inr s2"
    and s': "srp_view s' = srp_view ((my_leave_memb_clear s2)\<lparr>memb_state := MEMB_STATE_OPERATIONAL\<rparr>)"
    using e by (auto simp: memb_state_operational_enter_def Let_def bindE_eq_Inr view split: if_splits)
  then have "good s2" using g operational_transitional_good operational_regular_good by blast
  then have "good ((my_leave_memb_clear s2)\<lparr>memb_state := MEMB_STATE_OPERATIONAL\<rparr>)"
    using good_leave good_lists(7) by blast
  then show ?thesis using good_srp_inv good_view [OF s'] view_proj [OF s'] by simp
qed

section \<open>Messages to all\<close>

lemma foreign_message_inv: "foreign_message a g s = Inr s' \<Longrightarrow> srp_inv s \<Longrightarrow> srp_inv s'"
  by (auto simp: foreign_message_def bindE_eq_Inr simp del: memb_set_merge.simps
      intro: gather_enter_procs memb_set_merge_keeps dest: srp_inv_lists)

lemma mcast_foreign_inv: "mcast_foreign a s = Inr s' \<Longrightarrow> srp_inv s \<Longrightarrow> srp_inv s'"
  by (auto simp: mcast_foreign_def split: memb_state_t.splits if_splits intro: foreign_message_inv)

lemma moves_mcast_queue:
  "(sq_good (mcast_sort_queue m s) \<Longrightarrow> sq_good q) \<Longrightarrow> moves s (put_mcast_sort_queue m q s)"
  by (auto simp: mcast_sort_queue_def put_mcast_sort_queue_def intro: moves_queues)

lemma mcast_store_moves:
  assumes "mcast_store env raw m n s = Inr (Some s')"
  shows "moves s s'"
proof (cases "s' = s")
  case False
  let ?s1 = "if sq_lt_compare (my_high_seq_received s) (mc_seq m) then s\<lparr>my_high_seq_received := mc_seq m\<rparr> else s"
  obtain q where q: "sq_item_add (mcast_sort_queue m s) \<lparr>mi_mcast = raw, mi_msg_len = of_nat n\<rparr> (mc_seq m) = Inr q"
      "s' = put_mcast_sort_queue m q ?s1"
    using assms False by (auto simp: mcast_store_def Let_def bindE_eq_Inr split: if_splits)
  have "moves s ?s1" by (rule view_moves) (simp add: view)
  also have "moves ?s1 s'" unfolding q(2)
    using q(1) by (intro moves_mcast_queue) (auto simp: mcast_sort_queue_def intro: sq_item_add_keeps split: if_splits)
  finally show ?thesis .
qed simp

lemma message_handler_mcast_inv:
  assumes "message_handler_mcast env raw n e s = Inr (r, s')" "srp_inv s"
  shows "srp_inv s'"
proof -
  let ?m = "if e then mcast_endian_convert raw else raw"
  consider "s' = s" | "mcast_foreign (system_from ?m) s = Inr s'"
    | s1 s2 where "mcast_store env raw ?m n s = Inr (Some s1)" "update_aru s1 = Inr s2"
        "s' = s2 \<or> messages_deliver_to_app False (my_high_seq_received s2) s2 = Inr s'"
    using assms(1) unfolding message_handler_mcast_def Let_def
    by (auto simp: bindE_eq_Inr split: if_splits option.splits)
  then show ?thesis
  proof cases
    case (3 s1 s2)
    have "srp_inv s1" using mcast_store_moves [OF 3(1)] assms(2) moves_srp_inv by blast
    moreover have "srp_view s' = srp_view s1" using 3(2,3) update_aru_view deliver_view by metis
    ultimately show ?thesis using srp_inv_view by blast
  qed (use assms(2) mcast_foreign_inv in auto)
qed

lemma merge_detect_inv:
  "message_handler_memb_merge_detect raw n e s = Inr s' \<Longrightarrow> srp_inv s \<Longrightarrow> srp_inv s'"
  by (auto simp: message_handler_memb_merge_detect_def Let_def split: memb_state_t.splits if_splits
      intro: foreign_message_inv)

lemma hold_cancel_view [view]:
  "srp_view (message_handler_token_hold_cancel m n e s) = srp_view s"
  by (simp add: message_handler_token_hold_cancel_def Let_def view)

section \<open>Join messages\<close>

lemma note_leave_inv: "srp_inv s \<Longrightarrow> srp_inv (note_leave m s)"
  by (simp add: note_leave_def leave_set_keeps)

lemma consensus_set_inv:
  assumes "memb_consensus_set a s = Inr s'" "srp_inv s"
  shows "srp_inv s'"
proof -
  obtain cs where s': "s' = s\<lparr>consensus_list := cs\<rparr>" "lists_inv s'" "queues_inv s'"
      "memb_consensus_isset s (my_id s) \<Longrightarrow> memb_consensus_isset s' (my_id s)"
    using consensus_set_keeps [OF assms(1)] assms(2) unfolding srp_inv_def by metis
  have "my_id s' = my_id s" "my_proc_list s' = my_proc_list s" "memb_state s' = memb_state s"
    by (simp_all add: s'(1))
  then have "gather_inv s'" using s'(4) assms(2) unfolding gather_inv_def srp_inv_def by metis
  then show ?thesis using s'(2,3) by (simp add: srp_inv_def)
qed

lemma commit_created_inv:
  assumes "bindE (memb_state_commit_token_create s) memb_state_commit_enter = Inr s'" "lists_inv s" "queues_inv s"
  shows "srp_inv s'"
proof -
  obtain s1 where s1: "memb_state_commit_token_create s = Inr s1" "memb_state_commit_enter s1 = Inr s'"
    using assms(1) unfolding bindE_eq_Inr by blast
  have v: "srp_view s1 = srp_view s" "memb_set (ct_addr (commit_token s1))"
    using commit_create [OF s1(1) assms(2)] by simp_all
  then show ?thesis using commit_enter_inv [OF s1(2) _ _ v(2)] view_lists [OF v(1)] assms(2,3) by simp
qed

lemma join_agreed_inv:
  assumes e: "join_agreed m s = Inr s'" and i: "srp_inv s"
  shows "srp_inv s'"
proof -
  let ?one = "\<lambda>s1. s1\<lparr>failed_to_recv := False, my_proc_list := [my_id s1], my_failed_list := []\<rparr>"
  define C where "C t = bindE (memb_state_commit_token_create t) memb_state_commit_enter" for t
  let ?rest = "\<lambda>s1 lowest agreed. if agreed \<and> lowest then C s1
      else if memb_state s1 = MEMB_STATE_OPERATIONAL
      then memb_state_gather_enter TOTEMSRP_GSFROM_JOIN_DURING_OPERATIONAL_STATE s1 else Inr s1"
  obtain s1 agreed where s1: "(if \<not> is_leave m then memb_consensus_set (mj_system_from m) s else Inr s) = Inr s1"
    and r: "(if agreed \<and> failed_to_recv s1 then C (?one s1)
      else bindE (if agreed then memb_lowest_in_config s1 else Inr False) (\<lambda>lowest. ?rest s1 lowest agreed)) = Inr s'"
    using e [unfolded join_agreed_def, folded C_def] unfolding bindE_eq_Inr by blast
  have c: "s' = s1 \<or> C (?one s1) = Inr s' \<or> C s1 = Inr s' \<or>
      memb_state_gather_enter TOTEMSRP_GSFROM_JOIN_DURING_OPERATIONAL_STATE s1 = Inr s'"
  proof (cases "agreed \<and> failed_to_recv s1")
    case False
    then obtain lowest where "?rest s1 lowest agreed = Inr s'" using r by (auto simp: bindE_eq_Inr simp del: if_split)
    then show ?thesis by (cases "agreed \<and> lowest"; cases "memb_state s1 = MEMB_STATE_OPERATIONAL") auto
  qed (use r in simp)
  have i1: "srp_inv s1" using s1 i consensus_set_inv by (cases "is_leave m") auto
  then have l1: "lists_inv s1" "queues_inv s1" by (simp_all add: srp_inv_def)
  then have l2: "lists_inv (?one s1)" "queues_inv (?one s1)"
    by (simp_all add: lists_inv_def queues_inv_def memb_set_def PROCESSOR_COUNT_MAX_def)
  have "C t = Inr s' \<Longrightarrow> lists_inv t \<Longrightarrow> queues_inv t \<Longrightarrow> srp_inv s'" for t
    unfolding C_def by (rule commit_created_inv)
  then show ?thesis using c i1 l1 l2 gather_enter_inv [OF _ i1] by blast
qed

lemma join_merge_inv:
  assumes e: "join_merge m s = Inr s'" and i: "srp_inv s"
  shows "srp_inv s'"
proof -
  obtain procs failed where p: "memb_set_merge (proc_list m) (my_proc_list s) = Inr procs"
    and f: "join_merge_failed m (s\<lparr>my_proc_list := procs\<rparr>) = Inr failed"
    and g: "memb_state_gather_enter TOTEMSRP_GSFROM_MERGE_DURING_JOIN (s\<lparr>my_proc_list := procs, my_failed_list := failed\<rparr>) = Inr s'"
    using e by (auto simp: join_merge_def Let_def bindE_eq_Inr simp del: memb_set_merge.simps)
  have "memb_set procs" using memb_set_merge_keeps [OF _ p] srp_inv_lists [OF i] by blast
  moreover have "memb_set failed"
    using f srp_inv_lists [OF i] unfolding join_merge_failed_def Let_def
    by (auto intro: memb_set_merge_keeps simp del: memb_set_merge.simps split: if_splits)
  ultimately show ?thesis using gather_enter_lists [OF g i] by blast
qed

lemma memb_join_process_inv:
  assumes e: "memb_join_process m s = Inr s'" and i: "srp_inv s"
  shows "srp_inv s'"
proof -
  define s1 where "s1 = (if is_leave m then note_leave m s else s)"
  have i1: "srp_inv s1" using i note_leave_inv by (simp add: s1_def)
  have "s' = s1 \<or> join_agreed m s1 = Inr s' \<or> join_merge m s1 = Inr s' \<or>
      memb_state_gather_enter TOTEMSRP_GSFROM_JOIN_DURING_OPERATIONAL_STATE s1 = Inr s'"
    using e unfolding memb_join_process_def Let_def s1_def [symmetric] by (auto split: if_splits)
  then show ?thesis using i1 join_agreed_inv join_merge_inv gather_enter_inv by blast
qed

lemma memb_join_inv:
  assumes e: "message_handler_memb_join env raw n ec s = Inr s'" and i: "srp_inv s"
  shows "srp_inv s'"
proof -
  define m where "m = (if ec then memb_join_endian_convert raw else raw)"
  define s1 where "s1 = (if token_ring_id_seq s < mj_ring_seq m then s\<lparr>token_ring_id_seq := mj_ring_seq m\<rparr> else s)"
  have i1: "srp_inv s1" using i srp_inv_view [of s1 s] by (simp add: s1_def view)
  have "s' = s \<or> s' = s1 \<or> memb_join_process m s1 = Inr s' \<or>
      (\<exists>s2 s3 g. memb_join_process m s1 = Inr s2 \<and> (s3 = s2 \<or> memb_recovery_state_token_loss s2 = Inr s3) \<and>
         memb_state_gather_enter g s3 = Inr s')"
    using e unfolding message_handler_memb_join_def Let_def m_def [symmetric] s1_def [symmetric]
    by (auto simp: bindE_eq_Inr split: if_splits memb_state_t.splits)
  then show ?thesis
    using i i1 memb_join_process_inv gather_enter_inv recovery_loss_inv by blast
qed

section \<open>Tokens\<close>

lemma memb_set_equal_memb_set:
  assumes "memb_set_equal xs ys" "memb_set ys"
  shows "memb_set xs"
proof -
  have l: "length xs = length ys" and sub: "set ys \<subseteq> set xs"
    using assms(1) by (auto simp: memb_set_equal_def split: if_splits)
  have "length ys \<le> card (set xs)"
    using card_mono [OF _ sub] assms(2) by (simp add: memb_set_def distinct_card)
  then have "card (set xs) = length xs" using card_length [of xs] l by simp
  then show ?thesis using assms(2) l by (simp add: memb_set_def card_distinct)
qed

lemma memb_commit_token_inv:
  assumes e: "message_handler_memb_commit_token env raw n ec s = Inr s'" and i: "srp_inv s"
  shows "srp_inv s'"
proof -
  define ct where "ct = (if ec then memb_commit_token_endian_convert (stack_entries env) raw else raw)"
  have l: "lists_inv s" "queues_inv s" using i by (simp_all add: srp_inv_def)
  note e' = e [unfolded message_handler_memb_commit_token_def Let_def, folded ct_def]
  show ?thesis
  proof (cases "s' = s")
    case False
    show ?thesis
    proof (cases "memb_state s")
      case MEMB_STATE_GATHER
      then have g: "memb_set_equal (ct_addr ct) (memb_set_subtract (my_proc_list s) (my_failed_list s))"
          "memb_state_commit_enter (s\<lparr>commit_token := ct\<rparr>) = Inr s'"
        using e' False by (simp_all split: if_splits)
      have "memb_set (ct_addr ct)"
        using memb_set_equal_memb_set [OF g(1)] srp_inv_lists [OF i] subtract_memb_set by blast
      then show ?thesis
        using commit_enter_inv [OF g(2)] view_lists [of "s\<lparr>commit_token := ct\<rparr>" s] l by (simp add: view)
    next
      case MEMB_STATE_COMMIT
      then have "memb_state_recovery_enter (buffer_alloc env) ct s = Inr s'"
        using e' False by (simp split: if_splits)
      then show ?thesis using recovery_enter_inv srp_inv_good [OF i] by blast
    next
      case MEMB_STATE_RECOVERY
      then obtain s1 where s1: "orf_token_send_initial (s\<lparr>originated_orf_token := True\<rparr>) = Inr s1"
          "s' = reset_token_retransmit_timeout (reset_token_timeout s1)"
        using e' False by (auto simp: bindE_eq_Inr split: if_splits)
      then have "srp_view s' = srp_view s" using orf_token_send_initial_view [OF s1(1)] by (simp add: view)
      then show ?thesis using srp_inv_view i by blast
    qed (use e' False in \<open>simp split: if_splits\<close>)
  qed (use i in simp)
qed

lemma deliver_multicast_inv:
  assumes "deliver_multicast env p s = Inr (r, s')" "srp_inv s"
  shows "srp_inv s'"
proof -
  obtain m n where p: "p = (m, n)" by fastforce
  show ?thesis
    using assms(1) [unfolded deliver_multicast_def p] srp_inv_emit assms(2)
    by (cases m) (auto simp: Let_def bindE_eq_Inr split: if_splits
        intro: message_handler_mcast_inv merge_detect_inv memb_join_inv
          srp_inv_view [OF hold_cancel_view, THEN iffD2])
qed

lemma deliver_multicasts_inv: "deliver_multicasts env ps s = Inr s' \<Longrightarrow> srp_inv s \<Longrightarrow> srp_inv s'"
  by (induction ps arbitrary: s) (auto simp: bindE_eq_Inr dest: deliver_multicast_inv)

lemma callbacks_view [view]:
  "srp_view (put_callbacks t cs s) = srp_view s"
  "srp_view (callbacks_loop f t cs s) = srp_view s"
  "srp_view (token_callbacks_execute env t s) = srp_view s"
proof -
  show a: "srp_view (put_callbacks t cs s) = srp_view s" for t cs s
    by (simp add: put_callbacks_def view split: totem_callback_token_type.splits)
  show "srp_view (callbacks_loop f t cs s) = srp_view s" for f t cs s
    by (induction cs arbitrary: s) (simp_all add: Let_def a view)
  then show "srp_view (token_callbacks_execute env t s) = srp_view s"
    by (simp add: token_callbacks_execute_def)
qed

lemma token_parts_view [view]:
  "srp_view (token_activity t s) = srp_view s" "srp_view (token_hold s) = srp_view s"
  "srp_view (heartbeat_update f s) = srp_view s"
  by (simp_all add: token_activity_def token_hold_def heartbeat_update_def Let_def view)

lemma recovery_flag_view: "srp_view (snd (recovery_flag t s)) = srp_view s"
  by (simp add: recovery_flag_def view)

lemma fcc_view:
  "fcc_calculate t s = (a, s') \<Longrightarrow> srp_view s' = srp_view s"
  "fcc_token_update t n s = (t', s'') \<Longrightarrow> srp_view s'' = srp_view s"
  by (auto simp: fcc_calculate_def fcc_token_update_def Let_def view split: if_splits)

lemma recovery_received_good:
  "recovery_received s = Inr s' \<Longrightarrow> good s \<Longrightarrow> good s' \<and> memb_state s' = memb_state s"
  by (auto simp: recovery_received_def good_def lists_inv_def queues_inv_def split: if_splits)


lemma recovery_token_inv:
  assumes e: "recovery_token t s = Inr (t', s')" and i: "srp_inv s" and r: "memb_state s = MEMB_STATE_RECOVERY"
  shows "srp_inv s'"
proof -
  define s1 where "s1 = snd (recovery_flag t s)"
  define t1 where "t1 = fst (recovery_flag t s)"
  define s2 where "s2 = s1\<lparr>my_retrans_flg_count := (if tok_retrans_flg t1 = 0 then my_retrans_flg_count s1 + 1 else 0)\<rparr>"
  define s3 where "s3 = (if my_retrans_flg_count s2 = 2 then s2\<lparr>my_install_seq := tok_seq t1\<rparr> else s2)"
  have v3: "srp_view s3 = srp_view s" using recovery_flag_view [of t s] by (simp add: s3_def s2_def s1_def view)
  define k where "k s4 = s4\<lparr>my_rotation_counter := (if my_retrans_flg_count s4 \<ge> 3 \<and>
      sq_lte_compare (my_install_seq s4) (tok_aru t1) then my_rotation_counter s4 + 1 else 0)\<rparr>" for s4 :: totemsrp_instance
  obtain s4 where s4: "recovery_received s3 = Inr s4"
    and c: "s' = k s4 \<or> (\<exists>s6. memb_state_operational_enter (k s4) = Inr s6 \<and>
      s' = s6\<lparr>my_rotation_counter := 0, my_retrans_flg_count := 0\<rparr>)"
    using e unfolding recovery_token_def Let_def case_prod_beta s1_def [symmetric] t1_def [symmetric]
      s2_def [symmetric] s3_def [symmetric] k_def [symmetric]
    by (auto simp: bindE_eq_Inr split: if_splits)
  have "good s3" "memb_state s3 = MEMB_STATE_RECOVERY"
    using good_view [OF v3] view_proj [OF v3] r srp_inv_good [OF i] by simp_all
  then have g4: "good s4" "memb_state s4 = MEMB_STATE_RECOVERY" using recovery_received_good [OF s4] by simp_all
  have vk: "srp_view (k s4) = srp_view s4" by (simp add: k_def view)
  then have gk: "good (k s4)" "memb_state (k s4) = MEMB_STATE_RECOVERY"
    using good_view [OF vk] view_proj [OF vk] g4 by simp_all
  from c show ?thesis
  proof
    assume "s' = k s4"
    then show ?thesis using good_srp_inv gk by simp
  next
    assume "\<exists>s6. memb_state_operational_enter (k s4) = Inr s6 \<and>
      s' = s6\<lparr>my_rotation_counter := 0, my_retrans_flg_count := 0\<rparr>"
    then obtain s6 where s6: "memb_state_operational_enter (k s4) = Inr s6"
        "s' = s6\<lparr>my_rotation_counter := 0, my_retrans_flg_count := 0\<rparr>" by blast
    then have "srp_view s' = srp_view s6" by (simp add: view)
    then show ?thesis using operational_enter_inv [OF s6(1) gk(1)] srp_inv_view by blast
  qed
qed

lemma token_pass_inv:
  assumes e: "token_pass env t f s = Inr s'" and i: "srp_inv s"
  shows "srp_inv s'"
proof -
  define s1 where "s1 = s\<lparr>my_token_seq := tok_token_seq t\<rparr>"
  define t1 where "t1 = t\<lparr>tok_token_seq := tok_token_seq t + 1\<rparr>"
  have i1: "srp_inv s1" using i srp_inv_view [of s1 s] by (simp add: s1_def view)
  obtain t2 s2 s3 s4 where
    s2: "(if memb_state s1 = MEMB_STATE_RECOVERY then recovery_token t1 s1 else Inr (t1, s1)) = Inr (t2, s2)"
    and s3: "token_send t2 f (emit Send_flush s2) = Inr s3"
    and s4: "(if memb_state s3 = MEMB_STATE_OPERATIONAL
              then messages_deliver_to_app False (my_high_seq_received s3) s3 else Inr s3) = Inr s4"
    and s': "srp_view s' = srp_view s4"
    using e unfolding token_pass_def Let_def s1_def [symmetric] t1_def [symmetric]
    by (auto simp: bindE_eq_Inr view simp del: if_split)
  have "srp_inv s2" using s2 i1 recovery_token_inv by (auto split: if_splits)
  moreover have "srp_view s3 = srp_view s2" using token_send_view [OF s3] by (simp add: view)
  moreover have "srp_view s4 = srp_view s3" using s4 deliver_view by (auto split: if_splits)
  ultimately show ?thesis using s' srp_inv_view by metis
qed

lemma token_finish_inv:
  assumes e: "token_finish env a t f s = Inr s'" and i: "srp_inv s"
  shows "srp_inv s'"
proof -
  define t1 where "t1 = token_aru t s"
  define s1 where "s1 = s\<lparr>my_aru_count :=
                  (if tok_aru t1 = a \<and> aru_addr t1 \<noteq> 0 then my_aru_count s + 1 else 0)\<rparr>"
  have i1: "srp_inv s1" using i srp_inv_view [of s1 s] by (simp add: s1_def view)
  consider fl where "memb_set_merge [my_id s1] (my_failed_list s1) = Inr fl"
      "memb_state_gather_enter TOTEMSRP_GSFROM_FAILED_TO_RECEIVE (s1\<lparr>failed_to_recv := True, my_failed_list := fl\<rparr>) = Inr s'"
    | "token_pass env t1 f s1 = Inr s'"
    using e unfolding token_finish_def Let_def t1_def [symmetric] s1_def [symmetric]
    by (auto simp: bindE_eq_Inr simp del: memb_set_merge.simps split: if_splits)
  then show ?thesis
  proof cases
    case (1 fl)
    have "memb_set fl" using memb_set_merge_keeps [OF _ 1(1)] srp_inv_lists [OF i1] by blast
    moreover have "srp_inv (s1\<lparr>failed_to_recv := True\<rparr>)"
      using i1 srp_inv_view [of "s1\<lparr>failed_to_recv := True\<rparr>" s1] by (simp add: view)
    ultimately show ?thesis using gather_enter_failed [where f = fl and s = "s1\<lparr>failed_to_recv := True\<rparr>"] 1(2) by simp
  next
    case 2
    then show ?thesis using token_pass_inv i1 by blast
  qed
qed


lemma token_valid_inv:
  assumes e: "token_valid env t f s = Inr s'" and i: "srp_inv s"
  shows "srp_inv s'"
proof -
  define s1 where "s1 = (token_callbacks_execute env TOTEM_CALLBACK_TOKEN_RECEIVED s)"
  obtain a s2 where f: "fcc_calculate t (s1\<lparr>my_last_aru := tok_aru t\<rparr>) = (a, s2)" by fastforce
  let ?c = "\<lambda>k t1 s3. cancel_token_hold_on_retransmit (totem_config s3) \<and> my_token_held s3 \<and>
      (sint (rtr_list_entries t1) > 0 \<or> k > 0)"
  define h where "h c s3 = (if c then s3\<lparr>my_token_held := False\<rparr> else s3)" for c and s3 :: totemsrp_instance
  obtain k a1 t1 s3 a2 k2 t2 s5 s7 fw where
    s3: "orf_token_rtr t a s2 = Inr (k, a1, t1, s3)"
    and s5: "orf_token_mcast t1 a2 (h (?c k t1 s3) s3) = Inr (k2, t2, s5)"
    and s7: "token_finish env (my_last_aru s1) (fst (fcc_token_update t2 (k + of_nat k2) s5)) fw
        (snd (fcc_token_update t2 (k + of_nat k2) s5)) = Inr s7" "s' = heartbeat_update fw s7"
    using e unfolding token_valid_def Let_def s1_def [symmetric] f prod.case h_def [symmetric]
    by (auto simp: bindE_eq_Inr case_prod_beta simp del: if_split)
  define s6 where "s6 = snd (fcc_token_update t2 (k + of_nat k2) s5)"
  define s4 where "s4 = h (?c k t1 s3) s3"
  have v4: "srp_view s4 = srp_view s3" by (simp add: s4_def h_def view)
  have s': "srp_view s' = srp_view s7" by (simp add: s7 view)
  have v2: "srp_view s2 = srp_view s" using fcc_view(1) [OF f] by (simp add: s1_def view)
  have "moves s s2" by (rule view_moves) (rule v2)
  also have "moves s2 s3" by (rule orf_token_rtr_moves [OF s3])
  also have "moves s3 s4" by (rule view_moves) (rule v4)
  also have "moves s4 s5" by (rule orf_token_mcast_moves [OF s5 [folded s4_def]])
  also have "moves s5 s6" by (rule view_moves) (metis fcc_view(2) prod.collapse s6_def)
  finally have "srp_inv s6" using i moves_srp_inv by blast
  then show ?thesis using token_finish_inv [OF s7(1) [folded s6_def]] srp_inv_view [OF s'] by simp
qed

lemma token_body_inv:
  assumes e: "token_body env t s = Inr s'" and i: "srp_inv s"
  shows "srp_inv s'"
proof -
  define s1 where "s1 = token_hold s"
  define f where "f \<longleftrightarrow> \<not> (rep (my_ring_id s1) = nodeid (my_id s1) \<and> my_token_held s1)"
  have i1: "srp_inv s1" using i srp_inv_view [of s1 s] by (simp add: s1_def view)
  have upd: "srp_inv (heartbeat_update f u) = srp_inv u" for u
    by (rule srp_inv_view) (simp add: view)
  show ?thesis
  proof (cases "memb_state s1 = MEMB_STATE_COMMIT")
    case True
    then have "s' = heartbeat_update f s1"
      using e by (simp add: token_body_def Let_def s1_def [symmetric] f_def)
    then show ?thesis using upd i1 by simp
  next
    case False
    then obtain s2 where s2: "s2 = s1 \<or> messages_free (tok_aru t) s1 = Inr s2"
      and c: "s' = heartbeat_update f s2 \<or> s' = s2 \<or> token_valid env t f s2 = Inr s'"
      using e unfolding token_body_def Let_def s1_def [symmetric] f_def [symmetric]
      by (auto simp: bindE_eq_Inr split: if_splits)
    have "srp_inv s2" using s2 i1 messages_free_moves moves_srp_inv by blast
    then show ?thesis using c upd token_valid_inv by blast
  qed
qed

lemma orf_token_inv:
  assumes e: "message_handler_orf_token env raw n ec s = Inr s'" and i: "srp_inv s"
  shows "srp_inv s'"
proof (cases "s' = s")
  case False
  define t where "t = (if ec then orf_token_endian_convert raw else raw)"
  define s1 where "s1 = emit Recv_flush ((token_activity t s)\<lparr>flushing := True\<rparr>)"
  obtain s2 where s2: "deliver_multicasts env (recv_queue env) s1 = Inr s2"
      "token_body env t (s2\<lparr>flushing := False\<rparr>) = Inr s'"
    using e False unfolding message_handler_orf_token_def Let_def t_def [symmetric] s1_def [symmetric]
    by (auto simp: bindE_eq_Inr split: if_splits)
  have "srp_inv s1" using i srp_inv_view [of s1 s] by (simp add: s1_def view)
  then have "srp_inv s2" using deliver_multicasts_inv [OF s2(1)] by simp
  then have "srp_inv (s2\<lparr>flushing := False\<rparr>)"
    using srp_inv_view [of "s2\<lparr>flushing := False\<rparr>" s2] by (simp add: view)
  then show ?thesis using token_body_inv [OF s2(2)] by simp
qed (use i in simp)

lemma main_deliver_inv:
  assumes "main_deliver_fn env msg n s = Inr (r, s')" "srp_inv s"
  shows "srp_inv s'"
  using assms by (cases msg) (auto simp: main_deliver_fn_def bindE_eq_Inr split: if_splits
      intro: deliver_multicast_inv orf_token_inv memb_commit_token_inv)

lemma iface_change_inv:
  assumes e: "main_iface_change_fn iface loaded s = Inr s'" and i: "srp_inv s"
  shows "srp_inv s'"
proof -
  define s1 where "s1 = (if nodeid (my_id s) = 0 then s\<lparr>my_id := Srp_addr iface\<rparr> else s)"
  have i1: "srp_inv s1"
    using i by (auto simp: s1_def srp_inv_def lists_inv_def queues_inv_def gather_inv_def)
  define s2 where "s2 = (if iface_changes s1 = 0
      then emit Service_ready (s1\<lparr>my_ring_id := loaded\<lparr>ring_seq := ring_seq loaded + 1\<rparr>,
             token_ring_id_seq := ring_seq loaded + 1\<rparr>) else s1)"
  define s3 where "s3 = s2\<lparr>iface_changes := iface_changes s2 + 1\<rparr>"
  have v: "srp_view s3 = srp_view s1" by (simp add: s3_def s2_def view)
  have "s' = s3 \<or> memb_state_gather_enter TOTEMSRP_GSFROM_INTERFACE_CHANGE s3 = Inr s'"
    using e unfolding main_iface_change_fn_def Let_def s1_def [symmetric] s2_def [symmetric] s3_def [symmetric]
    by (auto split: if_splits)
  then show ?thesis using i1 srp_inv_view [OF v] gather_enter_inv by blast
qed


section \<open>Runs\<close>

text \<open>What the main loop, the network layer and the layer above may call.\<close>

datatype srp_event =
    Receive srp_env srp_msg nat
  | Send "u8 list list" u32 bool
  | Timer srp_timer u64
  | Iface_change u32 totem_ring_id
  | Trans_ack
  | Event_signal
  | Token_callback_create nat totem_callback_token_type bool bool
  | Token_callback_destroy nat
  | Mtu_changed u32
  | Force_gather
  | Finalize

definition srp_timer_fn :: "srp_timer \<Rightarrow> u64 \<Rightarrow> totemsrp_instance \<Rightarrow> totemsrp_instance c_result" where
  "srp_timer_fn t now s =
     (case t of
        Pause_timeout \<Rightarrow> Inr (timer_function_pause_timeout now s)
      | Orf_token_timeout \<Rightarrow> timer_function_orf_token_timeout s
      | Orf_token_warning \<Rightarrow> Inr (timer_function_orf_token_warning s)
      | Orf_token_retransmit_timeout \<Rightarrow> Inr (timer_function_token_retransmit_timeout s)
      | Orf_token_hold_retransmit_timeout \<Rightarrow> Inr (timer_function_token_hold_retransmit_timeout s)
      | Merge_detect_timeout \<Rightarrow> timer_function_merge_detect_timeout s
      | Gather_join_timeout \<Rightarrow> memb_timer_function_state_gather s
      | Gather_consensus_timeout \<Rightarrow> memb_timer_function_gather_consensus_timeout s
      | Heartbeat_timeout \<Rightarrow> timer_function_heartbeat_timeout s)"

definition srp_react :: "srp_event \<Rightarrow> totemsrp_instance \<Rightarrow> totemsrp_instance c_result" where
  "srp_react ev s =
     (case ev of
        Receive env msg n \<Rightarrow> bindE (main_deliver_fn env msg n s) (\<lambda>(r, s1). Inr s1)
      | Send iov g b \<Rightarrow> bindE (totemsrp_mcast iov g b s) (\<lambda>(r, s1). Inr s1)
      | Timer t now \<Rightarrow> srp_timer_fn t now s
      | Iface_change n loaded \<Rightarrow> main_iface_change_fn n loaded s
      | Trans_ack \<Rightarrow> Inr (totemsrp_trans_ack s)
      | Event_signal \<Rightarrow> totemsrp_event_signal s
      | Token_callback_create h t d m \<Rightarrow>
          bindE (totemsrp_callback_token_create h t d m s) (\<lambda>(r, s1). Inr s1)
      | Token_callback_destroy h \<Rightarrow> Inr (totemsrp_callback_token_destroy h s)
      | Mtu_changed mtu \<Rightarrow> Inr (totempg_mtu_changed mtu s)
      | Force_gather \<Rightarrow> totemsrp_force_gather s
      | Finalize \<Rightarrow> totemsrp_finalize s)"

inductive srp_run :: "srp_event list \<Rightarrow> totemsrp_instance \<Rightarrow> totemsrp_instance \<Rightarrow> bool" where
  srp_run_start: "srp_run [] s s"
| srp_run_step: "srp_react ev s = Inr s1 \<Longrightarrow> srp_run evs s1 s' \<Longrightarrow> srp_run (ev # evs) s s'"

inductive_simps srp_run_Nil: "srp_run [] s s'"
inductive_simps srp_run_Cons: "srp_run (ev # evs) s s'"

lemma srp_timer_fn_inv:
  assumes "srp_timer_fn t now s = Inr s'" "srp_inv s"
  shows "srp_inv s'"
proof -
  have v: "srp_view u = srp_view s \<Longrightarrow> srp_inv u" for u using srp_inv_view assms(2) by blast
  show ?thesis
    using assms
    by (cases t) (auto simp: srp_timer_fn_def timer_function_pause_timeout_def timer_function_orf_token_warning_def
        timer_function_heartbeat_timeout_def memb_timer_function_gather_consensus_timeout_def view
        intro: v merge_timeout_view gather_timer_view token_timeout_inv consensus_expired_inv)
qed

lemma callback_create_view:
  "totemsrp_callback_token_create h t d m s = Inr (r, s') \<Longrightarrow> srp_view s' = srp_view s"
  by (auto simp: totemsrp_callback_token_create_def bindE_eq_Inr view split: if_splits
      dest!: token_hold_cancel_send_view)

lemma view_config [view]: "srp_view (totempg_mtu_changed mtu s) = srp_view s"
  "srp_view (totemsrp_callback_token_destroy h s) = srp_view s"
  "srp_view (totemsrp_trans_ack s) = srp_view s"
  by (simp_all add: totempg_mtu_changed_def totemsrp_callback_token_destroy_def totemsrp_trans_ack_def
      srp_view_def emit_def)

lemma srp_react_inv:
  assumes e: "srp_react ev s = Inr s'" and i: "srp_inv s"
  shows "srp_inv s'"
proof -
  have v: "srp_view u = srp_view s \<Longrightarrow> srp_inv u" for u using srp_inv_view i by blast
  show ?thesis
  proof (cases ev)
    case (Send iov g b)
    then show ?thesis using e i
      by (auto simp: srp_react_def bindE_eq_Inr dest!: totemsrp_mcast_moves intro: moves_srp_inv)
  qed (use e i in \<open>auto simp: srp_react_def bindE_eq_Inr view totemsrp_event_signal_def totemsrp_force_gather_def
      totemsrp_finalize_def intro: v main_deliver_inv srp_timer_fn_inv iface_change_inv token_hold_cancel_send_view
      callback_create_view token_timeout_inv leave_send_inv\<close>)
qed

lemma srp_run_inv: "srp_run evs s s' \<Longrightarrow> srp_inv s \<Longrightarrow> srp_inv s'"
  by (induction rule: srp_run.induct) (auto dest: srp_react_inv)


section \<open>Initialisation\<close>

lemma cs_queue_init_ok: "1 \<le> n \<Longrightarrow> n < 2 ^ 31 \<Longrightarrow> cs_queue_inv (snd (cs_queue_init q z n sz thr True))"
  by (metis cs_queue_init_inv prod.collapse)

lemma sq_init_good:
  "sq_good (snd (sq_init q z (int QUEUE_RTR_ITEMS_SIZE_MAX) sz h True True True))"
  using sq_init_ok [of "int QUEUE_RTR_ITEMS_SIZE_MAX" q z sz h, OF _ _ prod.collapse [symmetric]]
  by (simp add: sq_good_def QUEUE_RTR_ITEMS_SIZE_MAX_def)

lemma callback_create_start:
  "\<not> my_token_held s \<Longrightarrow> totemsrp_callback_token_create h t d True s =
     Inr (0, put_callbacks t (\<lparr>tc_id = h, tc_type = t, tc_delete = d\<rparr> # callbacks t s) s)"
  by (simp add: totemsrp_callback_token_create_def token_hold_cancel_send_def)

lemma put_callbacks_held [simp]: "my_token_held (put_callbacks t cs s) = my_token_held s"
  by (simp add: put_callbacks_def split: totem_callback_token_type.splits)

text \<open>The state after the queues have been set up.\<close>

lemma totemsrp_initialize_ok:
  assumes "0 < m" "m < 2 ^ 31"
  shows "\<exists>s. totemsrp_initialize cfg n m now = Inr s \<and> srp_inv s \<and> my_id s = Srp_addr n \<and>
    my_proc_list s = [] \<and> my_failed_list s = [] \<and> iface_changes s = 0 \<and> totem_config s = cfg \<and>
    memb_state s = MEMB_STATE_OPERATIONAL \<and> \<not> my_token_held s \<and> waiting_trans_ack s \<and>
    new_message_queue_trans s = snd (cs_queue_init null_cs_queue zero_item (int m) 16 False True)"
proof -
  define s where "s = emit (Waiting_trans_ack_cb True) (totemsrp_instance_initialize cfg)"
  define s1 where "s1 = s\<lparr>retrans_message_queue :=
                   snd (cs_queue_init (retrans_message_queue s) zero_item
                          (int RETRANS_MESSAGE_QUEUE_SIZE_MAX) 16 False True),
                 regular_sort_queue :=
                   snd (sq_init (regular_sort_queue s) zero_item (int QUEUE_RTR_ITEMS_SIZE_MAX)
                          16 0 True True True),
                 recovery_sort_queue :=
                   snd (sq_init (recovery_sort_queue s) zero_item (int QUEUE_RTR_ITEMS_SIZE_MAX)
                          16 0 True True True),
                 use_heartbeat := True\<rparr>"
  define s2 where "s2 = (heartbeat_configure (timer_function_pause_timeout now s1))\<lparr>my_id := Srp_addr n\<rparr>"
  define s3 where "s3 = s2\<lparr>new_message_queue :=
                    snd (cs_queue_init (new_message_queue s2) zero_item (int m) 16 False True),
                  new_message_queue_trans :=
                    snd (cs_queue_init (new_message_queue_trans s2) zero_item (int m) 16
                           False True)\<rparr>"
  define s4 where "s4 = put_callbacks TOTEM_CALLBACK_TOKEN_RECEIVED [\<lparr>tc_id = 0, tc_type = TOTEM_CALLBACK_TOKEN_RECEIVED, tc_delete = False\<rparr>] s3"
  define s5 where "s5 = put_callbacks TOTEM_CALLBACK_TOKEN_SENT [\<lparr>tc_id = 0, tc_type = TOTEM_CALLBACK_TOKEN_SENT, tc_delete = False\<rparr>] s4"
  have v: "memb_view s2 = memb_view (s\<lparr>my_id := Srp_addr n\<rparr>)" "regular_sort_queue s2 = regular_sort_queue s1"
      "recovery_sort_queue s2 = recovery_sort_queue s1" "retrans_message_queue s2 = retrans_message_queue s1"
      "\<not> my_token_held s2" "callbacks TOTEM_CALLBACK_TOKEN_RECEIVED s2 = []" "callbacks TOTEM_CALLBACK_TOKEN_SENT s2 = []"
      "iface_changes s2 = 0" "totem_config s2 = cfg" "waiting_trans_ack s2" "new_message_queue_trans s2 = null_cs_queue"
    by (simp_all add: s2_def s1_def s_def heartbeat_configure_def timer_function_pause_timeout_def
        reset_pause_timeout_def reset_timer_def Let_def emit_def memb_view_def totemsrp_instance_initialize_def
        callbacks_def)
  have e: "totemsrp_initialize cfg n m now = Inr s5"
    using v(5-7) unfolding totemsrp_initialize_def Let_def s_def [symmetric] s1_def [symmetric] s2_def [symmetric]
      s3_def [symmetric]
    by (simp add: callback_create_start s4_def s5_def s3_def callbacks_def put_callbacks_def)
  have q: "queues_inv s3"
    using assms v(2-4)
    by (simp add: queues_inv_def s3_def s1_def sq_init_good cs_queue_init_ok RETRANS_MESSAGE_QUEUE_SIZE_MAX_def)
  have m: "memb_view s5 = memb_view (s\<lparr>my_id := Srp_addr n\<rparr>)"
    using v(1) by (simp add: s5_def s4_def s3_def put_callbacks_def memb_view_def)
  have "srp_view s5 = srp_view s3" by (simp add: s5_def s4_def view)
  then have "queues_inv s5" using view_lists q by blast
  then show ?thesis using e m v(5,8-11)
    by (auto simp: memb_view_def s_def totemsrp_instance_initialize_def srp_inv_def lists_inv_def gather_inv_def
        memb_set_def PROCESSOR_COUNT_MAX_def s5_def s4_def s3_def put_callbacks_def)
qed


lemma consensus_start: "memb_consensus_set a (memb_consensus_reset s) = Inr
    (s\<lparr>consensus_list := [\<lparr>ci_addr = a, ci_set = True\<rparr>]\<rparr>)"
  by (simp add: memb_consensus_set_def memb_consensus_reset_def PROCESSOR_COUNT_MAX_def)

text \<open>Entering the gather state succeeds when the processor has an identifier and room for itself.\<close>

lemma gather_enter_ok:
  assumes "nodeid (my_id s) \<noteq> 0" "my_id s \<in> set (my_proc_list s) \<or> length (my_proc_list s) < PROCESSOR_COUNT_MAX"
  shows "\<exists>s'. memb_state_gather_enter g s = Inr s'"
proof -
  have "\<exists>p. memb_set_merge [my_id s] (my_proc_list s) = Inr p" using assms(2) by auto
  then show ?thesis
    using assms(1) by (auto simp: memb_state_gather_enter_def Let_def memb_join_message_send_def assertE_def
        consensus_start simp del: memb_set_merge.simps)
qed

lemma demo_gather:
  assumes "srp_inv s" "my_id s = Srp_addr 1" "my_proc_list s = []" "iface_changes s = 0"
    "totem_config s = demo_config"
  shows "\<exists>s'. main_iface_change_fn 1 demo_ring s = Inr s' \<and> memb_state s' = MEMB_STATE_GATHER"
proof -
  let ?s = "(emit Service_ready (s\<lparr>my_ring_id := demo_ring\<lparr>ring_seq := ring_seq demo_ring + 1\<rparr>,
      token_ring_id_seq := ring_seq demo_ring + 1\<rparr>))\<lparr>iface_changes := 1\<rparr>"
  have e: "main_iface_change_fn 1 demo_ring s = memb_state_gather_enter TOTEMSRP_GSFROM_INTERFACE_CHANGE ?s"
    using assms by (simp add: main_iface_change_fn_def demo_config_def)
  obtain s' where s': "memb_state_gather_enter TOTEMSRP_GSFROM_INTERFACE_CHANGE ?s = Inr s'"
    using gather_enter_ok [of ?s] assms by (auto simp: PROCESSOR_COUNT_MAX_def)
  have "srp_view ?s = srp_view s" by (simp add: view)
  then have "lists_inv ?s" "queues_inv ?s" using view_lists [of ?s s] assms(1) by (simp_all add: srp_inv_def)
  then show ?thesis using gather_enter_keeps [OF s'] e s' by auto
qed


end
