(* ===== verification/Srp_Flow.thy ===== *)
theory Srp_Flow
  imports Srp_Delivery Srp_Reach
begin

text \<open>
  What a processor does with the token: the flow control window, the retransmit list, and the
  release of messages.
\<close>

section \<open>Flow control\<close>

lemma fcc_calculate_le:
  assumes "fcc_calculate t s = (a, s')" "unat (fcc t) \<le> unat (window_size (totem_config s))"
  shows "unat a + unat (fcc t) \<le> unat (window_size (totem_config s))" "a \<le> max_messages (totem_config s)"
    "my_trc s' = my_trc s" "totem_config s' = totem_config s"
proof -
  let ?w = "window_size (totem_config s)"
  have d: "unat (?w - fcc t) = unat ?w - unat (fcc t)" using assms(2) by (simp add: unat_sub word_le_nat_alt)
  have "a \<le> ?w - fcc t \<and> a \<le> max_messages (totem_config s)"
    using assms(1) by (auto simp: fcc_calculate_def Let_def split: if_splits)
  then show "unat a + unat (fcc t) \<le> unat ?w" "a \<le> max_messages (totem_config s)"
    using d assms(2) by (auto simp: word_le_nat_alt)
  show "my_trc s' = my_trc s" "totem_config s' = totem_config s"
    using assms(1) by (auto simp: fcc_calculate_def Let_def split: if_splits)
qed

lemma rtr_loop_count: "rtr_loop n rs s = Inr (rs', k, s') \<Longrightarrow> k \<le> n \<and> length rs' + k = length rs"
  by (induction n rs s arbitrary: rs' k s' rule: rtr_loop.induct) (fastforce simp: bindE_eq_Inr split: if_splits)+

text \<open>The counters of the flow control are not touched by the work in between.\<close>

definition fcc_view where
  "fcc_view s = (my_trc s, my_cbl s, my_pbl s, totem_config s, my_ring_id s, memb_state s, my_id s, my_last_aru s)"


lemma fcc_view_simps [simp]:
  "fcc_view (emit e s) = fcc_view s" "fcc_view (put_sort_queue q s) = fcc_view s"
  "fcc_view (put_mcast_queue mq s) = fcc_view s" "fcc_view (s\<lparr>global_seqno := x\<rparr>) = fcc_view s"
  "fcc_view (s\<lparr>my_high_seq_received := x\<rparr>) = fcc_view s" "fcc_view (s\<lparr>my_aru := x\<rparr>) = fcc_view s"
  "fcc_view (s\<lparr>fcc_remcast_current := x\<rparr>) = fcc_view s" "fcc_view (s\<lparr>my_token_held := b\<rparr>) = fcc_view s"
  "fcc_view (reset_token_retransmit_timeout s) = fcc_view s"
  by (simp_all add: fcc_view_def emit_def put_sort_queue_def put_mcast_queue_def put_new_queue_def
      reset_token_retransmit_timeout_def reset_timer_def)

lemma remcast_fcc: "orf_token_remcast s seq = Inr (b, s') \<Longrightarrow> fcc_view s' = fcc_view s"
  by (auto simp: orf_token_remcast_def bindE_eq_Inr split: if_splits option.splits)

lemma rtr_loop_fcc: "rtr_loop n rs s = Inr (rs', k, s') \<Longrightarrow> fcc_view s' = fcc_view s"
  by (induction n rs s arbitrary: rs' k s' rule: rtr_loop.induct)
     (fastforce simp: bindE_eq_Inr split: if_splits dest: remcast_fcc)+

lemma request_loop_fcc: "request_loop n seq rs s = Inr (rs', s') \<Longrightarrow> fcc_view s' = fcc_view s"
proof (induction n arbitrary: seq rs s)
  case (Suc n)
  show ?case
  proof (cases "length rs < RETRANSMIT_ENTRIES_MAX \<and> sq_in_range (ring_sort_queue s) seq")
    case True
    then obtain inuse where inuse: "sq_item_inuse (ring_sort_queue s) seq = Inr inuse"
      using Suc.prems by (auto simp: bindE_eq_Inr)
    show ?thesis
    proof (cases inuse)
      case False
      then obtain c q where q: "sq_item_miss_count (ring_sort_queue s) seq = Inr (c, q)"
        using Suc.prems True inuse by (auto simp: bindE_eq_Inr)
      obtain rs1 where "request_loop n (seq + 1) rs1 (put_sort_queue q s) = Inr (rs', s')"
        using Suc.prems True inuse False q by (auto simp: Let_def split: if_splits)
      then show ?thesis using Suc.IH by fastforce
    qed (use Suc.IH Suc.prems True inuse in auto)
  qed (use Suc.prems in \<open>auto split: if_splits\<close>)
qed simp

lemma mcast_loop_fcc:
  "mcast_loop n t s = Inr (k, t', s') \<Longrightarrow> fcc_view s' = fcc_view s \<and> k \<le> n \<and> t' = t\<lparr>tok_seq := tok_seq t + of_nat k\<rparr>"
proof (induction n arbitrary: t s k)
  case (Suc n)
  show ?case
  proof (cases "cs_queue_is_empty (mcast_queue s)")
    case False
    then obtain item :: message_item and m q mq k' where
      r: "mcast_loop n (t\<lparr>tok_seq := tok_seq t + 1\<rparr>) ((put_mcast_queue mq (emit (Mcast_noflush_send m (mi_msg_len item))
          (put_sort_queue q (s\<lparr>global_seqno := global_seqno s + 1\<rparr>))))\<lparr>my_high_seq_received := tok_seq t + 1\<rparr>) = Inr (k', t', s')"
      and k: "k = Suc k'"
      using Suc.prems by (auto simp: bindE_eq_Inr Let_def)
    then show ?thesis using Suc.IH [OF r] by (simp add: add.assoc)
  qed (use Suc.prems in auto)
qed simp

lemma update_aru_fcc: "update_aru s = Inr s' \<Longrightarrow> fcc_view s' = fcc_view s"
  by (auto simp: update_aru_def bindE_eq_Inr)

lemma orf_token_rtr_fcc:
  assumes "orf_token_rtr t a s = Inr (k, a', t', s')"
  shows "fcc_view s' = fcc_view s" "unat k \<le> unat a" "a' = a - k"
    "\<exists>rs. t' = t\<lparr>rtr_list_entries := of_nat (length rs), rtr_list := rs\<rparr>"
proof -
  obtain rs j s1 rs' where
    r: "rtr_loop (unat a) (take (unat (rtr_list_entries t)) (rtr_list t)) s = Inr (rs, j, s1)"
      "request_loop (unat (tok_seq t - my_aru s1)) (my_aru s1 + 1) rs
         (s1\<lparr>fcc_remcast_current := of_nat j\<rparr>) = Inr (rs', s')"
    and e: "k = of_nat j" "a' = a - of_nat j" "t' = t\<lparr>rtr_list_entries := of_nat (length rs'), rtr_list := rs'\<rparr>"
    using assms by (auto simp: orf_token_rtr_def Let_def bindE_eq_Inr split: if_splits)
  show "fcc_view s' = fcc_view s" using rtr_loop_fcc [OF r(1)] request_loop_fcc [OF r(2)] by simp
  have "j \<le> unat a" using rtr_loop_count [OF r(1)] by simp
  then show "unat k \<le> unat a" using unsigned_less [of a]
    by (simp add: e(1) unat_of_nat take_bit_nat_eq_self)
  show "a' = a - k" "\<exists>rs. t' = t\<lparr>rtr_list_entries := of_nat (length rs), rtr_list := rs\<rparr>"
    using e by auto
qed

lemma orf_token_mcast_fcc:
  assumes "orf_token_mcast t a s = Inr (k, t', s')"
  shows "fcc_view s' = fcc_view s" "k \<le> unat a" "t' = t\<lparr>tok_seq := tok_seq t + of_nat k\<rparr>"
proof -
  let ?s = "if memb_state s = MEMB_STATE_RECOVERY then reset_token_retransmit_timeout s else s"
  obtain s1 where r: "mcast_loop (unat a) t ?s = Inr (k, t', s1)" "update_aru s1 = Inr s'"
    using assms unfolding orf_token_mcast_def Let_def by (auto simp: bindE_eq_Inr)
  then show "fcc_view s' = fcc_view s" "k \<le> unat a" "t' = t\<lparr>tok_seq := tok_seq t + of_nat k\<rparr>"
    using mcast_loop_fcc [OF r(1)] update_aru_fcc [OF r(2)] by auto
qed


lemma fcc_view_proj: "fcc_view s = fcc_view t \<Longrightarrow> my_trc s = my_trc t \<and> my_cbl s = my_cbl t \<and> my_pbl s = my_pbl t \<and>
    totem_config s = totem_config t \<and> my_ring_id s = my_ring_id t \<and> my_last_aru s = my_last_aru t"
  by (simp add: fcc_view_def)

lemma fcc_rtr_limit_le: "fcc_rtr_limit t a s = Inr a' \<Longrightarrow> a' \<le> a"
  by (auto simp: fcc_rtr_limit_def Let_def bindE_eq_Inr split: if_splits)

lemma callbacks_fcc [simp]: "fcc_view (token_callbacks_execute env t s) = fcc_view s"
proof -
  have a: "fcc_view (put_callbacks t cs s) = fcc_view s" for t cs s
    by (simp add: put_callbacks_def fcc_view_def split: totem_callback_token_type.splits)
  have "fcc_view (callbacks_loop f t cs s) = fcc_view s" for f t cs s
    by (induction cs arbitrary: s) (simp_all add: Let_def a)
  then show ?thesis by (simp add: token_callbacks_execute_def)
qed

lemma fcc_sum:
  fixes c n r :: u32
  assumes "unat r \<le> unat c" "unat c + unat n < 2 ^ 32"
  shows "unat (c + (n - r)) + unat r = unat c + unat n"
proof -
  define x where "x = c - r"
  have e: "c + (n - r) = x + n" by (simp add: x_def)
  have "unat x = unat c - unat r" using assms(1) by (simp add: x_def unat_sub word_le_nat_alt)
  then have "unat (x + n) + unat r = unat c + unat n" using assms by (simp add: unat_plus_if') arith
  then show ?thesis unfolding e .
qed



text \<open>A token of \<open>demo_ring\<close> that counts three messages of the last rotation.\<close>

definition demo_token :: orf_token where
  "demo_token =
     \<lparr>tok_header = totemsrp_header (demo_node 2) MESSAGE_TYPE_ORF_TOKEN 0, tok_seq = 0, tok_token_seq = 1,
      tok_aru = 0, aru_addr = 0, tok_ring_id = demo_ring, backlog = 0, fcc = 3, tok_retrans_flg = 0,
      rtr_list_entries = 0, rtr_list = []\<rparr>"

text \<open>A token is taken by a processor that has nothing to send, to ask for or to deliver.\<close>

lemma limit_ok:
  assumes "a \<le> 17" "window_size (totem_config s) = 50"
  shows "\<exists>a'. fcc_rtr_limit t a s = Inr a'"
proof -
  have "unat (16384 - (a + 50) :: u32) < 2 ^ 31"
    using assms(1) by (simp add: unat_sub_if' unat_plus_if' word_le_nat_alt)
  then have "0 \<le> sint (16384 - (a + 50) :: u32)"
    using sint_of_nat_small [of "unat (16384 - (a + 50) :: u32)"] by simp
  then show ?thesis using assms(2)
    by (simp add: fcc_rtr_limit_def Let_def QUEUE_RTR_ITEMS_SIZE_MAX_def assertE_def)
qed

lemma mcast_idle:
  assumes "cs_queue_is_empty (mcast_queue s)" "my_high_seq_received s = my_aru s" "memb_state s = MEMB_STATE_OPERATIONAL"
  shows "orf_token_mcast t a s = Inr (0, t, s)"
proof -
  have "mcast_loop n t s = Inr (0, t, s)" for n using assms(1) by (cases n) simp_all
  then show ?thesis using assms by (simp add: orf_token_mcast_def update_aru_def)
qed

lemma finish_idle:
  assumes "memb_state s = MEMB_STATE_OPERATIONAL" "nodeid (my_id s) \<noteq> 0" "my_high_seq_received s = my_high_delivered s"
    "my_aru_count s = 0" "fail_to_recv_const (totem_config s) = 2500"
  shows "\<exists>s'. token_finish env a t f s = Inr s'"
proof -
  have "token_send t f u = Inr (if f then emit (Token_send (orf_token_retransmit v)) (emit (Stat ''orf_token_tx'') v) else v)"
    if "nodeid (my_id u) \<noteq> 0" "v = u\<lparr>orf_token_retransmit := Some (Orf_token
        (t\<lparr>tok_header := (tok_header t)\<lparr>hdr_nodeid := nodeid (my_id u)\<rparr>\<rparr>))\<rparr>" for t f u v
    using that by (simp add: token_send_def Let_def assertE_def)
  then show ?thesis using assms
    by (simp add: token_finish_def token_pass_def Let_def messages_deliver_to_app_def assertE_def
        QUEUE_RTR_ITEMS_SIZE_MAX_def)
qed

lemma idle_token:
  assumes s: "memb_state s = MEMB_STATE_OPERATIONAL" "nodeid (my_id s) \<noteq> 0"
      "callbacks TOTEM_CALLBACK_TOKEN_RECEIVED s = []" "cs_queue_is_empty (mcast_queue s)"
      "my_aru s = tok_seq t" "my_high_seq_received s = tok_seq t" "my_high_delivered s = tok_seq t"
      "totem_config s = demo_config" "my_aru_count s = 0" and t: "rtr_list_entries t = 0"
  shows "\<exists>s'. token_valid env t f s = Inr s'"
proof -
  obtain a s2 where f: "fcc_calculate t (s\<lparr>my_last_aru := tok_aru t\<rparr>) = (a, s2)" by fastforce
  have s2: "s2 = s\<lparr>my_last_aru := tok_aru t, my_cbl := backlog_get (s\<lparr>my_last_aru := tok_aru t\<rparr>)\<rparr>" "a \<le> 17"
    using f s by (auto simp: fcc_calculate_def Let_def demo_config_def split: if_splits)
  have cb: "token_callbacks_execute env TOTEM_CALLBACK_TOKEN_RECEIVED s = s"
    using s by (simp add: token_callbacks_execute_def)
  let ?t = "t\<lparr>rtr_list_entries := 0, rtr_list := []\<rparr>"
  have rtr: "orf_token_rtr t a s2 = Inr (0, a, ?t, s2\<lparr>fcc_remcast_current := 0\<rparr>)"
    using s t by (simp add: orf_token_rtr_def s2 assertE_def QUEUE_RTR_ITEMS_SIZE_MAX_def)
  let ?u = "s2\<lparr>fcc_remcast_current := 0\<rparr>"
  obtain a' where a': "fcc_rtr_limit ?t a ?u = Inr a'"
    using limit_ok [OF s2(2), of ?u ?t] s(8) by (auto simp: s2 demo_config_def)
  have m: "orf_token_mcast ?t a' ?u = Inr (0, ?t, ?u)"
    using s by (intro mcast_idle) (simp_all add: s2 mcast_queue_def new_queue_def split: if_splits)
  obtain t3 s6 where fu: "fcc_token_update ?t 0 ?u = (t3, s6)" by fastforce
  then have "\<exists>s'. token_finish env (my_last_aru s) t3 f s6 = Inr s'"
    using s by (intro finish_idle) (auto simp: fcc_token_update_def s2 demo_config_def)
  then show ?thesis
    using s by (auto simp: token_valid_def Let_def cb f rtr a' m fu demo_config_def s2(1) [symmetric])
qed




section \<open>Retransmit requests\<close>

text \<open>What the sort queue of the ring holds does not change while requests are added.\<close>

definition held_view where
  "held_view s = (sq_abs (ring_sort_queue s), sq_in_range (ring_sort_queue s), my_ring_id s)"

lemma ring_put [simp]: "ring_sort_queue (put_sort_queue q s) = q" "my_ring_id (put_sort_queue q s) = my_ring_id s"
  by (simp_all add: ring_sort_queue_def put_sort_queue_def)

lemma miss_count_held:
  assumes "sq_inv (ring_sort_queue s)" "sq_in_range (ring_sort_queue s) seq"
    "sq_item_miss_count (ring_sort_queue s) seq = Inr (c, q)"
  shows "sq_inv q \<and> held_view (put_sort_queue q s) = held_view s"
proof -
  have "sq_off (ring_sort_queue s) seq < sq_len (ring_sort_queue s)" using assms(1,2) sq_in_range_off by blast
  from sq_item_miss_count_ok [OF assms(1) this] assms(3) have q: "sq_inv q" "sq_abs q = sq_abs (ring_sort_queue s)"
    "sq_head_seqid q = sq_head_seqid (ring_sort_queue s)" "sq_len q = sq_len (ring_sort_queue s)" by auto
  then have "sq_in_range q = sq_in_range (ring_sort_queue s)"
    using sq_in_range_off [OF q(1)] sq_in_range_off [OF assms(1)] by (auto simp: sq_off_def)
  then show ?thesis using q by (simp add: held_view_def)
qed

lemma request_loop_requests:
  "request_loop n seq rs s = Inr (rs', s') \<Longrightarrow> sq_inv (ring_sort_queue s) \<Longrightarrow> length rs \<le> RETRANSMIT_ENTRIES_MAX \<Longrightarrow>
   length rs' \<le> RETRANSMIT_ENTRIES_MAX \<and>
   (\<exists>new. rs' = rs @ new \<and> list_all (\<lambda>r. rtr_ring_id r = my_ring_id s \<and>
      sq_in_range (ring_sort_queue s) (rtr_seq r) \<and> sq_abs (ring_sort_queue s) (rtr_seq r) = None) new)"
proof (induction n arbitrary: seq rs s)
  case (Suc n)
  let ?P = "\<lambda>s. list_all (\<lambda>r. rtr_ring_id r = my_ring_id s \<and>
      sq_in_range (ring_sort_queue s) (rtr_seq r) \<and> sq_abs (ring_sort_queue s) (rtr_seq r) = None)"
  show ?case
  proof (cases "length rs < RETRANSMIT_ENTRIES_MAX \<and> sq_in_range (ring_sort_queue s) seq")
    case True
    then have inuse: "sq_item_inuse (ring_sort_queue s) seq = Inr (sq_abs (ring_sort_queue s) seq \<noteq> None)"
      using sq_item_inuse_ok [OF Suc.prems(2)] sq_in_range_off [OF Suc.prems(2)] by blast
    show ?thesis
    proof (cases "sq_abs (ring_sort_queue s) seq = None")
      case None: True
      then obtain c q where q: "sq_item_miss_count (ring_sort_queue s) seq = Inr (c, q)"
        using Suc.prems True inuse by (auto simp: bindE_eq_Inr)
      then have h: "sq_inv q" "held_view (put_sort_queue q s) = held_view s"
        using miss_count_held [OF Suc.prems(2)] True by blast+
      let ?new = "\<lparr>rtr_ring_id = my_ring_id s, rtr_seq = seq\<rparr>"
      obtain rs1 where r: "request_loop n (seq + 1) rs1 (put_sort_queue q s) = Inr (rs', s')"
          "rs1 = rs \<or> rs1 = rs @ [?new]"
        using Suc.prems True inuse None q by (auto simp: Let_def split: if_splits)
      then have a: "length rs' \<le> RETRANSMIT_ENTRIES_MAX \<and> (\<exists>new. rs' = rs1 @ new \<and> ?P (put_sort_queue q s) new)"
        using Suc.IH [OF r(1)] h(1) True by auto
      have new: "?P s [?new]" using True None by simp
      have c: "?P (put_sort_queue q s) = ?P s" using h(2) by (simp add: held_view_def fun_eq_iff)
      from a [unfolded c] obtain new where "length rs' \<le> RETRANSMIT_ENTRIES_MAX" "rs' = rs1 @ new" "?P s new" by blast
      then show ?thesis using r(2) new by (elim disjE) (fastforce intro: exI [of _ "?new # new"])+
    next
      case False
      then have "request_loop n (seq + 1) rs s = Inr (rs', s')" using Suc.prems(1) True inuse by simp
      then show ?thesis using Suc.IH Suc.prems(2,3) by blast
    qed
  next
    case False
    then have "rs' = rs" using Suc.prems(1) by (auto split: if_splits)
    then show ?thesis using Suc.prems(3) by simp
  qed
qed simp

definition hold_of where
  "hold_of s = (ring_sort_queue s, my_ring_id s)"

lemma hold_of_emit [simp]: "hold_of (emit e s) = hold_of s"
  by (simp add: hold_of_def ring_sort_queue_def)

lemma remcast_held: "orf_token_remcast s seq = Inr (b, s') \<Longrightarrow> hold_of s' = hold_of s"
  by (auto simp: orf_token_remcast_def bindE_eq_Inr split: if_splits option.splits)

lemma rtr_loop_held: "rtr_loop n rs s = Inr (rs', k, s') \<Longrightarrow> hold_of s' = hold_of s"
  by (induction n rs s arbitrary: rs' k s' rule: rtr_loop.induct)
     (fastforce simp: bindE_eq_Inr split: if_splits dest: remcast_held)+

lemma rtr_loop_subset: "rtr_loop n rs s = Inr (rs', k, s') \<Longrightarrow> set rs' \<subseteq> set rs"
proof (induction rs arbitrary: n s rs' k)
  case (Cons r rs)
  show ?case
  proof (cases n)
    case (Suc m)
    then obtain n1 s1 rs1 k1 where "rtr_loop n1 rs s1 = Inr (rs1, k1, s')" "rs' = rs1 \<or> rs' = r # rs1"
      using Cons.prems by (auto simp: bindE_eq_Inr split: if_splits)
    then show ?thesis using Cons.IH by fastforce
  qed (use Cons.prems in simp)
qed simp

text \<open>(C12) The retransmit list of the token: what a processor leaves on it never exceeds the room of
  the message, and it asks only for messages of its ring that are in its window and that it lacks;
  every other request was on the list before.\<close>

theorem retransmit_requests:
  assumes e: "orf_token_rtr t a s = Inr (k, a', t', s')" and t: "rtr_ok t" and inv: "sq_inv (ring_sort_queue s)"
  shows "rtr_ok t' \<and> (\<forall>r \<in> set (rtr_list t'). r \<in> set (rtr_list t) \<or>
    rtr_ring_id r = my_ring_id s \<and> sq_in_range (ring_sort_queue s) (rtr_seq r) \<and>
    sq_abs (ring_sort_queue s) (rtr_seq r) = None)"
proof -
  obtain rs j s1 rs' where
    r: "rtr_loop (unat a) (take (unat (rtr_list_entries t)) (rtr_list t)) s = Inr (rs, j, s1)"
      "request_loop (unat (tok_seq t - my_aru s1)) (my_aru s1 + 1) rs
         (s1\<lparr>fcc_remcast_current := of_nat j\<rparr>) = Inr (rs', s')"
    and t': "t' = t\<lparr>rtr_list_entries := of_nat (length rs'), rtr_list := rs'\<rparr>"
    using e by (auto simp: orf_token_rtr_def Let_def bindE_eq_Inr split: if_splits)
  let ?u = "s1\<lparr>fcc_remcast_current := of_nat j\<rparr>"
  have "hold_of ?u = hold_of s1" by (simp add: hold_of_def ring_sort_queue_def)
  then have q: "ring_sort_queue ?u = ring_sort_queue s" "my_ring_id ?u = my_ring_id s"
    using rtr_loop_held [OF r(1)] by (simp_all add: hold_of_def)
  have sub: "set rs \<subseteq> set (rtr_list t)" using rtr_loop_subset [OF r(1)] by (meson order_trans set_take_subset)
  have "length rs \<le> RETRANSMIT_ENTRIES_MAX" using rtr_loop_count [OF r(1)] t by (auto simp: rtr_ok_def)
  from request_loop_requests [OF r(2) _ this] obtain new where n: "length rs' \<le> RETRANSMIT_ENTRIES_MAX" "rs' = rs @ new"
    "list_all (\<lambda>r. rtr_ring_id r = my_ring_id s \<and> sq_in_range (ring_sort_queue s) (rtr_seq r) \<and>
       sq_abs (ring_sort_queue s) (rtr_seq r) = None) new"
    using inv unfolding q by blast
  then show ?thesis using sub by (auto simp: t' rtr_ok_def list_all_iff)
qed


text \<open>Nothing is missing up to the number on the token: a foreign request stays.\<close>

theorem retransmit_requests_witness:
  "\<exists>k a' t' s'. orf_token_rtr (demo_token\<lparr>rtr_list_entries := 1, rtr_list := [\<lparr>rtr_ring_id = null_ring_id, rtr_seq = 9\<rparr>]\<rparr>) 17
      (demo_node 1) = Inr (k, a', t', s') \<and> rtr_ok t'"
proof -
  let ?t = "demo_token\<lparr>rtr_list_entries := 1, rtr_list := [\<lparr>rtr_ring_id = null_ring_id, rtr_seq = 9\<rparr>]\<rparr>"
  have "rtr_loop 17 [\<lparr>rtr_ring_id = null_ring_id, rtr_seq = 9\<rparr>] (demo_node 1) =
      Inr ([\<lparr>rtr_ring_id = null_ring_id, rtr_seq = 9\<rparr>], 0, demo_node 1)"
    by (simp add: numeral_eq_Suc null_ring_id_def demo_ring_def)
  then obtain k a' t' s' where e: "orf_token_rtr ?t 17 (demo_node 1) = Inr (k, a', t', s')"
    using demo_ready [of 1] by (simp add: orf_token_rtr_def ready_def demo_token_def assertE_def QUEUE_RTR_ITEMS_SIZE_MAX_def)
  moreover have "rtr_ok ?t" by (simp add: rtr_ok_def RETRANSMIT_ENTRIES_MAX_def)
  moreover have "sq_inv (ring_sort_queue (demo_node 1))"
    using demo_ready [of 1] by (simp add: ready_def ring_sort_queue_def)
  ultimately show ?thesis using retransmit_requests [OF e] by blast
qed

section \<open>Release of messages\<close>

lemma unat_next:
  fixes t c :: u32
  assumes "n < 2 ^ 32 - 1"
  shows "unat (t - c) < Suc n \<longleftrightarrow> t = c \<or> unat (t - (c + 1)) < n"
proof -
  define x where "x = t - c"
  have e: "t - (c + 1) = x - 1" by (simp add: x_def)
  have "unat (x - 1) = (if x = 0 then 2 ^ 32 - 1 else unat x - 1)"
    by (cases "x = 0") (simp_all add: unat_minus_one unsigned_minus_1_eq_mask mask_eq_exp_minus_1)
  moreover have "x = 0 \<longleftrightarrow> t = c" by (auto simp: x_def)
  moreover have "x \<noteq> 0 \<Longrightarrow> 0 < unat x" by (simp add: unat_gt_0)
  ultimately show ?thesis using assms unfolding e x_def [symmetric] by auto
qed

lemma free_loop_ok:
  "sq_inv (regular_sort_queue s) \<Longrightarrow> sq_head_seqid (regular_sort_queue s) = c \<Longrightarrow> n < 2 ^ 32 \<Longrightarrow>
   \<exists>q es. free_loop n c s = Inr (s\<lparr>effects := es @ effects s, regular_sort_queue := q\<rparr>) \<and> sq_inv q \<and>
     sq_head_seqid q = c + of_nat n \<and> sq_len q = sq_len (regular_sort_queue s) \<and>
     sq_abs q = (\<lambda>t. if unat (t - c) < n then None else sq_abs (regular_sort_queue s) t) \<and>
     (\<forall>e \<in> set es. \<exists>t item. e = Buffer_release (mi_mcast item) \<and> unat (t - c) < n \<and>
        sq_abs (regular_sort_queue s) t = Some item)"
proof (induction n arbitrary: s c)
  case 0
  then show ?case by (intro exI [of _ "regular_sort_queue s"] exI [of _ "[]"]) simp
next
  case (Suc n)
  let ?q = "regular_sort_queue s"
  have off: "sq_off ?q c < sq_len ?q"
    using Suc.prems(1,2) sq_invD(1) [OF Suc.prems(1)] by (simp add: sq_off_def)
  have zero: "sq_off ?q t \<le> sq_off ?q c \<longleftrightarrow> t = c" for t
    using Suc.prems(2) by (auto simp: sq_off_def unat_eq_0)
  obtain q1 where q1: "sq_items_release ?q c = Inr q1" "sq_inv q1" "sq_head_seqid q1 = c + 1" "sq_len q1 = sq_len ?q"
      "sq_abs q1 = (\<lambda>t. if t = c then None else sq_abs ?q t)"
    using sq_items_release_ok [OF Suc.prems(1) off] unfolding zero by blast
  define es1 where "es1 = (case sq_abs ?q c of None \<Rightarrow> [] | Some item \<Rightarrow> [Buffer_release (mi_mcast item)])"
  let ?s1 = "s\<lparr>effects := es1 @ effects s, regular_sort_queue := q1\<rparr>"
  have step: "free_loop (Suc n) c s = free_loop n (c + 1) ?s1"
    using sq_item_get_ok [OF Suc.prems(1) off] q1(1)
    by (simp add: es1_def emit_def split: option.splits)
  have pre: "sq_inv (regular_sort_queue ?s1)" "sq_head_seqid (regular_sort_queue ?s1) = c + 1" "n < 2 ^ 32"
    using q1 Suc.prems(3) by simp_all
  have r1: "regular_sort_queue ?s1 = q1" by simp
  obtain q es where IH: "free_loop n (c + 1) ?s1 = Inr (?s1\<lparr>effects := es @ effects ?s1, regular_sort_queue := q\<rparr>)" "sq_inv q"
      "sq_head_seqid q = c + 1 + of_nat n" "sq_len q = sq_len q1"
      "sq_abs q = (\<lambda>t. if unat (t - (c + 1)) < n then None else sq_abs q1 t)"
      "\<forall>e \<in> set es. \<exists>t item. e = Buffer_release (mi_mcast item) \<and> unat (t - (c + 1)) < n \<and> sq_abs q1 t = Some item"
    using Suc.IH [OF pre] unfolding r1 by blast
  have n: "unat (t - c) < Suc n \<longleftrightarrow> t = c \<or> unat (t - (c + 1)) < n" for t
    using Suc.prems(3) by (intro unat_next) simp
  have "sq_abs q = (\<lambda>t. if unat (t - c) < Suc n then None else sq_abs ?q t)"
    unfolding IH(5) q1(5) n by auto
  moreover have "\<forall>e \<in> set (es @ es1). \<exists>t item. e = Buffer_release (mi_mcast item) \<and> unat (t - c) < Suc n \<and> sq_abs ?q t = Some item"
  proof
    fix e assume "e \<in> set (es @ es1)"
    then consider "e \<in> set es" | item where "sq_abs ?q c = Some item" "e = Buffer_release (mi_mcast item)"
      by (cases "sq_abs ?q c") (auto simp: es1_def)
    then show "\<exists>t item. e = Buffer_release (mi_mcast item) \<and> unat (t - c) < Suc n \<and> sq_abs ?q t = Some item"
    proof cases
      case 1
      then obtain t item where "e = Buffer_release (mi_mcast item)" "unat (t - (c + 1)) < n" "sq_abs q1 t = Some item"
        using IH(6) by blast
      moreover from this have "sq_abs ?q t = Some item" by (simp add: q1(5) split: if_splits)
      ultimately show ?thesis unfolding n by blast
    next
      case 2
      then show ?thesis unfolding n by blast
    qed
  qed
  ultimately show ?case
    unfolding step IH(1) using IH(2-4) q1(4)
    by (intro exI [of _ q] exI [of _ "es @ es1"]) (simp add: algebra_simps)
qed


lemma compare_dist:
  fixes b :: u32
  assumes "i < 0x4000" "j < 0x4000"
  shows "sq_lt_compare (b + of_nat i) (b + of_nat j) \<longleftrightarrow> i < j"
proof -
  have near: "unat ((b + of_nat m) - (b + of_nat n)) = m - n" if "n \<le> m" "m < 0x4000" for m n
  proof -
    have e: "(b + of_nat m) - (b + of_nat n) = (of_nat (m - n) :: u32)" using that by (simp add: of_nat_diff)
    show ?thesis unfolding e by (rule unat_of_nat_u32) (use that in simp)
  qed
  have inj: "m = n" if "b + of_nat m = b + of_nat n" "m < 0x4000" "n < 0x4000" for m n
  proof -
    have "unat (of_nat m :: u32) = unat (of_nat n :: u32)" using that(1) by simp
    moreover have "unat (of_nat m :: u32) = m" "unat (of_nat n :: u32) = n"
      by (rule unat_of_nat_u32, use that in simp)+
    ultimately show ?thesis by simp
  qed
  show ?thesis
  proof (cases "i \<le> j")
    case True
    have "sq_lt_compare (b + of_nat i) (b + of_nat j) \<longleftrightarrow> b + of_nat i \<noteq> b + of_nat j"
      by (rule sq_compare_near(1)) (use near [OF True assms(2)] assms in simp)
    then show ?thesis using inj [OF _ assms] True by (metis le_neq_implies_less nat_less_le)
  next
    case False
    have "\<not> sq_lt_compare (b + of_nat i) (b + of_nat j)"
      by (rule sq_compare_near(3)) (use near [of j i] assms False in simp)
    then show ?thesis using False by simp
  qed
qed


text \<open>(C11) Releasing messages: let the last released message, the last delivered one and the two
  all-received-up-to numbers of the token, now and on the last rotation, lie within one window.
  Releasing never aborts; it advances to the least of the three numbers, so that nothing undelivered
  and nothing another processor may lack is released, and every later message stays available.\<close>

theorem messages_free_safe:
  assumes "sq_good (regular_sort_queue s)" "sq_head_seqid (regular_sort_queue s) = last_released s + 1"
    and "my_high_delivered s = last_released s + of_nat d" "my_last_aru s = last_released s + of_nat l"
      "ar = last_released s + of_nat a" "d < 0x4000" "l < 0x4000" "a < 0x4000"
  shows "\<exists>s' es. messages_free ar s = Inr s' \<and> effects s' = es @ effects s \<and>
    last_released s' = last_released s + of_nat (min a (min l d)) \<and>
    sq_good (regular_sort_queue s') \<and> sq_head_seqid (regular_sort_queue s') = last_released s' + 1 \<and>
    (\<forall>k. k < 0x4000 \<longrightarrow> sq_abs (regular_sort_queue s') (last_released s + 1 + of_nat k) =
       (if k < min a (min l d) then None else sq_abs (regular_sort_queue s) (last_released s + 1 + of_nat k))) \<and>
    (\<forall>e \<in> set es. \<exists>k item. k < min a (min l d) \<and> e = Buffer_release (mi_mcast item) \<and>
       sq_abs (regular_sort_queue s) (last_released s + 1 + of_nat k) = Some item)"
proof -
  let ?b = "last_released s" and ?r = "min a (min l d)" and ?q = "regular_sort_queue s"
  have rp: "release_point s ar = ?b + of_nat ?r"
    using assms(3-8) by (simp add: release_point_def Let_def compare_dist min_def)
  have r: "?r < 0x4000" using assms(6) by simp
  then have nlt: "\<not> sq_lt_compare (?b + of_nat ?r) ?b" using compare_dist [of ?r 0 ?b] by simp
  have u: "unat (?b + of_nat ?r - ?b :: u32) = ?r" using r by (simp add: unat_of_nat_u32 del: of_nat_min)
  obtain q es where q: "free_loop ?r (?b + 1) s = Inr (s\<lparr>effects := es @ effects s, regular_sort_queue := q\<rparr>)" "sq_inv q"
      "sq_head_seqid q = ?b + 1 + of_nat ?r" "sq_len q = sq_len ?q"
      "sq_abs q = (\<lambda>t. if unat (t - (?b + 1)) < ?r then None else sq_abs ?q t)"
      "\<forall>e \<in> set es. \<exists>t item. e = Buffer_release (mi_mcast item) \<and> unat (t - (?b + 1)) < ?r \<and> sq_abs ?q t = Some item"
    using free_loop_ok [of s "?b + 1" ?r] assms(1,2) r by (auto simp: sq_good_def)
  let ?s = "s\<lparr>effects := es @ effects s, regular_sort_queue := q, last_released := ?b + of_nat ?r\<rparr>"
  have e: "messages_free ar s = Inr ?s"
    using nlt u r q(1) by (simp add: messages_free_def Let_def rp assertE_def QUEUE_RTR_ITEMS_SIZE_MAX_def del: of_nat_min min_less_iff_conj)
  have k: "unat (?b + 1 + of_nat k - (?b + 1) :: u32) = k" if "k < 0x4000" for k
    using that by (simp add: unat_of_nat_u32)
  show ?thesis
  proof (intro exI [of _ ?s] exI [of _ es] conjI allI impI ballI)
    show "sq_good (regular_sort_queue ?s)" using q(2,4) assms(1) by (simp add: sq_good_def)
    show "sq_head_seqid (regular_sort_queue ?s) = last_released ?s + 1" using q(3) by (simp add: algebra_simps)
    show "sq_abs (regular_sort_queue ?s) (?b + 1 + of_nat k) =
        (if k < ?r then None else sq_abs ?q (?b + 1 + of_nat k))" if "k < 0x4000" for k
    proof -
      have "regular_sort_queue ?s = q" by simp
      then show ?thesis unfolding q(5) by (simp only: q(5) k [OF that])
    qed
    show "\<exists>k item. k < ?r \<and> e = Buffer_release (mi_mcast item) \<and> sq_abs ?q (?b + 1 + of_nat k) = Some item"
      if e_in: "e \<in> set es" for e
    proof -
      obtain t item where "e = Buffer_release (mi_mcast item)" "unat (t - (?b + 1)) < ?r" "sq_abs ?q t = Some item"
        using bspec [OF q(6) e_in] by blast
      moreover have "?b + 1 + of_nat (unat (t - (?b + 1))) = t" by simp
      ultimately show ?thesis by metis
    qed
  qed (simp_all add: e)
qed


theorem messages_free_safe_witness:
  "\<exists>s'. messages_free 5 (demo_node 1\<lparr>my_high_delivered := 3, my_last_aru := 2\<rparr>) = Inr s' \<and> last_released s' = 2 \<and>
     sq_head_seqid (regular_sort_queue s') = 3"
proof -
  let ?s = "demo_node 1\<lparr>my_high_delivered := 3, my_last_aru := 2\<rparr>"
  have "last_released ?s = 0" by (simp add: demo_node_def totemsrp_instance_initialize_def)
  moreover have "sq_good (regular_sort_queue ?s)" "sq_head_seqid (regular_sort_queue ?s) = 1"
    using demo_ready [of 1] by (simp_all add: ready_def sq_good_def)
  ultimately show ?thesis using messages_free_safe [of ?s 3 2 5 5] by auto
qed

end
