(* ===== verification/Srp_Endian.thy ===== *)
theory Srp_Endian
  imports Srp_Delivery
begin

text \<open>
  Clusters of mixed byte order: a ring message from a processor of the other byte order has the
  effect of the message that was sent.
\<close>

text \<open>What a processor of the other byte order finds in its receive buffer.\<close>

definition msg_seen :: "srp_msg \<Rightarrow> srp_msg" where
  "msg_seen msg =
     (case msg of
        Orf_token t \<Rightarrow> Orf_token (orf_token_seen t)
      | Commit_token t \<Rightarrow> Commit_token (commit_token_seen t)
      | Multicast m \<Rightarrow>
          Multicast (case m of
            Mcast_msg m \<Rightarrow> Mcast_msg (mcast_seen m)
          | Merge_detect m \<Rightarrow> Merge_detect (merge_detect_seen m)
          | Join m \<Rightarrow> Join (memb_join_seen m)
          | Hold_cancel m \<Rightarrow> Hold_cancel m)
      | Unknown_type h \<Rightarrow> Unknown_type (header_seen h))"

text \<open>
  The tokens and membership messages of this protocol: the header as it is written, as many
  retransmit requests as the token says, and a commit token whose entries are all set.
\<close>

definition sent_header :: "totem_message_header \<Rightarrow> bool" where
  "sent_header h \<longleftrightarrow> header_ok h \<and> target_nodeid h = 0"

definition sent_msg :: "memb_commit_token_memb_entry list \<Rightarrow> srp_msg \<Rightarrow> bool" where
  "sent_msg stack msg =
     (case msg of
        Orf_token t \<Rightarrow> sent_header (tok_header t) \<and> rtr_ok t
      | Commit_token t \<Rightarrow> sent_header (ct_header t) \<and> length stack = length (memb_list t) \<and>
          list_all (\<lambda>e. rep (me_ring_id e) \<noteq> 0) (memb_list t)
      | Multicast (Merge_detect m) \<Rightarrow> sent_header (md_header m)
      | Multicast (Join m) \<Rightarrow> sent_header (mj_header m)
      | _ \<Rightarrow> False)"

lemma swab32_zero [simp]: "swab32 0 = 0"
  by (simp add: swab32_def)

lemma swab32_eq_0 [simp]: "swab32 x = 0 \<longleftrightarrow> x = 0"
  by (metis swab32_swab32 swab32_zero)

lemma sent_header_convert: "sent_header h \<Longrightarrow> header_endian_convert (header_seen h) = h"
  by (simp add: sent_header_def header_convert_seen)

lemma sent_header_valid:
  "sent_header h \<Longrightarrow> check_message_header_validity (header_seen h) n = check_message_header_validity h n"
  by (simp add: sent_header_def header_ok_def header_seen_def check_message_header_validity_def)

lemma sent_header_magic:
  "sent_header h \<Longrightarrow> magic (header_seen h) \<noteq> TOTEM_MH_MAGIC" "sent_header h \<Longrightarrow> magic h = TOTEM_MH_MAGIC"
  by (simp_all add: sent_header_def header_ok_def header_seen_def TOTEM_MH_MAGIC_def swab16_def)

lemma orf_token_convert_seen: "sent_header (tok_header t) \<Longrightarrow> rtr_ok t \<Longrightarrow> orf_token_endian_convert (orf_token_seen t) = t"
  by (simp add: orf_token_endian_convert_def orf_token_seen_def sent_header_convert rtr_ok_entries map_idI o_def)

lemma commit_convert_seen:
  assumes "sent_header (ct_header t)" "length stack = length (memb_list t)"
    "list_all (\<lambda>e. rep (me_ring_id e) \<noteq> 0) (memb_list t)"
  shows "memb_commit_token_endian_convert stack (commit_token_seen t) = t"
proof -
  have "map2 (\<lambda>out e. if rep (me_ring_id e) \<noteq> 0 then memb_entry_endian_convert e else out)
      stack (map memb_entry_endian_convert (memb_list t)) = memb_list t"
  proof (rule nth_equalityI)
    fix i assume "i < length (map2 (\<lambda>out e. if rep (me_ring_id e) \<noteq> 0 then memb_entry_endian_convert e else out)
      stack (map memb_entry_endian_convert (memb_list t)))"
    then have i: "i < length (memb_list t)" by simp
    then have "rep (me_ring_id (memb_list t ! i)) \<noteq> 0" using assms(3) by (simp add: list_all_length)
    then have "rep (me_ring_id (memb_entry_endian_convert (memb_list t ! i))) \<noteq> 0"
      by (simp add: memb_entry_endian_convert_def ring_id_endian_convert_def swab32_eq_0)
    then show "map2 (\<lambda>out e. if rep (me_ring_id e) \<noteq> 0 then memb_entry_endian_convert e else out)
      stack (map memb_entry_endian_convert (memb_list t)) ! i = memb_list t ! i"
      using i assms(2) by simp
  qed (simp add: assms(2))
  then show ?thesis
    by (simp add: memb_commit_token_endian_convert_def commit_token_seen_def sent_header_convert assms(1) map_idI o_def)
qed

lemma join_convert_seen: "sent_header (mj_header m) \<Longrightarrow> memb_join_endian_convert (memb_join_seen m) = m"
  by (simp add: memb_join_endian_convert_def memb_join_seen_def sent_header_convert map_idI o_def)

lemma merge_convert_seen: "sent_header (md_header m) \<Longrightarrow> memb_merge_detect_endian_convert (merge_detect_seen m) = m"
  by (simp add: memb_merge_detect_endian_convert_def merge_detect_seen_def sent_header_convert)


lemma counts_seen [simp]:
  "length (proc_list (memb_join_seen m)) = length (proc_list m)"
  "length (failed_list (memb_join_seen m)) = length (failed_list m)"
  "length (ct_addr (commit_token_seen t)) = length (ct_addr t)"
  "mj_header (memb_join_seen m) = header_seen (mj_header m)"
  "ct_header (commit_token_seen t) = header_seen (ct_header t)"
  "tok_header (orf_token_seen k) = header_seen (tok_header k)"
  "md_header (merge_detect_seen d) = header_seen (md_header d)"
  "rtr_list_entries (orf_token_seen k) = swab32 (rtr_list_entries k)"
  by (simp_all add: memb_join_seen_def commit_token_seen_def orf_token_seen_def merge_detect_seen_def)

lemma sanity_seen:
  "check_memb_join_sanity (wire_count True p) (wire_count True f) n True =
     check_memb_join_sanity (wire_count False p) (wire_count False f) n False"
  "check_memb_commit_token_sanity (wire_count True p) n True = check_memb_commit_token_sanity (wire_count False p) n False"
  "check_orf_token_sanity (orf_token_seen t) n m True = check_orf_token_sanity t n m False"
  by (simp_all add: check_memb_join_sanity_def check_memb_commit_token_sanity_def check_orf_token_sanity_def
      wire_count_def)


definition demo_join :: memb_join where
  "demo_join =
     \<lparr>mj_header = totemsrp_header (demo_node 2) MESSAGE_TYPE_MEMB_JOIN 0, mj_system_from = Srp_addr 2,
      mj_ring_seq = 4, proc_list = [Srp_addr 2, Srp_addr 3], failed_list = []\<rparr>"


end
