(* ===== verification/Srp_Election.thy ===== *)
theory Srp_Election
  imports Srp_Reach Srp_Endian
begin

text \<open>
  Forming a ring: the choice of the representative, and the way from the join messages to the
  commit state.
\<close>

section \<open>The representative\<close>

lemma lowest_nodeid_Min: "lowest_nodeid l as = Min (insert l (nodeid ` set as))"
proof (induction as arbitrary: l)
  case (Cons a as)
  then show ?case
    by (cases "as = []") (auto simp: min_def insert_commute Min_insert2 not_less)
qed simp

lemma lowest_in_config:
  assumes "memb_set_subtract (my_proc_list s) (my_failed_list s) \<noteq> []"
  shows "memb_lowest_in_config s =
    Inr (Min (nodeid ` (set (my_proc_list s) - set (my_failed_list s))) = nodeid (my_id s))"
proof -
  obtain a as where l: "memb_set_subtract (my_proc_list s) (my_failed_list s) = a # as"
    using assms by (cases "memb_set_subtract (my_proc_list s) (my_failed_list s)") auto
  have "set (a # as) = set (my_proc_list s) - set (my_failed_list s)"
    unfolding l [symmetric] by simp
  then have "nodeid ` (set (my_proc_list s) - set (my_failed_list s)) = insert (nodeid a) (nodeid ` set as)"
    by (metis image_insert list.simps(15))
  then show ?thesis by (simp add: memb_lowest_in_config_def l lowest_nodeid_Min)
qed

text \<open>(C8) Agreement on the representative: when the members of a future ring have come to the same
  membership, none of them aborts, and exactly one of them, the one with the lowest node identifier,
  takes itself for the representative that creates the commit token.\<close>

theorem unique_representative:
  assumes "M \<noteq> {}" "\<forall>a \<in> M. my_id (st a) = a \<and> set (my_proc_list (st a)) - set (my_failed_list (st a)) = M"
  shows "(\<forall>a \<in> M. \<exists>b. memb_lowest_in_config (st a) = Inr b) \<and>
    (\<exists>!a. a \<in> M \<and> memb_lowest_in_config (st a) = Inr True) \<and>
    (\<forall>a \<in> M. memb_lowest_in_config (st a) = Inr True \<longrightarrow> (\<forall>c \<in> M. nodeid a \<le> nodeid c))"
proof -
  have fin: "finite M" using assms by (metis all_not_in_conv finite_Diff finite_set)
  have low: "memb_lowest_in_config (st a) = Inr (Min (nodeid ` M) = nodeid a)" if a: "a \<in> M" for a
  proof -
    have "set (memb_set_subtract (my_proc_list (st a)) (my_failed_list (st a))) = M" using assms(2) a by simp
    then have "memb_set_subtract (my_proc_list (st a)) (my_failed_list (st a)) \<noteq> []" using assms(1) by fastforce
    then show ?thesis using lowest_in_config [of "st a"] assms(2) a by simp
  qed
  have inj: "nodeid a = nodeid b \<Longrightarrow> a = b" for a b :: srp_addr by (cases a; cases b) simp
  have "Min (nodeid ` M) \<in> nodeid ` M" using fin assms(1) by simp
  then obtain a where a: "a \<in> M" "Min (nodeid ` M) = nodeid a" by auto
  have iff: "memb_lowest_in_config (st b) = Inr True \<longleftrightarrow> Min (nodeid ` M) = nodeid b" if "b \<in> M" for b
    by (simp add: low [OF that])
  have "\<exists>!a. a \<in> M \<and> memb_lowest_in_config (st a) = Inr True"
    by (rule ex1I [of _ a]) (use a iff inj in auto)
  moreover have "nodeid b \<le> nodeid c" if "b \<in> M" "memb_lowest_in_config (st b) = Inr True" "c \<in> M" for b c
  proof -
    have "Min (nodeid ` M) \<le> nodeid c" using fin that(3) by simp
    then show ?thesis using iff [OF that(1)] that(2) by simp
  qed
  ultimately show ?thesis using low by blast
qed

theorem unique_representative_witness:
  "\<exists>!a. a \<in> {Srp_addr 2, Srp_addr 3} \<and> memb_lowest_in_config
     (demo_node 9\<lparr>my_id := a, my_proc_list := [Srp_addr 3, Srp_addr 2, Srp_addr 5], my_failed_list := [Srp_addr 5]\<rparr>) = Inr True"
proof -
  let ?st = "\<lambda>a. demo_node 9\<lparr>my_id := a, my_proc_list := [Srp_addr 3, Srp_addr 2, Srp_addr 5],
      my_failed_list := [Srp_addr 5]\<rparr>"
  have "\<forall>a \<in> {Srp_addr 2, Srp_addr 3}. my_id (?st a) = a \<and>
      set (my_proc_list (?st a)) - set (my_failed_list (?st a)) = {Srp_addr 2, Srp_addr 3}" by auto
  then show ?thesis by (rule conjunct1 [OF conjunct2 [OF unique_representative [OF insert_not_empty]]])
qed

section \<open>From join messages to the commit state\<close>

lemma commit_enter_ok:
  assumes "nodeid (my_id s) \<noteq> 0" "ct_addr (commit_token s) \<noteq> []" "length (ct_addr (commit_token s)) \<le> PROCESSOR_COUNT_MAX"
    "memb_index (commit_token s) = 0" "length (memb_list (commit_token s)) = length (ct_addr (commit_token s))"
  shows "\<exists>s'. memb_state_commit_enter s = Inr s' \<and> memb_state s' = MEMB_STATE_COMMIT \<and>
    my_new_memb_list s' = ct_addr (commit_token s) \<and> my_ring_id s' = ct_ring_id (commit_token s) \<and> my_id s' = my_id s"
proof -
  let ?ct = "commit_token s" and ?s0 = "old_ring_state_save s"
  have s0: "commit_token ?s0 = ?ct" "my_id ?s0 = my_id s" by (simp_all add: old_ring_state_save_def)
  obtain s1 where s1: "memb_state_commit_token_update ?s0 = Inr s1" "my_new_memb_list s1 = ct_addr ?ct"
      "ct_addr (commit_token s1) = ct_addr ?ct" "memb_index (commit_token s1) = 1" "ct_ring_id (commit_token s1) = ct_ring_id ?ct"
      "my_id s1 = my_id s"
    using assms by (auto simp: memb_state_commit_token_update_def Let_def s0 assertE_def Suc_le_eq)
  have "nat (1 mod int (length (ct_addr ?ct))) < length (ct_addr ?ct)"
    using assms(2) pos_mod_bound [of "int (length (ct_addr ?ct))" 1] by (simp add: nat_less_iff)
  then obtain a where "array_get (ct_addr ?ct) (1 mod int (length (ct_addr ?ct))) = Inr a"
    using assms(2) pos_mod_sign [of "int (length (ct_addr ?ct))" 1] by (simp add: array_get_def)
  then obtain s2 where s2: "memb_state_commit_token_target_set s1 = Inr s2" "my_new_memb_list s2 = ct_addr ?ct"
      "ct_ring_id (commit_token s2) = ct_ring_id ?ct" "my_id s2 = my_id s"
    using s1 assms(2) by (simp add: memb_state_commit_token_target_set_def Let_def target_set_completed_def
        memb_state_commit_token_send_def memb_state_commit_token_send_recovery_def commit_token_out_def
        reset_token_retransmit_timeout_def reset_timer_def)
  then show ?thesis using s1(1)
    by (simp add: memb_state_commit_enter_def Let_def memb_ring_id_set_def reset_token_retransmit_timeout_def
        reset_token_timeout_def reset_token_warning_def reset_timer_def)
qed

lemma commit_create_ok:
  assumes "nodeid (my_id s) \<noteq> 0" "memb_set_subtract (my_proc_list s) (my_failed_list s) \<noteq> []" "memb_set (my_proc_list s)"
  shows "\<exists>s'. bindE (memb_state_commit_token_create s) memb_state_commit_enter = Inr s' \<and>
    memb_state s' = MEMB_STATE_COMMIT \<and>
    my_new_memb_list s' = sort (memb_set_subtract (my_proc_list s) (my_failed_list s)) \<and>
    my_ring_id s' = \<lparr>rep = nodeid (my_id s), ring_seq = token_ring_id_seq s + 4\<rparr>"
proof -
  let ?m = "sort (memb_set_subtract (my_proc_list s) (my_failed_list s))"
  let ?s = "s\<lparr>commit_token :=
               \<lparr>ct_header = totemsrp_header s MESSAGE_TYPE_MEMB_COMMIT_TOKEN 0, ct_token_seq = 0,
                ct_ring_id = \<lparr>rep = nodeid (my_id s), ring_seq = token_ring_id_seq s + 4\<rparr>,
                ct_retrans_flg = 0, memb_index = 0, ct_addr = ?m,
                memb_list = replicate (length ?m) zero_memb_entry\<rparr>\<rparr>"
  have "memb_set ?m" using subtract_memb_set [OF assms(3)] by simp
  then have l: "length ?m \<le> PROCESSOR_COUNT_MAX" by (simp add: memb_set_def)
  have "?m \<noteq> []" using assms(2) by (metis set_empty set_sort)
  then obtain s' where "memb_state_commit_enter ?s = Inr s'" "memb_state s' = MEMB_STATE_COMMIT"
      "my_new_memb_list s' = ?m" "my_ring_id s' = \<lparr>rep = nodeid (my_id s), ring_seq = token_ring_id_seq s + 4\<rparr>"
    using commit_enter_ok [of ?s] assms(1) l by auto
  then show ?thesis using assms(1) by (simp add: memb_state_commit_token_create_def Let_def assertE_def)
qed


text \<open>The members a processor agrees to, and a processor that gathers and has heard from \<open>C\<close>.\<close>

definition members :: "totemsrp_instance \<Rightarrow> srp_addr set" where
  "members s = set (my_proc_list s) - set (my_failed_list s)"

definition gathering :: "srp_env \<Rightarrow> srp_addr set \<Rightarrow> totemsrp_instance \<Rightarrow> bool" where
  "gathering env C s \<longleftrightarrow>
     srp_inv s \<and> memb_state s = MEMB_STATE_GATHER \<and> \<not> flushing s \<and> \<not> failed_to_recv s \<and>
     pause_flush env s = 0 \<and> my_id s \<in> members s \<and> C \<subseteq> members s \<and>
     list_all ci_set (consensus_list s) \<and> ci_addr ` set (consensus_list s) = C"

text \<open>The join message of a processor that has come to the same lists.\<close>

definition agreeing :: "totemsrp_instance \<Rightarrow> memb_join \<times> nat \<Rightarrow> bool" where
  "agreeing s p = (case p of (m, n) \<Rightarrow>
     sent_header (mj_header m) \<and> hdr_nodeid (mj_header m) \<noteq> LEAVE_DUMMY_NODEID \<and>
     memb_set (proc_list m) \<and> memb_set (failed_list m) \<and> join_len (proc_list m) (failed_list m) \<le> n \<and>
     set (proc_list m) = set (my_proc_list s) \<and> set (failed_list m) = set (my_failed_list s) \<and>
     mj_system_from m \<in> members s)"

lemma agreeing_sanity:
  assumes "agreeing s (m, n)"
  shows "check_memb_join_sanity (wire_count False (length (proc_list m))) (wire_count False (length (failed_list m))) n False"
    "check_message_header_validity (mj_header m) n"
proof -
  have l: "length (proc_list m) \<le> 384" "length (failed_list m) \<le> 384" "join_len (proc_list m) (failed_list m) \<le> n"
    using assms by (auto simp: agreeing_def memb_set_def PROCESSOR_COUNT_MAX_def)
  then have "unat (of_nat (length (proc_list m)) :: u32) = length (proc_list m)"
      "unat (of_nat (length (failed_list m)) :: u32) = length (failed_list m)" by (simp_all add: unat_of_nat_u32)
  then show "check_memb_join_sanity (wire_count False (length (proc_list m))) (wire_count False (length (failed_list m))) n False"
    using l by (simp add: check_memb_join_sanity_def wire_count_def join_len_def PROCESSOR_COUNT_MAX_def)
  show "check_message_header_validity (mj_header m) n"
    using assms l(3) by (simp add: agreeing_def check_message_header_validity_def sent_header_def header_ok_def
        join_len_def sizeof_defs)
qed

lemma isset_list_all: "list_all ci_set cs \<Longrightarrow> consensus_isset_list a cs \<longleftrightarrow> a \<in> ci_addr ` set cs"
  by (induction cs) auto

lemma consensus_set_list_add:
  "list_all ci_set cs \<Longrightarrow> i + length cs < PROCESSOR_COUNT_MAX \<or> a \<in> ci_addr ` set cs \<Longrightarrow>
   \<exists>cs'. consensus_set_list a i cs = Inr cs' \<and> list_all ci_set cs' \<and> ci_addr ` set cs' = insert a (ci_addr ` set cs)"
proof (induction cs arbitrary: i)
  case (Cons c cs)
  show ?case
  proof (cases "a = ci_addr c")
    case False
    then obtain cs' where "consensus_set_list a (Suc i) cs = Inr cs'" "list_all ci_set cs'"
        "ci_addr ` set cs' = insert a (ci_addr ` set cs)"
      using Cons.IH [of "Suc i"] Cons.prems by auto
    then show ?thesis using False Cons.prems(1) by (simp add: insert_commute)
  qed (use Cons.prems in simp)
qed simp

lemma agreed_members:
  assumes "gathering env C s"
  shows "memb_consensus_agreed s = Inr (members s \<subseteq> C)"
proof -
  have "memb_set_subtract (my_proc_list s) (my_failed_list s) \<noteq> []"
    using assms unfolding gathering_def members_def by (metis empty_iff set_memb_set_subtract set_empty)
  then show ?thesis
    using assms isset_list_all [of "consensus_list s"]
    by (auto simp: memb_consensus_agreed_def Let_def gathering_def members_def assertE_def memb_consensus_isset_def
        list_all_iff Suc_le_eq)
qed


lemma consensus_add:
  assumes g: "gathering env C s" and a: "a \<in> members s"
  shows "\<exists>cs. memb_consensus_set a s = Inr (s\<lparr>consensus_list := cs\<rparr>) \<and> gathering env (insert a C) (s\<lparr>consensus_list := cs\<rparr>)"
proof -
  have d: "distinct (map ci_addr (consensus_list s))" "memb_set (my_proc_list s)" "list_all ci_set (consensus_list s)"
    and C: "ci_addr ` set (consensus_list s) = C" "C \<subseteq> members s"
    using g by (simp_all add: gathering_def srp_inv_def lists_inv_def)
  have "length (consensus_list s) < PROCESSOR_COUNT_MAX" if "a \<notin> C"
  proof -
    have "length (consensus_list s) = card C" using distinct_card [OF d(1)] C(1) by simp
    also have "\<dots> < card (members s)" using that a C(2) by (intro psubset_card_mono) (auto simp: members_def)
    also have "\<dots> \<le> card (set (my_proc_list s))" by (intro card_mono) (auto simp: members_def)
    also have "\<dots> \<le> PROCESSOR_COUNT_MAX" using d(2) by (simp add: memb_set_def distinct_card)
    finally show ?thesis .
  qed
  then obtain cs where cs: "consensus_set_list a 0 (consensus_list s) = Inr cs" "list_all ci_set cs" "ci_addr ` set cs = insert a C"
    using consensus_set_list_add [OF d(3), of 0 a] C(1) by auto
  then have e: "memb_consensus_set a s = Inr (s\<lparr>consensus_list := cs\<rparr>)" by (simp add: memb_consensus_set_def)
  moreover have "srp_inv (s\<lparr>consensus_list := cs\<rparr>)" using consensus_set_inv [OF e] g by (simp add: gathering_def)
  ultimately show ?thesis using g a cs by (intro exI [of _ cs]) (simp add: gathering_def members_def pause_flush_def)
qed

lemma gathering_view:
  assumes "gathering env C s" "srp_view t = srp_view s" "flushing t = flushing s" "failed_to_recv t = failed_to_recv s"
    "pause_timestamp t = pause_timestamp s" "totem_config t = totem_config s"
  shows "gathering env C t"
proof -
  have "consensus_list t = consensus_list s" "my_id t = my_id s" "my_proc_list t = my_proc_list s"
      "my_failed_list t = my_failed_list s" "memb_state t = memb_state s"
    using assms(2) by (simp_all add: srp_view_def)
  then show ?thesis using assms srp_inv_view [OF assms(2)] by (simp add: gathering_def members_def pause_flush_def)
qed

text \<open>One more agreeing processor: unless consensus is complete, the processor keeps gathering; when it
  is complete, the representative moves on to the commit state.\<close>

lemma join_agreed_step:
  assumes g: "gathering env C s" and a: "mj_system_from m \<in> members s" and l: "\<not> is_leave m"
  shows "\<exists>s'. join_agreed m s = Inr s' \<and>
    (if members s \<subseteq> insert (mj_system_from m) C \<and> Min (nodeid ` members s) = nodeid (my_id s)
     then memb_state s' = MEMB_STATE_COMMIT \<and> set (my_new_memb_list s') = members s \<and> rep (my_ring_id s') = nodeid (my_id s)
     else gathering env (insert (mj_system_from m) C) s' \<and> my_proc_list s' = my_proc_list s \<and>
       my_failed_list s' = my_failed_list s \<and> my_id s' = my_id s)"
proof -
  obtain cs where e: "memb_consensus_set (mj_system_from m) s = Inr (s\<lparr>consensus_list := cs\<rparr>)"
    and g1: "gathering env (insert (mj_system_from m) C) (s\<lparr>consensus_list := cs\<rparr>)"
    using consensus_add [OF g a] by blast
  let ?s = "s\<lparr>consensus_list := cs\<rparr>"
  have m: "members ?s = members s" by (simp add: members_def)
  have ag: "memb_consensus_agreed ?s = Inr (members s \<subseteq> insert (mj_system_from m) C)"
    using agreed_members [OF g1] m by simp
  have ne: "memb_set_subtract (my_proc_list s) (my_failed_list s) \<noteq> []"
    using a unfolding members_def by (metis empty_iff set_memb_set_subtract set_empty)
  have low: "memb_lowest_in_config ?s = Inr (Min (nodeid ` members s) = nodeid (my_id s))"
    using lowest_in_config [of ?s] ne by (simp add: members_def)
  have st: "memb_state s = MEMB_STATE_GATHER" "\<not> failed_to_recv s" "nodeid (my_id s) \<noteq> 0" "memb_set (my_proc_list s)"
    using g by (auto simp: gathering_def srp_inv_def gather_inv_def lists_inv_def)
  show ?thesis
  proof (cases "members s \<subseteq> insert (mj_system_from m) C \<and> Min (nodeid ` members s) = nodeid (my_id s)")
    case True
    obtain s' where "bindE (memb_state_commit_token_create ?s) memb_state_commit_enter = Inr s'"
        "memb_state s' = MEMB_STATE_COMMIT" "my_new_memb_list s' = sort (memb_set_subtract (my_proc_list s) (my_failed_list s))"
        "rep (my_ring_id s') = nodeid (my_id s)"
      using commit_create_ok [of ?s] st ne by auto
    then show ?thesis using True e ag low l st(2) by (simp add: join_agreed_def members_def)
  next
    case False
    then have "join_agreed m s = Inr ?s" using e ag low l st by (auto simp: join_agreed_def)
    then show ?thesis using False g1 by auto
  qed
qed


lemma join_step:
  assumes g: "gathering env C s" and m: "agreeing s (m, n)"
  shows "\<exists>s'. deliver_multicast env (Join m, n) s = Inr (0, s') \<and>
    (if members s \<subseteq> insert (mj_system_from m) C \<and> Min (nodeid ` members s) = nodeid (my_id s)
     then memb_state s' = MEMB_STATE_COMMIT \<and> set (my_new_memb_list s') = members s \<and> rep (my_ring_id s') = nodeid (my_id s)
     else gathering env (insert (mj_system_from m) C) s' \<and> my_proc_list s' = my_proc_list s \<and>
       my_failed_list s' = my_failed_list s \<and> my_id s' = my_id s)"
proof -
  define u where "u = (let t = emit (Stat ''memb_join_rx'') s in
      if token_ring_id_seq t < mj_ring_seq m then t\<lparr>token_ring_id_seq := mj_ring_seq m\<rparr> else t)"
  have u: "srp_view u = srp_view s" "flushing u = flushing s" "failed_to_recv u = failed_to_recv s"
      "pause_timestamp u = pause_timestamp s" "totem_config u = totem_config s"
    by (simp_all add: u_def Let_def view)
  have gu: "gathering env C u" using gathering_view [OF g u] .
  have mu: "members u = members s" "my_proc_list u = my_proc_list s" "my_failed_list u = my_failed_list s" "my_id u = my_id s"
    using u(1) by (simp_all add: srp_view_def members_def)
  have l: "\<not> is_leave m" using m by (simp add: agreeing_def is_leave_def)
  have ds: "distinct (my_proc_list u)" "distinct (my_failed_list u)" "distinct (proc_list m)" "distinct (failed_list m)"
    using gu m by (simp_all add: gathering_def srp_inv_def lists_inv_def memb_set_def agreeing_def)
  then have eq: "memb_set_equal (proc_list m) (my_proc_list u)" "memb_set_equal (failed_list m) (my_failed_list u)"
    using m mu by (simp_all add: memb_set_equal_iff agreeing_def)
  have st: "memb_state u = MEMB_STATE_GATHER" "\<not> flushing u" using gu by (simp_all add: gathering_def)
  have p: "pause_flush env (emit (Stat ''memb_join_rx'') s) = 0"
    using g by (simp add: gathering_def pause_flush_def)
  have "memb_join_process m u = join_agreed m u" using eq st l by (simp add: memb_join_process_def)
  moreover have "deliver_multicast env (Join m, n) s = bindE (memb_join_process m u) (\<lambda>s1. Inr (0, s1))"
    using agreeing_sanity [OF m] m p st unfolding u_def Let_def
    by (simp add: deliver_multicast_def multicast_header_def message_handler_memb_join_def Let_def agreeing_def
        sent_header_magic)
  ultimately have d: "deliver_multicast env (Join m, n) s = bindE (join_agreed m u) (\<lambda>s1. Inr (0, s1))" by simp
  have "mj_system_from m \<in> members u" using m mu by (simp add: agreeing_def)
  from join_agreed_step [OF gu this l, unfolded mu] show ?thesis unfolding d by (elim exE conjE) (rule exI, rule conjI, simp, assumption)
qed


abbreviation sender :: "memb_join \<times> nat \<Rightarrow> srp_addr" where
  "sender p \<equiv> mj_system_from (fst p)"

abbreviation joins :: "(memb_join \<times> nat) list \<Rightarrow> (srp_multicast \<times> nat) list" where
  "joins ps \<equiv> map (\<lambda>p. (Join (fst p), snd p)) ps"

lemma join_steps:
  assumes "gathering env C s" "list_all (agreeing s) ps" "\<not> members s \<subseteq> sender ` set ps \<union> C"
  shows "\<exists>s'. deliver_multicasts env (joins ps) s = Inr s' \<and> gathering env (sender ` set ps \<union> C) s' \<and>
    my_proc_list s' = my_proc_list s \<and> my_failed_list s' = my_failed_list s \<and> my_id s' = my_id s"
  using assms
proof (induction ps arbitrary: s C)
  case (Cons p ps)
  obtain m n where p: "p = (m, n)" by fastforce
  have "\<not> members s \<subseteq> insert (mj_system_from m) C" using Cons.prems(3) by (auto simp: p)
  then obtain s1 where s1: "deliver_multicast env (Join m, n) s = Inr (0, s1)" "gathering env (insert (mj_system_from m) C) s1"
      "my_proc_list s1 = my_proc_list s" "my_failed_list s1 = my_failed_list s" "my_id s1 = my_id s"
    using join_step [OF Cons.prems(1), of m n] Cons.prems(2) by (auto simp: p)
  have "agreeing s1 = agreeing s" "members s1 = members s" using s1(3,4) by (auto simp: agreeing_def members_def fun_eq_iff)
  then show ?case using Cons.IH [OF s1(2)] Cons.prems(2,3) s1 by (auto simp: p)
qed simp

lemma deliver_multicasts_append:
  "deliver_multicasts env (ps @ qs) s = bindE (deliver_multicasts env ps s) (deliver_multicasts env qs)"
  by (induction ps arbitrary: s) (auto simp: bindE_def split: sum.splits)

text \<open>(C7) Consensus is reached: a processor that has just started to gather and then receives, in any
  order, one join message with the same lists from each other member has reached consensus after the
  last of them. If it is the member with the lowest identifier it is then in the commit state, with
  exactly the members in its new membership and itself as the representative of the new ring;
  otherwise it waits in the gather state for the commit token, agreed with all members.\<close>

theorem joins_reach_commit:
  assumes g: "gathering env {my_id s} s" and ps: "list_all (agreeing s) ps" "ps \<noteq> []" "distinct (map sender ps)"
    "sender ` set ps = members s - {my_id s}"
  shows "\<exists>s'. deliver_multicasts env (joins ps) s = Inr s' \<and>
    (if Min (nodeid ` members s) = nodeid (my_id s)
     then memb_state s' = MEMB_STATE_COMMIT \<and> set (my_new_memb_list s') = members s \<and> rep (my_ring_id s') = nodeid (my_id s)
     else memb_state s' = MEMB_STATE_GATHER \<and> members s' = members s \<and> memb_consensus_agreed s' = Inr True)"
proof -
  obtain qs p where q: "ps = qs @ [p]" using ps(2) by (metis rev_exhaust)
  obtain m n where p: "p = (m, n)" by fastforce
  have new: "sender p \<notin> sender ` set qs" "sender p \<in> members s" "sender p \<noteq> my_id s"
    using ps(3,4) by (auto simp: q)
  then obtain s1 where s1: "deliver_multicasts env (joins qs) s = Inr s1" "gathering env (sender ` set qs \<union> {my_id s}) s1"
      "my_proc_list s1 = my_proc_list s" "my_failed_list s1 = my_failed_list s" "my_id s1 = my_id s"
    using join_steps [OF g, of qs] ps(1) by (auto simp: q)
  have same: "members s1 = members s" "agreeing s1 = agreeing s"
    using s1(3,4) by (auto simp: agreeing_def members_def fun_eq_iff)
  have all: "insert (mj_system_from m) (sender ` set qs \<union> {my_id s}) = members s"
    using ps(4) g by (auto simp: q p gathering_def)
  obtain s' where s': "deliver_multicast env (Join m, n) s1 = Inr (0, s')"
    "if Min (nodeid ` members s) = nodeid (my_id s)
     then memb_state s' = MEMB_STATE_COMMIT \<and> set (my_new_memb_list s') = members s \<and> rep (my_ring_id s') = nodeid (my_id s)
     else gathering env (members s) s' \<and> my_proc_list s' = my_proc_list s \<and>
       my_failed_list s' = my_failed_list s \<and> my_id s' = my_id s"
    using join_step [OF s1(2), of m n] ps(1) unfolding all same s1(3-5) by (auto simp: q p)
  have "deliver_multicasts env (joins ps) s = Inr s'" using s1(1) s'(1) by (simp add: q p deliver_multicasts_append)
  moreover have "members s' = members s \<and> memb_consensus_agreed s' = Inr True \<and> memb_state s' = MEMB_STATE_GATHER"
    if "Min (nodeid ` members s) \<noteq> nodeid (my_id s)"
    using s'(2) that agreed_members [of env "members s" s'] by (auto simp: members_def gathering_def)
  ultimately show ?thesis using s'(2) by (intro exI [of _ s']) auto
qed


text \<open>Processor 1 gathers with processor 2, whose join message arrives.\<close>

theorem joins_reach_commit_witness:
  "\<exists>s s'. members s = {Srp_addr 1, Srp_addr 2} \<and> my_id s = Srp_addr 1 \<and>
     deliver_multicasts demo_env (joins [(demo_join\<lparr>proc_list := [Srp_addr 1, Srp_addr 2]\<rparr>, 42)]) s = Inr s' \<and>
     memb_state s' = MEMB_STATE_COMMIT \<and> set (my_new_memb_list s') = {Srp_addr 1, Srp_addr 2}"
proof -
  obtain s0 where s0: "srp_inv s0" "my_id s0 = Srp_addr 1" "my_failed_list s0 = []"
    using totemsrp_initialize_ok [of 512 demo_config 1 0] by auto
  define s where "s = s0\<lparr>memb_state := MEMB_STATE_GATHER, my_proc_list := [Srp_addr 1, Srp_addr 2],
      consensus_list := [\<lparr>ci_addr = Srp_addr 1, ci_set = True\<rparr>], flushing := False, failed_to_recv := False\<rparr>"
  let ?ps = "[(demo_join\<lparr>proc_list := [Srp_addr 1, Srp_addr 2]\<rparr>, 42 :: nat)]"
  have m: "members s = {Srp_addr 1, Srp_addr 2}" "my_id s = Srp_addr 1"
    using s0 by (auto simp: s_def members_def)
  have "srp_inv s"
    using s0 by (simp add: s_def srp_inv_def lists_inv_def queues_inv_def gather_inv_def memb_set_def
        PROCESSOR_COUNT_MAX_def memb_consensus_isset_def)
  then have g: "gathering demo_env {my_id s} s"
    using m by (simp add: gathering_def pause_flush_def demo_env_def Let_def) (simp add: s_def)
  have "list_all (agreeing s) ?ps"
    using m s0 by (simp add: agreeing_def demo_join_def sent_header_def header_ok_def totemsrp_header_def
        LEAVE_DUMMY_NODEID_def demo_node_def memb_set_def PROCESSOR_COUNT_MAX_def join_len_def sizeof_defs)
      (simp add: s_def s0)
  from joins_reach_commit [OF g this] show ?thesis
    using m by (fastforce simp: demo_join_def)
qed

end
