(* ===== verification/Pg_State.thy ===== *)
theory Pg_State
  imports Srp_Token
begin

text \<open>
  The data of the process group layer (\<^verbatim>\<open>exec/totempg.c\<close>): the packet header, the buffer in
  which messages are packed, the buffers in which the packets of a sender are put together again
  and the group instances of the layer above. The static variables of the file are the fields of
  one record; the ring protocol below it is the field \<open>srp\<close>. The file is modelled as compiled
  without \<^verbatim>\<open>TOTEMPG_NEED_ALIGN\<close>; the mutexes of the threaded mode only bracket the operations,
  so an operation is one step.

  A memory area is a function from offsets to bytes, with its size kept beside it: every access
  states its bound, and an access outside of it is the outcome \<open>OutOfBounds\<close>.
\<close>

section \<open>Memory\<close>

type_synonym memory = "nat \<Rightarrow> u8"

definition get_bytes :: "memory \<Rightarrow> nat \<Rightarrow> nat \<Rightarrow> u8 list" where
  "get_bytes m off n = map m [off..<off + n]"

definition put_bytes :: "nat \<Rightarrow> u8 list \<Rightarrow> memory \<Rightarrow> memory" where
  "put_bytes off bs m = (\<lambda>i. if off \<le> i \<and> i < off + length bs then bs ! (i - off) else m i)"

lemma length_get_bytes [simp]: "length (get_bytes m off n) = n"
  by (simp add: get_bytes_def)

lemma get_bytes_0 [simp]: "get_bytes m off 0 = []"
  by (simp add: get_bytes_def)

lemma get_bytes_nth [simp]: "i < n \<Longrightarrow> get_bytes m off n ! i = m (off + i)"
  by (simp add: get_bytes_def)

lemma get_bytes_add: "get_bytes m off (a + b) = get_bytes m off a @ get_bytes m (off + a) b"
  by (auto simp: list_eq_iff_nth_eq nth_append)

lemma get_put_same [simp]: "get_bytes (put_bytes off bs m) off (length bs) = bs"
  by (auto simp: list_eq_iff_nth_eq put_bytes_def)

lemma get_put_below: "off + n \<le> off' \<Longrightarrow> get_bytes (put_bytes off' bs m) off n = get_bytes m off n"
  by (auto simp: list_eq_iff_nth_eq put_bytes_def)

lemma get_put_above: "off' + length bs \<le> off \<Longrightarrow> get_bytes (put_bytes off' bs m) off n = get_bytes m off n"
  by (auto simp: list_eq_iff_nth_eq put_bytes_def)

text \<open>An \<^verbatim>\<open>unsigned short\<close> as it lies in the memory of a machine; \<open>big\<close> is its byte order.\<close>

definition short_bytes :: "bool \<Rightarrow> u16 \<Rightarrow> u8 list" where
  "short_bytes big w =
     (let lo = ucast w; hi = ucast (drop_bit 8 w) in if big then [hi, lo] else [lo, hi])"

definition short_of :: "bool \<Rightarrow> u8 \<Rightarrow> u8 \<Rightarrow> u16" where
  "short_of big a b = (if big then push_bit 8 (ucast a) OR ucast b else push_bit 8 (ucast b) OR ucast a)"

definition short_at :: "bool \<Rightarrow> memory \<Rightarrow> nat \<Rightarrow> u16" where
  "short_at big m i = short_of big (m i) (m (Suc i))"

lemma length_short_bytes [simp]: "length (short_bytes big w) = 2"
  by (simp add: short_bytes_def Let_def)

lemma short_of_bytes:
  "short_of big (short_bytes big' w ! 0) (short_bytes big' w ! Suc 0) = (if big = big' then w else swab16 w)"
  by (rule bit_word_eqI) (auto simp: short_of_def short_bytes_def Let_def bit_swab16 bit_simps add.commute)

section \<open>Packets\<close>

record totempg_mcast =
  pg_version :: u16
  pg_type :: u16
  fragmented :: u8
  continuation :: u8
  msg_count :: u16

definition sizeof_totempg_mcast :: nat where
  "sizeof_totempg_mcast = 8"

definition mcast_bytes :: "bool \<Rightarrow> totempg_mcast \<Rightarrow> u8 list" where
  "mcast_bytes big h =
     short_bytes big (pg_version h) @ short_bytes big (pg_type h) @ [fragmented h, continuation h] @
     short_bytes big (msg_count h)"

definition mcast_of :: "bool \<Rightarrow> u8 list \<Rightarrow> totempg_mcast" where
  "mcast_of big bs =
     \<lparr>pg_version = short_of big (bs ! 0) (bs ! 1), pg_type = short_of big (bs ! 2) (bs ! 3),
      fragmented = bs ! 4, continuation = bs ! 5, msg_count = short_of big (bs ! 6) (bs ! 7)\<rparr>"

lemma length_mcast_bytes [simp]: "length (mcast_bytes big h) = 8"
  by (simp add: mcast_bytes_def)

section \<open>State\<close>

definition MESSAGE_SIZE_MAX :: nat where
  "MESSAGE_SIZE_MAX = 1024 * 1024"

datatype throw_away_mode = THROW_AWAY_INACTIVE | THROW_AWAY_ACTIVE

record assembly =
  as_nodeid :: u32
  as_data :: memory
  as_index :: int
  as_last_frag_num :: u8
  as_throw_away_mode :: throw_away_mode

text \<open>
  The levels of the message queue. \<open>deliver_fn\<close> and \<open>confchg_fn\<close> of an instance are called
  through the handle \<open>gi_handle\<close>; \<open>gi_confchg\<close> says whether \<open>confchg_fn\<close> is set.
\<close>

definition TOTEM_Q_LEVEL_LOW :: int where "TOTEM_Q_LEVEL_LOW = 0"

definition TOTEM_Q_LEVEL_GOOD :: int where "TOTEM_Q_LEVEL_GOOD = 1"

definition TOTEM_Q_LEVEL_HIGH :: int where "TOTEM_Q_LEVEL_HIGH = 2"

definition TOTEM_Q_LEVEL_CRITICAL :: int where "TOTEM_Q_LEVEL_CRITICAL = 3"

record totempg_group_instance =
  gi_handle :: nat
  gi_confchg :: bool
  gi_groups :: "u8 list list"
  gi_q_level :: int

datatype pg_effect =
    Pg_deliver nat u32 "u8 list" bool
  | Pg_confchg nat totem_configuration_type "u32 list" "u32 list" "u32 list" totem_ring_id
  | Queue_level_changed int

text \<open>
  What the layer obtains from outside: the byte order of the machine, \<^verbatim>\<open>KNET_MAX_PACKET_SIZE\<close> and
  \<^verbatim>\<open>QB_LOOP_MED\<close> of the libraries, what \<^verbatim>\<open>malloc\<close> leaves in a new assembly buffer, what the stack
  holds behind the packet header copied there, and which buffer allocations of the ring protocol
  succeed.
\<close>

record pg_env =
  big_endian :: bool
  knet_max_packet_size :: nat
  qb_loop_med :: int
  fresh_data :: memory
  stale_lens :: "nat \<Rightarrow> u16"
  srp_buffer :: "nat \<Rightarrow> bool"

definition pg_frame_size :: "pg_env \<Rightarrow> nat" where
  "pg_frame_size env = knet_max_packet_size env"

definition assembly_size :: "pg_env \<Rightarrow> nat" where
  "assembly_size env = MESSAGE_SIZE_MAX + knet_max_packet_size env"

record totempg =
  srp :: totemsrp_instance
  mcast_packed_msg_lens :: "nat \<Rightarrow> u16"
  mcast_packed_msg_count :: nat
  totempg_reserved :: int
  totempg_size_limit :: u32
  totem_queue_level_changed :: bool
  assembly_list_inuse :: "assembly list"
  assembly_list_free :: "assembly list"
  assembly_list_inuse_trans :: "assembly list"
  totempg_groups_list :: "totempg_group_instance list"
  fragmentation_data :: memory
  fragmentation_alloc :: nat
  fragment_size :: int
  fragment_continuation :: u8
  totempg_waiting_transack :: bool
  next_fragment :: u8
  stat_msg_queue_avail :: int
  stat_msg_reserved :: int
  pg_effects :: "pg_effect list"

definition pg_emit :: "pg_effect \<Rightarrow> totempg \<Rightarrow> totempg" where
  "pg_emit e s = s\<lparr>pg_effects := e # pg_effects s\<rparr>"

text \<open>\<^verbatim>\<open>TOTEMPG_PACKET_SIZE\<close>, a \<open>size_t\<close>.\<close>

definition TOTEMPG_PACKET_SIZE :: "totempg \<Rightarrow> int" where
  "TOTEMPG_PACKET_SIZE s = c_size (uint (net_mtu (totem_config (srp s))) - int sizeof_totempg_mcast)"

end
