(* ===== verification/Pg_Send.thy ===== *)
theory Pg_Send
  imports Pg_State
begin

text \<open>
  Sending (\<^verbatim>\<open>exec/totempg.c\<close>): messages are packed into the fragmentation buffer; a packet goes to
  the ring protocol when it is full (\<open>mcast_msg\<close>) or when the token arrives
  (\<open>callback_token_received_fn\<close>), and a message that does not fit continues in the next packet.
  The sums of \<open>int\<close> and \<open>size_t\<close> operands are written with the conversions of C.
\<close>

section \<open>The queue of the ring protocol\<close>

definition msg_count_send_ok :: "int \<Rightarrow> totempg \<Rightarrow> (bool \<times> totempg) c_result" where
  "msg_count_send_ok cnt s =
     bindE (totemsrp_avail (srp s)) (\<lambda>avail.
       Inr (avail - totempg_reserved s > cnt, s\<lparr>stat_msg_queue_avail := avail\<rparr>))"

text \<open>\<open>byte_count / (net_mtu - sizeof (struct totempg_mcast) - 16) + 1\<close>, as an \<open>unsigned int\<close>.\<close>

definition packets_needed :: "int \<Rightarrow> totempg \<Rightarrow> u32 c_result" where
  "packets_needed byte_count s =
     (let room = c_size (uint (net_mtu (totem_config (srp s))) - int sizeof_totempg_mcast - 16)
      in if room = 0 then Inl DivideByZero else Inr (word_of_int (c_size byte_count div room + 1)))"

definition byte_count_send_ok :: "int \<Rightarrow> totempg \<Rightarrow> bool c_result" where
  "byte_count_send_ok byte_count s =
     bindE (totemsrp_avail (srp s)) (\<lambda>avail.
     bindE (packets_needed byte_count s) (\<lambda>cnt. Inr (word_of_int avail \<ge> cnt)))"

definition send_reserve :: "int \<Rightarrow> totempg \<Rightarrow> (u32 \<times> totempg) c_result" where
  "send_reserve msg_size s =
     bindE (packets_needed msg_size s) (\<lambda>cnt.
       let r = sint (word_of_int (totempg_reserved s) + cnt)
       in Inr (cnt, s\<lparr>totempg_reserved := r, stat_msg_reserved := r\<rparr>))"

definition send_release :: "int \<Rightarrow> totempg \<Rightarrow> totempg" where
  "send_release cnt s =
     (let r = totempg_reserved s - cnt in s\<lparr>totempg_reserved := r, stat_msg_reserved := r\<rparr>)"

text \<open>
  \<open>(avail - reserved) * 100\<close> is an \<open>int\<close> and \<^verbatim>\<open>MESSAGE_QUEUE_MAX\<close> an \<open>unsigned int\<close>, so the division
  and the difference are unsigned.
\<close>

definition q_level_precent_used :: "totempg \<Rightarrow> u32 c_result" where
  "q_level_precent_used s =
     bindE (totemsrp_avail (srp s)) (\<lambda>avail.
       let mtu = net_mtu (totem_config (srp s));
           queue_max = of_nat (4 * MESSAGE_SIZE_MAX) div mtu
       in if mtu = 0 \<or> queue_max = 0 then Inl DivideByZero
          else Inr (100 - word_of_int ((avail - totempg_reserved s) * 100) div queue_max))"

section \<open>Packing\<close>

text \<open>
  The \<open>memcpy\<close> of a part of an I/O vector into the fragmentation buffer and the addition of its
  length to the length of the message being packed.
\<close>

definition fragment_copy :: "pg_env \<Rightarrow> u8 list \<Rightarrow> int \<Rightarrow> int \<Rightarrow> totempg \<Rightarrow> totempg c_result" where
  "fragment_copy env v copy_base copy_len s =
     (let n = mcast_packed_msg_count s; lens = mcast_packed_msg_lens s in
      if 0 \<le> copy_len \<and> 0 \<le> copy_base \<and> copy_base + copy_len \<le> int (length v) \<and>
         0 \<le> fragment_size s \<and> fragment_size s + copy_len \<le> int (fragmentation_alloc s) \<and>
         n < pg_frame_size env
      then Inr (s\<lparr>fragmentation_data :=
                    put_bytes (nat (fragment_size s)) (take (nat copy_len) (drop (nat copy_base) v))
                      (fragmentation_data s),
                  mcast_packed_msg_lens := lens(n := lens n + word_of_int copy_len)\<rparr>)
      else Inl OutOfBounds)"

text \<open>The lengths of the packed messages as they are sent.\<close>

definition packed_lens :: "pg_env \<Rightarrow> totempg \<Rightarrow> u8 list" where
  "packed_lens env s =
     concat (map (\<lambda>i. short_bytes (big_endian env) (mcast_packed_msg_lens s i))
       [0..<mcast_packed_msg_count s])"

definition pg_srp_mcast ::
  "pg_env \<Rightarrow> nat \<Rightarrow> u32 \<Rightarrow> u8 list list \<Rightarrow> totempg \<Rightarrow> (int \<times> totempg) c_result" where
  "pg_srp_mcast env k guar iovecs s =
     bindE (totemsrp_mcast iovecs guar (srp_buffer env k) (srp s)) (\<lambda>(res, srp'). Inr (res, s\<lparr>srp := srp'\<rparr>))"

definition callback_token_received_fn :: "pg_env \<Rightarrow> totempg \<Rightarrow> totempg c_result" where
  "callback_token_received_fn env s =
     (if mcast_packed_msg_count s = 0 then Inr s
      else bindE (totemsrp_avail (srp s)) (\<lambda>avail.
        if avail = 0 then Inr s
        else let h = \<lparr>pg_version = 0, pg_type = 0, fragmented = 0, continuation = fragment_continuation s,
                      msg_count = of_nat (mcast_packed_msg_count s)\<rparr>;
                 s1 = s\<lparr>fragment_continuation := 0\<rparr>
             in bindE (pg_srp_mcast env 0 0
                         [mcast_bytes (big_endian env) h, packed_lens env s1,
                          get_bytes (fragmentation_data s1) 0 (nat (fragment_size s1))] s1) (\<lambda>(res, s2).
                  Inr (s2\<lparr>mcast_packed_msg_count := 0, fragment_size := 0\<rparr>))))"

text \<open>
  The number of the fragment where the message goes on in the next packet (\<open>split\<close>), else 0.
\<close>

definition next_fragment_used :: "totempg \<Rightarrow> u8" where
  "next_fragment_used s = (if next_fragment s = 0 then 1 else next_fragment s)"

definition fragment_number :: "bool \<Rightarrow> totempg \<Rightarrow> u8 \<times> totempg" where
  "fragment_number split s =
     (if split
      then let f = next_fragment_used s in (f, s\<lparr>fragment_continuation := f, next_fragment := f + 1\<rparr>)
      else (0, s\<lparr>fragment_continuation := 0\<rparr>))"

text \<open>
  The packet is sent; the buffer starts anew unless the ring protocol refuses the packet. \<open>f\<close> and
  \<open>c\<close> are the fields \<open>fragmented\<close> and \<open>continuation\<close> of its header, \<open>k\<close> counts the packets of the
  call.
\<close>

definition packet_send ::
  "pg_env \<Rightarrow> u32 \<Rightarrow> nat \<Rightarrow> u8 \<Rightarrow> u8 \<Rightarrow> u8 list \<Rightarrow> totempg \<Rightarrow> (int \<times> totempg) c_result" where
  "packet_send env guar k f c data s =
     (let s1 = s\<lparr>mcast_packed_msg_count := mcast_packed_msg_count s + 1\<rparr>;
          h = \<lparr>pg_version = 0, pg_type = 0, fragmented = f, continuation = c,
               msg_count = of_nat (mcast_packed_msg_count s1)\<rparr>
      in bindE (totemsrp_avail (srp s1)) (\<lambda>avail.
         bindE (assertE (avail > 0)) (\<lambda>_.
         bindE (pg_srp_mcast env k guar [mcast_bytes (big_endian env) h, packed_lens env s1, data] s1)
           (\<lambda>(res, s2).
             if res = - 1 then Inr (res, s2)
             else Inr (res, s2\<lparr>mcast_packed_msg_lens := (mcast_packed_msg_lens s2)(0 := 0),
                               mcast_packed_msg_count := 0, fragment_size := 0\<rparr>)))))"

text \<open>
  The part of the loop of \<open>mcast_msg\<close> that fills the packet and sends it: \<open>others\<close> says that this is
  not the last I/O vector. The result is that of \<open>totemsrp_mcast\<close> and the number of bytes taken from
  the I/O vector.
\<close>

definition fragment_send ::
  "pg_env \<Rightarrow> u32 \<Rightarrow> nat \<Rightarrow> u8 list \<Rightarrow> bool \<Rightarrow> int \<Rightarrow> int \<Rightarrow> totempg \<Rightarrow> (int \<times> int \<times> totempg) c_result" where
  "fragment_send env guar k v others copy_base max_packet_size s =
     (let copy_len = min (int (length v) - copy_base) (max_packet_size - fragment_size s) in
      bindE (fragment_copy env v copy_base copy_len s) (\<lambda>s1.
        let n = nat (fragment_size s + copy_len);
            data = (if copy_len = max_packet_size then take n (drop (nat copy_base) v)
                    else get_bytes (fragmentation_data s1) 0 n);
            (f, s2) = fragment_number (others \<or> copy_base + copy_len < int (length v)) s1
        in bindE (packet_send env guar k f (fragment_continuation s) data s2) (\<lambda>(res, s3).
             Inr (res, copy_len, s3))))"

text \<open>
  The loop of \<open>mcast_msg\<close>. It goes round without progress where a packet has no room at all, so
  that it is a partial function: not returning is \<open>None\<close>.
\<close>

partial_function (option) mcast_iovecs ::
  "pg_env \<Rightarrow> u32 \<Rightarrow> nat \<Rightarrow> u8 list list \<Rightarrow> int \<Rightarrow> int \<Rightarrow> totempg \<Rightarrow> (int \<times> totempg) c_result option" where
  "mcast_iovecs env guar k iov copy_base max_packet_size s =
     (case iov of
        [] \<Rightarrow> Some (Inr (0, s))
      | v # vs \<Rightarrow>
          if c_size (int (length v) + fragment_size s) < c_size (max_packet_size - 2)
          then (case fragment_copy env v copy_base (int (length v) - copy_base) s of
                  Inl e \<Rightarrow> Some (Inl e)
                | Inr s1 \<Rightarrow>
                    mcast_iovecs env guar k vs 0 max_packet_size
                      (s1\<lparr>fragment_size := fragment_size s1 + (int (length v) - copy_base), next_fragment := 1\<rparr>))
          else (case fragment_send env guar k v (vs \<noteq> []) copy_base max_packet_size s of
                  Inl e \<Rightarrow> Some (Inl e)
                | Inr (res, copy_len, s1) \<Rightarrow>
                    if res = - 1 then Some (Inr (res, s1))
                    else if copy_base + copy_len = int (length v)
                    then mcast_iovecs env guar (k + 1) vs 0 (c_int (TOTEMPG_PACKET_SIZE s1 - 2)) s1
                    else mcast_iovecs env guar (k + 1) iov (copy_base + copy_len)
                           (c_int (TOTEMPG_PACKET_SIZE s1 - 2)) s1))"

text \<open>The last step: the message counts if bytes of it are left in the buffer.\<close>

definition mcast_finish :: "int \<times> totempg \<Rightarrow> int \<times> totempg" where
  "mcast_finish r =
     (let (res, s) = r in
      if res = - 1 then r
      else if mcast_packed_msg_lens s (mcast_packed_msg_count s) \<noteq> 0
      then (res, s\<lparr>mcast_packed_msg_count := mcast_packed_msg_count s + 1\<rparr>) else r)"

definition mcast_prepare ::
  "pg_env \<Rightarrow> u8 list list \<Rightarrow> totempg \<Rightarrow> (bool \<times> u8 list list \<times> int \<times> totempg) c_result" where
  "mcast_prepare env iovec_in s =
     bindE (totemsrp_event_signal (srp s)) (\<lambda>srp1.
     bindE (assertE (length iovec_in < 64)) (\<lambda>_.
       let s1 = s\<lparr>srp := srp1\<rparr>;
           iov = filter (\<lambda>v. v \<noteq> []) iovec_in;
           n = mcast_packed_msg_count s1;
           max_packet_size = c_int (TOTEMPG_PACKET_SIZE s1 - 2 * (int n + 1))
       in if n \<ge> pg_frame_size env then Inl OutOfBounds
          else let s2 = s1\<lparr>mcast_packed_msg_lens := (mcast_packed_msg_lens s1)(n := 0)\<rparr>;
                   total_size = c_int (sum_list (map (\<lambda>v. int (length v)) iov))
               in bindE (byte_count_send_ok (c_int (c_size (total_size + 2 * int n))) s2) (\<lambda>ok.
                    Inr (ok, iov, max_packet_size, s2))))"

definition mcast_msg :: "pg_env \<Rightarrow> u8 list list \<Rightarrow> u32 \<Rightarrow> totempg \<Rightarrow> (int \<times> totempg) c_result option" where
  "mcast_msg env iovec_in guar s =
     (case mcast_prepare env iovec_in s of
        Inl e \<Rightarrow> Some (Inl e)
      | Inr (ok, iov, max_packet_size, s1) \<Rightarrow>
          if \<not> ok then Some (Inr (- 1, s1))
          else map_option (\<lambda>r. bindE r (\<lambda>p. Inr (mcast_finish p)))
                 (mcast_iovecs env guar 0 iov 0 max_packet_size s1))"

end
