(* ===== verification/Pg_Deliver.thy ===== *)
theory Pg_Deliver
  imports Pg_State
begin

text \<open>
  Delivery (\<^verbatim>\<open>exec/totempg.c\<close>): the packets of a sender are put together in its assembly buffer
  and the complete messages are handed to every group instance that is a member of one of the
  groups they are addressed to.
\<close>

section \<open>Assembly buffers\<close>

definition totempg_waiting_trans_ack_cb :: "bool \<Rightarrow> totempg \<Rightarrow> totempg" where
  "totempg_waiting_trans_ack_cb waiting s = s\<lparr>totempg_waiting_transack := waiting\<rparr>"

definition active_assembly_list :: "totempg \<Rightarrow> assembly list" where
  "active_assembly_list s =
     (if totempg_waiting_transack s then assembly_list_inuse_trans s else assembly_list_inuse s)"

definition put_active_assembly_list :: "assembly list \<Rightarrow> totempg \<Rightarrow> totempg" where
  "put_active_assembly_list l s =
     (if totempg_waiting_transack s then s\<lparr>assembly_list_inuse_trans := l\<rparr>
      else s\<lparr>assembly_list_inuse := l\<rparr>)"

text \<open>The buffer found or taken into use, and the state with it at its place in the list.\<close>

definition assembly_ref :: "pg_env \<Rightarrow> u32 \<Rightarrow> totempg \<Rightarrow> assembly \<times> totempg" where
  "assembly_ref env node s =
     (let l = active_assembly_list s in
      case find (\<lambda>a. node = as_nodeid a) l of
        Some a \<Rightarrow> (a, s)
      | None \<Rightarrow>
          (case assembly_list_free s of
             f # fs \<Rightarrow>
               let a = f\<lparr>as_nodeid := node, as_index := 0, as_last_frag_num := 0,
                         as_throw_away_mode := THROW_AWAY_INACTIVE\<rparr>
               in (a, put_active_assembly_list (a # l) (s\<lparr>assembly_list_free := fs\<rparr>))
           | [] \<Rightarrow>
               let a = \<lparr>as_nodeid = node, as_data = (fresh_data env)(0 := 0), as_index = 0,
                        as_last_frag_num = 0, as_throw_away_mode = THROW_AWAY_INACTIVE\<rparr>
               in (a, put_active_assembly_list (a # l) s)))"

text \<open>
  What the code writes through the pointer to the buffer in use: the first one of the node in the
  list that \<open>assembly_ref\<close> searches.
\<close>

fun replace_assembly :: "assembly \<Rightarrow> assembly list \<Rightarrow> assembly list" where
  "replace_assembly a [] = []"
| "replace_assembly a (b # bs) = (if as_nodeid b = as_nodeid a then a # bs else b # replace_assembly a bs)"

fun remove_assembly :: "u32 \<Rightarrow> assembly list \<Rightarrow> assembly list" where
  "remove_assembly node [] = []"
| "remove_assembly node (b # bs) = (if as_nodeid b = node then bs else b # remove_assembly node bs)"

definition put_assembly :: "assembly \<Rightarrow> totempg \<Rightarrow> totempg" where
  "put_assembly a s = put_active_assembly_list (replace_assembly a (active_assembly_list s)) s"

definition assembly_deref :: "assembly \<Rightarrow> totempg \<Rightarrow> totempg" where
  "assembly_deref a s =
     (put_active_assembly_list (remove_assembly (as_nodeid a) (active_assembly_list s)) s)
       \<lparr>assembly_list_free := a # assembly_list_free s\<rparr>"

text \<open>The buffers of the node go to the head of the free list one after the other.\<close>

definition assembly_deref_from_normal_and_trans :: "u32 \<Rightarrow> totempg \<Rightarrow> totempg" where
  "assembly_deref_from_normal_and_trans node s =
     (let gone = (\<lambda>a. node = as_nodeid a);
          normal = filter gone (assembly_list_inuse s);
          trans = filter gone (assembly_list_inuse_trans s)
      in s\<lparr>assembly_list_inuse := filter (\<lambda>a. \<not> gone a) (assembly_list_inuse s),
           assembly_list_inuse_trans := filter (\<lambda>a. \<not> gone a) (assembly_list_inuse_trans s),
           assembly_list_free := rev trans @ rev normal @ assembly_list_free s\<rparr>)"

definition app_confchg_fn ::
  "totem_configuration_type \<Rightarrow> u32 list \<Rightarrow> u32 list \<Rightarrow> u32 list \<Rightarrow> totem_ring_id \<Rightarrow> totempg \<Rightarrow> totempg" where
  "app_confchg_fn t members left joined ring_id s =
     (let s1 = fold assembly_deref_from_normal_and_trans left s
      in fold (\<lambda>i. if gi_confchg i then pg_emit (Pg_confchg (gi_handle i) t members left joined ring_id)
                   else id)
           (totempg_groups_list s1) s1)"

definition totempg_confchg_fn ::
  "totem_configuration_type \<Rightarrow> u32 list \<Rightarrow> u32 list \<Rightarrow> u32 list \<Rightarrow> totem_ring_id \<Rightarrow> totempg \<Rightarrow> totempg" where
  "totempg_confchg_fn t members left joined ring_id s = app_confchg_fn t members left joined ring_id s"

section \<open>Groups\<close>

text \<open>
  A message in an assembly buffer starts with the number of groups it is sent to, the length of
  each group name and the names. The functions read it at offset \<open>base\<close> of the buffer \<open>m\<close>.
\<close>

fun convert_shorts :: "bool \<Rightarrow> nat \<Rightarrow> nat \<Rightarrow> memory \<Rightarrow> memory" where
  "convert_shorts big off 0 m = m"
| "convert_shorts big off (Suc n) m =
     convert_shorts big (off + 2) n (put_bytes off (short_bytes big (swab16 (short_at big m off))) m)"

definition group_endian_convert :: "pg_env \<Rightarrow> nat \<Rightarrow> memory \<Rightarrow> memory c_result" where
  "group_endian_convert env base m =
     (let big = big_endian env;
          n = unat (swab16 (short_at big m base))
      in if base + 2 * (n + 1) \<le> assembly_size env then Inr (convert_shorts big base (n + 1) m)
         else Inl OutOfBounds)"

definition group_lens :: "bool \<Rightarrow> memory \<Rightarrow> nat \<Rightarrow> nat list" where
  "group_lens big m base =
     map (\<lambda>i. unat (short_at big m (base + 2 * i))) [1..<unat (short_at big m base) + 1]"

text \<open>The inner loops: some name of the message is the name of a group of the instance.\<close>

fun group_name_matches :: "pg_env \<Rightarrow> memory \<Rightarrow> nat \<Rightarrow> nat list \<Rightarrow> u8 list list \<Rightarrow> bool c_result" where
  "group_name_matches env m name [] groups = Inr False"
| "group_name_matches env m name (l # ls) groups =
     (if list_ex (\<lambda>g. l = length g) groups \<and> name + l > assembly_size env then Inl OutOfBounds
      else if list_ex (\<lambda>g. l = length g \<and> g = get_bytes m name l) groups then Inr True
      else group_name_matches env m (name + l) ls groups)"

definition group_matches ::
  "pg_env \<Rightarrow> memory \<Rightarrow> nat \<Rightarrow> u8 list list \<Rightarrow> (bool \<times> u32) c_result" where
  "group_matches env m base groups =
     (let big = big_endian env;
          n = unat (short_at big m base);
          lens = group_lens big m base;
          adjust_iovec = of_nat (2 * (n + 1) + sum_list lens)
      in if base + 2 * (n + 1) \<le> assembly_size env
         then bindE (group_name_matches env m (base + 2 * (n + 1)) lens groups) (\<lambda>matches.
                Inr (matches, adjust_iovec))
         else Inl OutOfBounds)"

text \<open>
  The length handed to \<open>deliver_fn\<close> is an \<open>unsigned int\<close>: it wraps around where the header of the
  message claims more bytes than the message has. A length that reaches past the buffer is the
  outcome \<open>OutOfBounds\<close>.
\<close>

definition app_deliver_instance ::
  "pg_env \<Rightarrow> u32 \<Rightarrow> memory \<Rightarrow> nat \<Rightarrow> nat \<Rightarrow> bool \<Rightarrow> totempg_group_instance \<Rightarrow> totempg \<Rightarrow> totempg c_result" where
  "app_deliver_instance env node m base len endian i s =
     bindE (group_matches env m base (gi_groups i)) (\<lambda>(matches, adjust_iovec).
       if \<not> matches then Inr s
       else let start = base + unat adjust_iovec;
                l = unat (of_nat len - adjust_iovec)
            in if start + l \<le> assembly_size env
               then Inr (pg_emit (Pg_deliver (gi_handle i) node (get_bytes m start l) endian) s)
               else Inl OutOfBounds)"

fun app_deliver_instances ::
  "pg_env \<Rightarrow> u32 \<Rightarrow> memory \<Rightarrow> nat \<Rightarrow> nat \<Rightarrow> bool \<Rightarrow> totempg_group_instance list \<Rightarrow> totempg \<Rightarrow>
   totempg c_result" where
  "app_deliver_instances env node m base len endian [] s = Inr s"
| "app_deliver_instances env node m base len endian (i # is) s =
     bindE (app_deliver_instance env node m base len endian i s) (\<lambda>s1.
       app_deliver_instances env node m base len endian is s1)"

definition app_deliver_fn ::
  "pg_env \<Rightarrow> u32 \<Rightarrow> memory \<Rightarrow> nat \<Rightarrow> nat \<Rightarrow> bool \<Rightarrow> totempg \<Rightarrow> (memory \<times> totempg) c_result" where
  "app_deliver_fn env node m base len endian s =
     bindE (if endian then group_endian_convert env base m else Inr m) (\<lambda>m1.
     bindE (app_deliver_instances env node m1 base len endian (totempg_groups_list s) s) (\<lambda>s1.
       Inr (m1, s1)))"

section \<open>Assembly\<close>

text \<open>
  \<open>msg_lens[i]\<close> in the copy of the packet header. Behind the lengths of the packet the copy holds
  what the stack held; in front of them lies the number of messages.
\<close>

definition msg_lens :: "pg_env \<Rightarrow> u8 list \<Rightarrow> nat \<Rightarrow> bool \<Rightarrow> int \<Rightarrow> nat c_result" where
  "msg_lens env msg cnt endian i =
     (let big = big_endian env;
          p = sizeof_totempg_mcast + 2 * nat i;
          v = short_of big (msg ! p) (msg ! Suc p)
      in if i = - 1 then Inr cnt
         else if i < 0 \<or> p + 2 > pg_frame_size env then Inl OutOfBounds
         else if nat i < cnt then Inr (unat (if endian then swab16 v else v))
         else Inr (unat (stale_lens env (nat i))))"

text \<open>
  The loop over the complete messages of the packet: \<open>base\<close> and \<open>len\<close> are the fields of
  \<open>iov_delv\<close>, \<open>n\<close> is the number of messages left, \<open>i\<close> the current one.
\<close>

fun deliver_messages ::
  "pg_env \<Rightarrow> u32 \<Rightarrow> (int \<Rightarrow> nat c_result) \<Rightarrow> bool \<Rightarrow> nat \<Rightarrow> int \<Rightarrow> nat \<Rightarrow> nat \<Rightarrow> assembly \<Rightarrow> totempg \<Rightarrow>
   (assembly \<times> totempg) c_result" where
  "deliver_messages env node lens endian 0 i base len a s = Inr (a, s)"
| "deliver_messages env node lens endian (Suc n) i base len a s =
     bindE (app_deliver_fn env node (as_data a) base len endian s) (\<lambda>(m, s1).
     bindE (lens i) (\<lambda>l.
       let a1 = a\<lparr>as_data := m, as_index := as_index a + int l\<rparr>;
           base1 = nat (as_index a1)
       in if n = 0 then Inr (a1, s1)
          else bindE (lens (i + 1)) (\<lambda>len1.
                 deliver_messages env node lens endian n (i + 1) base1 len1 a1 s1)))"

text \<open>The end of the function: the buffer is given back or keeps the beginning of a message.\<close>

definition assembly_finish ::
  "pg_env \<Rightarrow> totempg_mcast \<Rightarrow> (int \<Rightarrow> nat c_result) \<Rightarrow> int \<Rightarrow> assembly \<Rightarrow> totempg \<Rightarrow> totempg c_result" where
  "assembly_finish env h lens cnt a s =
     (if fragmented h = 0 then Inr (assembly_deref (a\<lparr>as_last_frag_num := 0, as_index := 0\<rparr>) s)
      else bindE (lens cnt) (\<lambda>l.
             if msg_count h > 1
             then if nat (as_index a) + l \<le> assembly_size env
                  then Inr (put_assembly
                         (a\<lparr>as_data := put_bytes 0 (get_bytes (as_data a) (nat (as_index a)) l) (as_data a),
                            as_index := int l\<rparr>) s)
                  else Inl OutOfBounds
             else Inr (put_assembly (a\<lparr>as_index := as_index a + int l\<rparr>) s)))"

definition assembly_packet ::
  "pg_env \<Rightarrow> u32 \<Rightarrow> totempg_mcast \<Rightarrow> (int \<Rightarrow> nat c_result) \<Rightarrow> bool \<Rightarrow> assembly \<Rightarrow> totempg \<Rightarrow> totempg c_result" where
  "assembly_packet env node h lens endian a s =
     (let cnt = (if fragmented h \<noteq> 0 then uint (msg_count h) - 1 else uint (msg_count h)) in
      bindE (lens 0) (\<lambda>len0.
      bindE (case as_throw_away_mode a of
               THROW_AWAY_ACTIVE \<Rightarrow>
                 Inr (if fragmented h = 0 \<or> fragmented h = 1
                      then a\<lparr>as_throw_away_mode := THROW_AWAY_INACTIVE, as_index := as_index a + int len0\<rparr>
                      else a, s)
             | THROW_AWAY_INACTIVE \<Rightarrow>
                 if continuation h = as_last_frag_num a
                 then deliver_messages env node lens endian (nat cnt) 0 0 (nat (as_index a) + len0)
                        (a\<lparr>as_last_frag_num := fragmented h\<rparr>) s
                 else Inr (a\<lparr>as_throw_away_mode := THROW_AWAY_ACTIVE\<rparr>, s)) (\<lambda>(a1, s1).
        assembly_finish env h lens cnt a1 s1)))"

text \<open>
  \<open>totempg_deliver_fn\<close>. The first component of the result is the message as the function leaves it
  in the buffer of the ring protocol, where the number of messages is converted in place.
\<close>

definition totempg_deliver_fn ::
  "pg_env \<Rightarrow> u32 \<Rightarrow> u8 list \<Rightarrow> bool \<Rightarrow> totempg \<Rightarrow> (u8 list \<times> totempg) c_result" where
  "totempg_deliver_fn env node msg endian s =
     (let (a, s1) = assembly_ref env node s;
          big = big_endian env
      in if length msg < sizeof_totempg_mcast then Inr (msg, s1)
         else let h0 = mcast_of big msg;
                  h = (if endian then h0\<lparr>msg_count := swab16 (msg_count h0)\<rparr> else h0);
                  msg1 = take 6 msg @ short_bytes big (msg_count h) @ drop 8 msg;
                  cnt = unat (msg_count h);
                  datasize = sizeof_totempg_mcast + cnt * 2
              in if length msg1 < datasize then Inr (msg1, s1)
                 else if datasize > pg_frame_size env then Inl OutOfBounds
                 else let lens = msg_lens env msg1 cnt endian;
                          expected_msg_len = datasize + sum_list (map (\<lambda>i. projr (lens (int i))) [0..<cnt])
                      in if length msg1 \<noteq> expected_msg_len then Inr (msg1, s1)
                         else bindE (assertE (nat (as_index a) + length msg1 < assembly_size env)) (\<lambda>_.
                              bindE (assembly_packet env node h lens endian
                                       (a\<lparr>as_data := put_bytes (nat (as_index a)) (drop datasize msg1) (as_data a)\<rparr>)
                                       s1) (\<lambda>s2.
                                Inr (msg1, s2))))"

end
