(* ===== verification/Pg_Groups.thy ===== *)
theory Pg_Groups
  imports Pg_Send Pg_Deliver
begin

text \<open>
  The interface of the process group layer (\<^verbatim>\<open>exec/totempg.c\<close>): start, group instances, sending to
  groups, reservation of room in the queue of the ring protocol and the level of that queue.
\<close>

section \<open>Group instances\<close>

text \<open>\<open>handle\<close> is the new instance, \<open>None\<close> where \<^verbatim>\<open>malloc\<close> fails.\<close>

definition totempg_groups_initialize ::
  "pg_env \<Rightarrow> nat option \<Rightarrow> bool \<Rightarrow> totempg \<Rightarrow> int \<times> totempg" where
  "totempg_groups_initialize env handle confchg s =
     (case handle of
        None \<Rightarrow> (- 1, s)
      | Some h \<Rightarrow>
          (0, s\<lparr>totempg_groups_list :=
                  \<lparr>gi_handle = h, gi_confchg = confchg, gi_groups = [], gi_q_level = qb_loop_med env\<rparr>
                    # totempg_groups_list s\<rparr>))"

definition find_instance :: "nat \<Rightarrow> totempg \<Rightarrow> totempg_group_instance c_result" where
  "find_instance h s =
     (case find (\<lambda>i. gi_handle i = h) (totempg_groups_list s) of None \<Rightarrow> Inl NullPointer | Some i \<Rightarrow> Inr i)"

definition update_instance :: "nat \<Rightarrow> (totempg_group_instance \<Rightarrow> totempg_group_instance) \<Rightarrow> totempg \<Rightarrow> totempg" where
  "update_instance h f s =
     s\<lparr>totempg_groups_list := map (\<lambda>i. if gi_handle i = h then f i else i) (totempg_groups_list s)\<rparr>"

definition totempg_groups_join ::
  "nat \<Rightarrow> u8 list list \<Rightarrow> bool \<Rightarrow> totempg \<Rightarrow> int \<times> totempg" where
  "totempg_groups_join h groups realloc_ok s =
     (if \<not> realloc_ok then (- 1, s)
      else (0, update_instance h (\<lambda>i. i\<lparr>gi_groups := gi_groups i @ groups\<rparr>) s))"

definition totempg_groups_leave :: "nat \<Rightarrow> u8 list list \<Rightarrow> totempg \<Rightarrow> int \<times> totempg" where
  "totempg_groups_leave h groups s = (0, s)"

section \<open>Sending\<close>

definition MAX_IOVECS_FROM_APP :: nat where
  "MAX_IOVECS_FROM_APP = 32"

definition MAX_GROUPS_PER_MSG :: nat where
  "MAX_GROUPS_PER_MSG = 32"

text \<open>The array \<open>group_len\<close> in memory and the I/O vectors built in \<open>iovec_mcast\<close>.\<close>

definition group_len_bytes :: "bool \<Rightarrow> u8 list list \<Rightarrow> u8 list" where
  "group_len_bytes big groups =
     concat (map (short_bytes big) (of_nat (length groups) # map (\<lambda>g. of_nat (length g)) groups))"

definition iovec_mcast :: "pg_env \<Rightarrow> u8 list list \<Rightarrow> u8 list list \<Rightarrow> u8 list list c_result" where
  "iovec_mcast env groups iovec =
     (if length groups \<le> MAX_GROUPS_PER_MSG \<and>
         length iovec + length groups + 1 \<le> MAX_GROUPS_PER_MSG + 1 + MAX_IOVECS_FROM_APP
      then Inr (group_len_bytes (big_endian env) groups # groups @ iovec)
      else Inl OutOfBounds)"

definition totempg_groups_mcast_groups ::
  "pg_env \<Rightarrow> u32 \<Rightarrow> u8 list list \<Rightarrow> u8 list list \<Rightarrow> totempg \<Rightarrow> (int \<times> totempg) c_result option" where
  "totempg_groups_mcast_groups env guar groups iovec s =
     (case iovec_mcast env groups iovec of
        Inl e \<Rightarrow> Some (Inl e)
      | Inr iov \<Rightarrow> mcast_msg env iov guar s)"

definition totempg_groups_mcast_joined ::
  "pg_env \<Rightarrow> nat \<Rightarrow> u8 list list \<Rightarrow> u32 \<Rightarrow> totempg \<Rightarrow> (int \<times> totempg) c_result option" where
  "totempg_groups_mcast_joined env h iovec guar s =
     (case find_instance h s of
        Inl e \<Rightarrow> Some (Inl e)
      | Inr i \<Rightarrow>
          (case iovec_mcast env (gi_groups i) iovec of
             Inl e \<Rightarrow> Some (Inl e)
           | Inr iov \<Rightarrow> mcast_msg env iov guar s))"

section \<open>The level of the queue and reservations\<close>

definition q_level_next :: "int \<Rightarrow> int \<Rightarrow> int" where
  "q_level_next percent_used level =
     (if percent_used \<ge> 75 \<and> level \<noteq> TOTEM_Q_LEVEL_CRITICAL then TOTEM_Q_LEVEL_CRITICAL
      else if percent_used < 30 \<and> level \<noteq> TOTEM_Q_LEVEL_LOW then TOTEM_Q_LEVEL_LOW
      else if percent_used > 40 \<and> percent_used < 50 \<and> level \<noteq> TOTEM_Q_LEVEL_GOOD then TOTEM_Q_LEVEL_GOOD
      else if percent_used > 60 \<and> percent_used < 70 \<and> level \<noteq> TOTEM_Q_LEVEL_HIGH then TOTEM_Q_LEVEL_HIGH
      else level)"

definition check_q_level :: "nat \<Rightarrow> totempg \<Rightarrow> totempg c_result" where
  "check_q_level h s =
     bindE (find_instance h s) (\<lambda>i.
     bindE (q_level_precent_used s) (\<lambda>percent.
       let level = q_level_next (sint percent) (gi_q_level i);
           s1 = update_instance h (\<lambda>i. i\<lparr>gi_q_level := level\<rparr>) s
       in Inr (if totem_queue_level_changed s1 \<and> gi_q_level i \<noteq> level
               then pg_emit (Queue_level_changed level) s1 else s1)))"

definition totempg_check_q_level :: "nat \<Rightarrow> totempg \<Rightarrow> totempg c_result" where
  "totempg_check_q_level h s = check_q_level h s"

definition message_size :: "u8 list list \<Rightarrow> u8 list list \<Rightarrow> u32" where
  "message_size groups iovec = of_nat (sum_list (map length groups) + sum_list (map length iovec))"

definition totempg_groups_joined_reserve ::
  "nat \<Rightarrow> u8 list list \<Rightarrow> totempg \<Rightarrow> (int \<times> totempg) c_result" where
  "totempg_groups_joined_reserve h iovec s =
     bindE (find_instance h s) (\<lambda>i.
       let size = message_size (gi_groups i) iovec in
       bindE (if size \<ge> totempg_size_limit s then Inr (- 1, s)
              else bindE (byte_count_send_ok (sint size) s) (\<lambda>ok.
                     if ok then bindE (send_reserve (sint size) s) (\<lambda>(reserved, s1). Inr (sint reserved, s1))
                     else Inr (0, s))) (\<lambda>(reserved, s1).
       bindE (check_q_level h s1) (\<lambda>s2. Inr (reserved, s2))))"

definition totempg_groups_joined_release :: "int \<Rightarrow> totempg \<Rightarrow> int \<times> totempg" where
  "totempg_groups_joined_release cnt s = (0, send_release cnt s)"

definition totempg_groups_send_ok_groups ::
  "u8 list list \<Rightarrow> u8 list list \<Rightarrow> totempg \<Rightarrow> (bool \<times> totempg) c_result" where
  "totempg_groups_send_ok_groups groups iovec s = msg_count_send_ok (sint (message_size groups iovec)) s"

section \<open>Start and services passed on to the ring protocol\<close>

definition totempg_start :: "totemsrp_instance \<Rightarrow> totempg" where
  "totempg_start p =
     \<lparr>srp = p, mcast_packed_msg_lens = (\<lambda>_. 0), mcast_packed_msg_count = 0, totempg_reserved = 1,
      totempg_size_limit = 0, totem_queue_level_changed = False, assembly_list_inuse = [],
      assembly_list_free = [], assembly_list_inuse_trans = [], totempg_groups_list = [],
      fragmentation_data = (\<lambda>_. 0), fragmentation_alloc = 0, fragment_size = 0,
      fragment_continuation = 0, totempg_waiting_transack = False, next_fragment = 1,
      stat_msg_queue_avail = 0, stat_msg_reserved = 0, pg_effects = []\<rparr>"

text \<open>
  The buffer is allocated before the packet size is reduced by the headers of the ring protocol.
  \<open>data\<close> is what \<^verbatim>\<open>malloc\<close> leaves in it; the callback that sends at the arrival of the token is
  number 1. The ring protocol says at its start that it waits for the acknowledgement of the
  transition.
\<close>

definition totempg_initialize ::
  "totem_config \<Rightarrow> u32 \<Rightarrow> nat \<Rightarrow> u64 \<Rightarrow> memory \<Rightarrow> totempg c_result" where
  "totempg_initialize cfg boundto queue_max now data =
     (let alloc = nat (c_size (uint (net_mtu cfg) - int sizeof_totempg_mcast));
          cfg1 = totemsrp_net_mtu_adjust cfg
      in bindE (totemsrp_initialize cfg1 boundto queue_max now) (\<lambda>p.
         bindE (totemsrp_callback_token_create 1 TOTEM_CALLBACK_TOKEN_RECEIVED False True p) (\<lambda>(res, p1).
         bindE (totemsrp_avail p1) (\<lambda>avail.
           Inr (totempg_waiting_trans_ack_cb True (totempg_start p1)
                  \<lparr>fragmentation_data := data, fragmentation_alloc := alloc,
                   totempg_size_limit :=
                     word_of_int (c_size (avail - 1) *
                       c_size (uint (net_mtu cfg1) - int sizeof_totempg_mcast - 16))\<rparr>)))))"

definition totempg_finalize :: "totempg \<Rightarrow> totempg c_result" where
  "totempg_finalize s = bindE (totemsrp_finalize (srp s)) (\<lambda>p. Inr (s\<lparr>srp := p\<rparr>))"

definition totempg_callback_token_create ::
  "nat \<Rightarrow> totem_callback_token_type \<Rightarrow> bool \<Rightarrow> bool \<Rightarrow> totempg \<Rightarrow> (int \<times> totempg) c_result" where
  "totempg_callback_token_create handle t delete malloc_ok s =
     bindE (totemsrp_callback_token_create handle t delete malloc_ok (srp s)) (\<lambda>(res, p).
       Inr (res, s\<lparr>srp := p\<rparr>))"

definition totempg_callback_token_destroy :: "nat \<Rightarrow> totempg \<Rightarrow> totempg" where
  "totempg_callback_token_destroy handle s = s\<lparr>srp := totemsrp_callback_token_destroy handle (srp s)\<rparr>"

definition totempg_event_signal :: "totempg \<Rightarrow> totempg c_result" where
  "totempg_event_signal s = bindE (totemsrp_event_signal (srp s)) (\<lambda>p. Inr (s\<lparr>srp := p\<rparr>))"

definition totempg_my_nodeid_get :: "totempg \<Rightarrow> u32" where
  "totempg_my_nodeid_get s = totemsrp_my_nodeid_get (srp s)"

definition totempg_queue_level_register_callback :: "bool \<Rightarrow> totempg \<Rightarrow> totempg" where
  "totempg_queue_level_register_callback fn s = s\<lparr>totem_queue_level_changed := fn\<rparr>"

text \<open>The ring protocol calls back \<open>totempg_waiting_trans_ack_cb\<close> when the transition is acknowledged.\<close>

definition totempg_trans_ack :: "totempg \<Rightarrow> totempg" where
  "totempg_trans_ack s = totempg_waiting_trans_ack_cb False (s\<lparr>srp := totemsrp_trans_ack (srp s)\<rparr>)"

definition totempg_force_gather :: "totempg \<Rightarrow> totempg c_result" where
  "totempg_force_gather s = bindE (totemsrp_force_gather (srp s)) (\<lambda>p. Inr (s\<lparr>srp := p\<rparr>))"

text \<open>The configuration is shared with the ring protocol.\<close>

definition totempg_get_config :: "totempg \<Rightarrow> totem_config" where
  "totempg_get_config s = totem_config (srp s)"

definition totempg_put_config :: "totem_config \<Rightarrow> totempg \<Rightarrow> totempg" where
  "totempg_put_config config s = s\<lparr>srp := (srp s)\<lparr>totem_config := config\<rparr>\<rparr>"

end
