(* ===== verification/Pg_Stream.thy ===== *)
theory Pg_Stream
  imports Pg_Groups
begin

text \<open>
  What the sending side puts into the queue of the ring protocol. The packets are seen as pieces of
  one stream, in which a mark stands after the last byte of every message; packing cuts the stream
  into packets and neither adds nor loses anything. The theory also shows that sending returns, and
  that the guard in front of it does not make sure that there is room for the packets.
\<close>

section \<open>Packets and the stream\<close>

datatype packet = Packet (p_fragmented: u8) (p_continuation: u8) (p_parts: "u8 list list")

definition packet_header :: "packet \<Rightarrow> totempg_mcast" where
  "packet_header p =
     \<lparr>pg_version = 0, pg_type = 0, fragmented = p_fragmented p, continuation = p_continuation p,
      msg_count = of_nat (length (p_parts p))\<rparr>"

definition packet_bytes :: "bool \<Rightarrow> packet \<Rightarrow> u8 list" where
  "packet_bytes big p =
     mcast_bytes big (packet_header p) @
     concat (map (\<lambda>x. short_bytes big (of_nat (length x))) (p_parts p)) @ concat (p_parts p)"

text \<open>\<open>None\<close> is the mark at the end of a message.\<close>

definition marks :: "u8 list list \<Rightarrow> u8 option list" where
  "marks ms = concat (map (\<lambda>m. map Some m @ [None]) ms)"

definition packet_marks :: "packet \<Rightarrow> u8 option list" where
  "packet_marks p =
     (if p_fragmented p = 0 then marks (p_parts p)
      else marks (butlast (p_parts p)) @ map Some (last (p_parts p)))"

definition stream :: "packet list \<Rightarrow> u8 option list" where
  "stream ps = concat (map packet_marks ps)"

text \<open>Every packet continues where the one before it stopped.\<close>

fun chained :: "u8 \<Rightarrow> packet list \<Rightarrow> u8 \<Rightarrow> bool" where
  "chained f [] g \<longleftrightarrow> f = g"
| "chained f (p # ps) g \<longleftrightarrow> p_continuation p = f \<and> chained (p_fragmented p) ps g"

definition packet_fits :: "nat \<Rightarrow> packet \<Rightarrow> bool" where
  "packet_fits mtu p \<longleftrightarrow> p_parts p \<noteq> [] \<and> length (packet_bytes False p) \<le> mtu"

lemma marks_simps [simp]:
  "marks [] = []" "marks (m # ms) = map Some m @ None # marks ms" "marks (a @ b) = marks a @ marks b"
  by (simp_all add: marks_def)

lemma stream_simps [simp]:
  "stream [] = []" "stream (p # ps) = packet_marks p @ stream ps" "stream (a @ b) = stream a @ stream b"
  by (simp_all add: stream_def)

lemma chained_append [simp]: "chained f (a @ b) h \<longleftrightarrow> (\<exists>g. chained f a g \<and> chained g b h)"
  by (induction a arbitrary: f) auto

lemma length_lens [simp]: "length (concat (map (\<lambda>x. short_bytes big (f x)) xs)) = 2 * length xs"
  by (induction xs) auto

lemma length_packet_bytes:
  "length (packet_bytes big p) = 8 + 2 * length (p_parts p) + length (concat (p_parts p))"
  by (simp add: packet_bytes_def)

section \<open>The queue of the ring protocol\<close>

definition payload :: "message_item \<Rightarrow> u8 list" where
  "payload it = (case body (mi_mcast it) of Data bs \<Rightarrow> bs | Inner m \<Rightarrow> [])"

definition queued :: "totempg \<Rightarrow> u8 list list" where
  "queued s = map payload (cs_queue_list (new_queue (srp s)))"

definition queue_room :: "totempg \<Rightarrow> int" where
  "queue_room s =
     int (cs_queue_capacity (new_queue (srp s))) - int (length (cs_queue_list (new_queue (srp s)))) - 1"

definition ring_ok :: "totempg \<Rightarrow> bool" where
  "ring_ok s \<longleftrightarrow> nodeid (my_id (srp s)) \<noteq> 0 \<and> cs_queue_inv (new_queue (srp s)) \<and> 0 \<le> queue_room s"

declare length_cs_queue_list [simp del]

lemma avail_eq: "ring_ok s \<Longrightarrow> totemsrp_avail (srp s) = Inr (queue_room s)"
  by (auto simp: ring_ok_def totemsrp_avail_def cs_queue_avail_eq cs_queue_is_full_iff queue_room_def)

lemma new_queue_put [simp]: "new_queue (put_new_queue q p) = q"
  by (simp add: new_queue_def put_new_queue_def)

lemma put_new_queue_fields [simp]:
  "my_id (put_new_queue q p) = my_id p" "totem_config (put_new_queue q p) = totem_config p"
  by (simp_all add: put_new_queue_def)

lemma new_queue_emit [simp]: "new_queue (emit e p) = new_queue p"
  by (simp add: new_queue_def)

text \<open>What the ring protocol does not change for this layer.\<close>

definition ring_like :: "totempg \<Rightarrow> totemsrp_instance \<Rightarrow> bool" where
  "ring_like s p \<longleftrightarrow> my_id p = my_id (srp s) \<and> totem_config p = totem_config (srp s)"

lemma pg_srp_mcast_ok:
  assumes "ring_ok s" "0 < queue_room s" "srp_buffer env k"
  shows "\<exists>p. pg_srp_mcast env k g iov s = Inr (0, s\<lparr>srp := p\<rparr>) \<and> ring_like s p \<and>
           ring_ok (s\<lparr>srp := p\<rparr>) \<and> queued (s\<lparr>srp := p\<rparr>) = queued s @ [concat iov] \<and>
           queue_room (s\<lparr>srp := p\<rparr>) = queue_room s - 1"
proof -
  let ?q = "new_queue (srp s)"
  have i: "cs_queue_inv ?q" and n: "nodeid (my_id (srp s)) \<noteq> 0"
    and l: "length (cs_queue_list ?q) < cs_queue_capacity ?q"
    using assms by (auto simp: ring_ok_def queue_room_def)
  have f: "\<not> cs_queue_is_full ?q" using l cs_queue_is_full_iff [OF i] by simp
  define m where "m = Mcast (totemsrp_header (srp s) MESSAGE_TYPE_MCAST (encap_code MESSAGE_NOT_ENCAPSULATED))
    (my_id (srp s)) 0 0 \<lparr>rep = 0, ring_seq = 0\<rparr> 0 g (Data (concat iov))"
  define it where "it = \<lparr>mi_mcast = m, mi_msg_len = of_nat (sizeof_mcast + length (concat iov))\<rparr>"
  obtain q where q: "cs_queue_item_add ?q it = Inr q" "cs_queue_inv q"
    "cs_queue_list q = cs_queue_list ?q @ [it]" "cs_queue_capacity q = cs_queue_capacity ?q"
    using cs_queue_item_add_ok [OF i l, of it] by auto
  define p where "p = put_new_queue q (emit (Stat ''mcast_tx'') (srp s))"
  have "pg_srp_mcast env k g iov s = Inr (0, s\<lparr>srp := p\<rparr>)"
    using f n q(1) assms(3) unfolding it_def m_def by (simp add: pg_srp_mcast_def totemsrp_mcast_def Let_def p_def)
  moreover have "payload it = concat iov" by (simp add: payload_def it_def m_def)
  ultimately show ?thesis
    using q n assms(2)
    by (intro exI [of _ p]) (simp add: p_def ring_like_def ring_ok_def queued_def queue_room_def)
qed

lemma event_signal_ok:
  assumes "ring_ok s"
  shows "\<exists>p. totemsrp_event_signal (srp s) = Inr p \<and> ring_like s p \<and> new_queue p = new_queue (srp s)"
  using assms by (auto simp: ring_ok_def totemsrp_event_signal_def token_hold_cancel_send_def ring_like_def new_queue_def)

section \<open>Packing\<close>

definition packet_room :: "totempg \<Rightarrow> nat" where
  "packet_room s = unat (net_mtu (totem_config (srp s))) - 8"

definition mtu_ok :: "pg_env \<Rightarrow> totempg \<Rightarrow> bool" where
  "mtu_ok env s \<longleftrightarrow> 24 < unat (net_mtu (totem_config (srp s))) \<and> unat (net_mtu (totem_config (srp s))) \<le> 65536 \<and>
     packet_room s \<le> fragmentation_alloc s \<and> packet_room s \<le> pg_frame_size env"

text \<open>
  The buffer holds the complete messages \<open>ps\<close>, or what the current packet has of them, and the
  beginning \<open>cur\<close> of the message being packed.
\<close>

definition buffer_holds :: "pg_env \<Rightarrow> totempg \<Rightarrow> u8 list list \<Rightarrow> u8 list \<Rightarrow> bool" where
  "buffer_holds env s ps cur \<longleftrightarrow>
     ring_ok s \<and> mtu_ok env s \<and> mcast_packed_msg_count s = length ps \<and> [] \<notin> set ps \<and>
     map (mcast_packed_msg_lens s) [0..<length ps] = map (\<lambda>x. of_nat (length x)) ps \<and>
     fragment_size s = int (length (concat ps @ cur)) \<and>
     get_bytes (fragmentation_data s) 0 (length (concat ps @ cur)) = concat ps @ cur \<and>
     length (concat ps @ cur) + 2 * (length ps + (if cur = [] then 1 else 2)) < packet_room s"

definition packing :: "pg_env \<Rightarrow> totempg \<Rightarrow> u8 list list \<Rightarrow> u8 list \<Rightarrow> bool" where
  "packing env s ps cur \<longleftrightarrow>
     buffer_holds env s ps cur \<and> mcast_packed_msg_lens s (length ps) = of_nat (length cur)"

lemma packet_size_eq: "mtu_ok env s \<Longrightarrow> TOTEMPG_PACKET_SIZE s = int (packet_room s)"
proof -
  define n where "n = unat (net_mtu (totem_config (srp s)))"
  assume "mtu_ok env s"
  then have "24 < n" "n \<le> 65536" by (simp_all add: mtu_ok_def n_def)
  moreover have "uint (net_mtu (totem_config (srp s))) = int n" by (simp add: n_def)
  ultimately show ?thesis
    by (simp add: TOTEMPG_PACKET_SIZE_def packet_room_def sizeof_totempg_mcast_def flip: n_def)
qed

lemma get_put_prefix:
  assumes "get_bytes m 0 n = xs" "n = length xs"
  shows "get_bytes (put_bytes n bs m) 0 (n + length bs) = xs @ bs"
  using assms get_put_same [of "length xs" bs m]
  by (simp add: get_bytes_add get_put_below)

definition taken :: "u8 list \<Rightarrow> nat \<Rightarrow> nat \<Rightarrow> u8 list" where
  "taken v base c = take c (drop base v)"

lemma length_taken: "base + c \<le> length v \<Longrightarrow> length (taken v base c) = c"
  by (simp add: taken_def)

text \<open>The copy of \<open>c\<close> bytes into the buffer.\<close>

definition copied :: "u8 list \<Rightarrow> nat \<Rightarrow> nat \<Rightarrow> totempg \<Rightarrow> totempg" where
  "copied v base c s =
     s\<lparr>fragmentation_data := put_bytes (nat (fragment_size s)) (taken v base c) (fragmentation_data s),
       mcast_packed_msg_lens := (mcast_packed_msg_lens s)(mcast_packed_msg_count s :=
         mcast_packed_msg_lens s (mcast_packed_msg_count s) + word_of_int (int c))\<rparr>"

lemma fragment_copy_ok:
  assumes "packing env s ps cur" "base + c \<le> length v"
    and "length (concat ps @ cur) + c + 2 * (length ps + 1) \<le> packet_room s"
  shows "fragment_copy env v (int base) (int c) s = Inr (copied v base c s)"
proof -
  have "fragment_size s + int c \<le> int (fragmentation_alloc s)" "mcast_packed_msg_count s < pg_frame_size env"
    "0 \<le> fragment_size s"
    using assms by (auto simp: packing_def buffer_holds_def mtu_ok_def)
  then show ?thesis
    using assms(2) by (simp add: fragment_copy_def copied_def taken_def Let_def)
qed

lemma copied_contents:
  assumes p: "packing env s ps cur" and c: "base + c \<le> length v"
  shows "get_bytes (fragmentation_data (copied v base c s)) 0 (length (concat ps @ cur) + c) =
           concat ps @ cur @ taken v base c"
    and "map (mcast_packed_msg_lens (copied v base c s)) [0..<length ps] = map (\<lambda>x. of_nat (length x)) ps"
    and "mcast_packed_msg_lens (copied v base c s) (length ps) = of_nat (length (cur @ taken v base c))"
proof -
  have "get_bytes (put_bytes (length (concat ps @ cur)) (taken v base c) (fragmentation_data s)) 0
          (length (concat ps @ cur) + length (taken v base c)) = (concat ps @ cur) @ taken v base c"
    using p by (intro get_put_prefix) (auto simp: packing_def buffer_holds_def)
  then show "get_bytes (fragmentation_data (copied v base c s)) 0 (length (concat ps @ cur) + c) =
               concat ps @ cur @ taken v base c"
    using p c by (simp add: copied_def packing_def buffer_holds_def length_taken nat_add_distrib)
  have n: "mcast_packed_msg_count s = length ps" using p by (simp add: packing_def buffer_holds_def)
  have "map (mcast_packed_msg_lens (copied v base c s)) [0..<length ps] =
          map (mcast_packed_msg_lens s) [0..<length ps]"
    by (rule map_cong) (auto simp: copied_def n)
  also have "\<dots> = map (\<lambda>x. of_nat (length x)) ps" using p by (simp add: packing_def buffer_holds_def)
  finally show "map (mcast_packed_msg_lens (copied v base c s)) [0..<length ps] =
                  map (\<lambda>x. of_nat (length x)) ps" .
  show "mcast_packed_msg_lens (copied v base c s) (length ps) = of_nat (length (cur @ taken v base c))"
    using p c by (simp add: copied_def n packing_def length_taken)
qed

lemma copied_fields [simp]:
  "srp (copied v base c s) = srp s" "mcast_packed_msg_count (copied v base c s) = mcast_packed_msg_count s"
  "fragment_size (copied v base c s) = fragment_size s"
  "fragment_continuation (copied v base c s) = fragment_continuation s"
  "next_fragment (copied v base c s) = next_fragment s"
  "fragmentation_alloc (copied v base c s) = fragmentation_alloc s"
  by (simp_all add: copied_def)

text \<open>The views of a state that an update of other fields keeps.\<close>

lemma ring_views:
  "srp t = srp s \<Longrightarrow> ring_ok t = ring_ok s \<and> queued t = queued s \<and> queue_room t = queue_room s \<and>
     packet_room t = packet_room s"
  by (simp add: ring_ok_def queued_def queue_room_def packet_room_def)

text \<open>A part of a message that fits is copied.\<close>

lemma pack_fits:
  assumes p: "packing env s ps cur" and b: "base < length v"
    and fits: "length v + length (concat ps @ cur) + 2 * (length ps + 2) < packet_room s"
  defines "t \<equiv> (copied v base (length v - base) s)
             \<lparr>fragment_size := fragment_size (copied v base (length v - base) s) + (int (length v) - int base),
              next_fragment := 1\<rparr>"
  shows "packing env t ps (cur @ drop base v)"
    and "queued t = queued s" "queue_room t = queue_room s" "fragment_continuation t = fragment_continuation s"
proof -
  let ?c = "length v - base"
  have tk: "taken v base ?c = drop base v" by (simp add: taken_def)
  have v: "ring_ok t = ring_ok s \<and> queued t = queued s \<and> queue_room t = queue_room s \<and>
     packet_room t = packet_room s" by (rule ring_views) (simp add: t_def)
  have n: "fragmentation_data t = fragmentation_data (copied v base ?c s)"
    "mcast_packed_msg_lens t = mcast_packed_msg_lens (copied v base ?c s)"
    "mcast_packed_msg_count t = mcast_packed_msg_count s" "fragmentation_alloc t = fragmentation_alloc s"
    "srp t = srp s" "fragment_size t = fragment_size s + int ?c"
    using b by (simp_all add: t_def of_nat_diff)
  note c = copied_contents [OF p, of base ?c v, unfolded tk]
  have l: "length (concat ps @ cur @ drop base v) = length (concat ps @ cur) + ?c" by simp
  have "buffer_holds env t ps (cur @ drop base v)"
    unfolding buffer_holds_def n l
    using p b fits v c(1,2)
    by (auto simp: packing_def buffer_holds_def mtu_ok_def n packet_room_def)
  then show "packing env t ps (cur @ drop base v)" using c(3) b by (simp add: packing_def n)
  show "queued t = queued s" "queue_room t = queue_room s" using v by auto
  show "fragment_continuation t = fragment_continuation s" by (simp add: t_def)
qed

lemma packed_lens_eq:
  assumes "map (mcast_packed_msg_lens t) [0..<length ps] = map (\<lambda>x. of_nat (length x)) ps"
    and "mcast_packed_msg_count t = length ps"
  shows "packed_lens env t = concat (map (\<lambda>x. short_bytes (big_endian env) (of_nat (length x))) ps)"
proof -
  have "packed_lens env t = concat (map (short_bytes (big_endian env)) (map (mcast_packed_msg_lens t) [0..<length ps]))"
    by (simp add: packed_lens_def assms(2) comp_def)
  then show ?thesis by (simp add: assms(1) comp_def)
qed

text \<open>Otherwise the packet is filled up and sent.\<close>

lemma next_fragment_used_nonzero: "next_fragment_used s \<noteq> 0"
  by (simp add: next_fragment_used_def)

lemma packing_empty:
  assumes "ring_ok t" "mtu_ok env t" "mcast_packed_msg_lens t 0 = 0" "mcast_packed_msg_count t = 0"
    "fragment_size t = 0"
  shows "packing env t [] []"
  using assms by (auto simp: packing_def buffer_holds_def mtu_ok_def packet_room_def)

lemma packet_send_ok:
  assumes r: "ring_ok s" "0 < queue_room s" and k: "srp_buffer env k" and m: "mtu_ok env s"
    and n: "mcast_packed_msg_count s + 1 = length ps"
    and l: "map (mcast_packed_msg_lens s) [0..<length ps] = map (\<lambda>x. of_nat (length x)) ps"
  shows "\<exists>t. packet_send env g k f c (concat ps) s = Inr (0, t) \<and> packing env t [] [] \<and>
           queued t = queued s @ [packet_bytes (big_endian env) (Packet f c ps)] \<and>
           queue_room t = queue_room s - 1 \<and> fragment_continuation t = fragment_continuation s \<and>
           packet_room t = packet_room s"
proof -
  define s1 where "s1 = s\<lparr>mcast_packed_msg_count := mcast_packed_msg_count s + 1\<rparr>"
  have v: "ring_ok s1 = ring_ok s" "queued s1 = queued s" "queue_room s1 = queue_room s"
    using ring_views [of s1 s] by (auto simp: s1_def)
  let ?h = "\<lparr>pg_version = 0, pg_type = 0, fragmented = f, continuation = c,
    msg_count = of_nat (mcast_packed_msg_count s1)\<rparr>"
  let ?iov = "[mcast_bytes (big_endian env) ?h, packed_lens env s1, concat ps]"
  obtain q where q: "pg_srp_mcast env k g ?iov s1 = Inr (0, s1\<lparr>srp := q\<rparr>)" "ring_like s1 q"
      "ring_ok (s1\<lparr>srp := q\<rparr>)" "queued (s1\<lparr>srp := q\<rparr>) = queued s1 @ [concat ?iov]"
      "queue_room (s1\<lparr>srp := q\<rparr>) = queue_room s1 - 1"
    using pg_srp_mcast_ok [of s1 env k g ?iov] r k v by auto
  have "packed_lens env s1 = concat (map (\<lambda>x. short_bytes (big_endian env) (of_nat (length x))) ps)"
    using l n by (intro packed_lens_eq) (simp_all add: s1_def)
  then have b: "concat ?iov = packet_bytes (big_endian env) (Packet f c ps)"
    using n by (simp add: packet_bytes_def packet_header_def s1_def)
  define t where "t = s1\<lparr>srp := q, mcast_packed_msg_lens := (mcast_packed_msg_lens s1)(0 := 0),
    mcast_packed_msg_count := 0, fragment_size := 0\<rparr>"
  have tv: "ring_ok t = ring_ok (s1\<lparr>srp := q\<rparr>)" "queued t = queued (s1\<lparr>srp := q\<rparr>)"
      "queue_room t = queue_room (s1\<lparr>srp := q\<rparr>)"
    using ring_views [of t "s1\<lparr>srp := q\<rparr>"] by (auto simp: t_def)
  have c: "totem_config q = totem_config (srp s)" using q(2) by (simp add: ring_like_def s1_def)
  then have pr: "packet_room t = packet_room s" by (simp add: packet_room_def t_def)
  have "packet_send env g k f c (concat ps) s = Inr (0, t)"
    unfolding packet_send_def Let_def s1_def [symmetric]
    using q(1) avail_eq [of s1] r v by (simp add: t_def)
  moreover have "packing env t [] []"
    using q(3) tv m c by (intro packing_empty) (auto simp: t_def mtu_ok_def packet_room_def s1_def)
  ultimately show ?thesis
    using tv q(4,5) v b pr by (intro exI [of _ t]) (simp add: t_def s1_def)
qed

text \<open>The bytes that are sent are those of the buffer, also where the code takes them from the caller.\<close>

lemma packet_data:
  assumes p: "packing env s ps cur" and c: "base + c \<le> length v" "length (concat ps @ cur) + c \<le> m"
  shows "(if int c = int m then take (nat (fragment_size s + int c)) (drop base v)
          else get_bytes (fragmentation_data (copied v base c s)) 0 (nat (fragment_size s + int c))) =
         concat (ps @ [cur @ taken v base c])"
proof -
  have fs: "fragment_size s = int (length (concat ps @ cur))"
    using p by (simp add: packing_def buffer_holds_def)
  show ?thesis
  proof (cases "c = m")
    case True
    then have "length (concat ps @ cur) = 0" using c(2) by arith
    then have "concat ps = []" "cur = []" by (simp_all del: concat_eq_Nil_conv)
    then show ?thesis using True fs by (simp add: taken_def del: concat_eq_Nil_conv)
  next
    case False
    have "nat (fragment_size s + int c) = length (concat ps @ cur) + c" by (simp add: fs)
    then show ?thesis using False copied_contents(1) [OF p c(1)] by simp
  qed
qed

lemma fragment_number_cases:
  obtains f t where "fragment_number sp s = (f, t)" "f = 0 \<longleftrightarrow> \<not> sp" "fragment_continuation t = f"
    "srp t = srp s" "mcast_packed_msg_count t = mcast_packed_msg_count s"
    "mcast_packed_msg_lens t = mcast_packed_msg_lens s" "fragmentation_alloc t = fragmentation_alloc s"
proof (rule that [of "fst (fragment_number sp s)" "snd (fragment_number sp s)"])
qed (auto simp: fragment_number_def next_fragment_used_nonzero Let_def)

lemma pack_send:
  assumes p: "packing env s ps cur" and b: "base < length v" and r: "0 < queue_room s" and k: "srp_buffer env k"
  defines "m \<equiv> packet_room s - 2 * (length ps + 1)"
  defines "c \<equiv> min (length v - base) (m - length (concat ps @ cur))"
  shows "\<exists>t f. fragment_send env g k v others (int base) (int m) s = Inr (0, int c, t) \<and>
           packing env t [] [] \<and>
           queued t = queued s @ [packet_bytes (big_endian env)
             (Packet f (fragment_continuation s) (ps @ [cur @ taken v base c]))] \<and>
           queue_room t = queue_room s - 1 \<and> fragment_continuation t = f \<and> packet_room t = packet_room s \<and>
           (f = 0 \<longleftrightarrow> \<not> (others \<or> base + c < length v))"
proof -
  let ?q = "ps @ [cur @ taken v base c]" and ?s1 = "copied v base c s"
  have l: "length (concat ps @ cur) < m" using p by (auto simp: packing_def buffer_holds_def m_def split: if_splits)
  have c: "base + c \<le> length v" "length (concat ps @ cur) + c \<le> m" using b l by (auto simp: c_def)
  then have fits: "length (concat ps @ cur) + c + 2 * (length ps + 1) \<le> packet_room s" using l by (simp add: m_def)
  have cl: "min (int (length v) - int base) (int m - fragment_size s) = int c"
    using p b l by (simp add: c_def packing_def buffer_holds_def of_nat_diff)
  let ?sp = "others \<or> int base + int c < int (length v)"
  obtain f s2 where f: "fragment_number ?sp ?s1 = (f, s2)" "f = 0 \<longleftrightarrow> \<not> ?sp" "fragment_continuation s2 = f"
    "srp s2 = srp ?s1" "mcast_packed_msg_count s2 = mcast_packed_msg_count ?s1"
    "mcast_packed_msg_lens s2 = mcast_packed_msg_lens ?s1" "fragmentation_alloc s2 = fragmentation_alloc ?s1"
    by (rule fragment_number_cases)
  have v: "ring_ok s2 = ring_ok s" "queued s2 = queued s" "queue_room s2 = queue_room s"
    "packet_room s2 = packet_room s" using ring_views [of s2 s] f(4) by auto
  have m: "mtu_ok env s2" "ring_ok s2" "mcast_packed_msg_count s2 + 1 = length ?q"
    using p v f by (auto simp: packing_def buffer_holds_def mtu_ok_def packet_room_def)
  have "map (mcast_packed_msg_lens s2) [0..<length ?q] = map (\<lambda>x. of_nat (length x)) ?q"
    using copied_contents(2,3) [OF p c(1)] by (simp add: f(6))
  then obtain t where t: "packet_send env g k f (fragment_continuation s) (concat ?q) s2 = Inr (0, t)"
    "packing env t [] []" "queue_room t = queue_room s2 - 1" "fragment_continuation t = fragment_continuation s2"
    "queued t = queued s2 @ [packet_bytes (big_endian env) (Packet f (fragment_continuation s) ?q)]"
    "packet_room t = packet_room s2"
    using packet_send_ok [OF m(2) _ k m(1,3)] r v(3) by metis
  have "fragment_send env g k v others (int base) (int m) s = Inr (0, int c, t)"
    unfolding fragment_send_def Let_def cl fragment_copy_ok [OF p c(1) fits] bindE_Inr nat_int
      packet_data [OF p c] f(1) using t(1) by simp
  then show ?thesis
    using t v f(2,3) by (intro exI [of _ t] exI [of _ f]) auto
qed

section \<open>The loop\<close>

text \<open>An upper bound of the packets that the I/O vectors take.\<close>

definition packets_bound :: "nat \<Rightarrow> u8 list list \<Rightarrow> nat" where
  "packets_bound n iov = sum_list (map (\<lambda>v. 2 + length v div n) iov)"

definition packets_left :: "nat \<Rightarrow> bool \<Rightarrow> nat \<Rightarrow> u8 list list \<Rightarrow> nat" where
  "packets_left n fresh base iov =
     (case iov of [] \<Rightarrow> 0
      | v # vs \<Rightarrow> (if fresh then 1 else 2) + (length v - base) div n + packets_bound n vs)"

definition sent :: "pg_env \<Rightarrow> totempg \<Rightarrow> packet list \<Rightarrow> totempg \<Rightarrow> bool" where
  "sent env s pks t \<longleftrightarrow>
     queued t = queued s @ map (packet_bytes (big_endian env)) pks \<and>
     chained (fragment_continuation s) pks (fragment_continuation t) \<and>
     (\<forall>p \<in> set pks. packet_fits (packet_room s + 8) p) \<and> packet_room t = packet_room s"

lemma sent_refl: "queued t = queued s \<Longrightarrow> fragment_continuation t = fragment_continuation s \<Longrightarrow>
    packet_room t = packet_room s \<Longrightarrow> sent env s [] t"
  by (simp add: sent_def)

lemma sent_trans: "sent env s a t \<Longrightarrow> sent env t b u \<Longrightarrow> sent env s (a @ b) u"
  by (auto simp: sent_def)

lemma packets_left_le: "packets_left n fresh 0 iov \<le> packets_bound n iov"
  by (cases iov) (auto simp: packets_left_def packets_bound_def)

lemma packing_max:
  assumes "packing env s ps cur"
  shows "2 \<le> packet_room s - 2 * (length ps + 1)"
proof (cases ps)
  case Nil
  then show ?thesis using assms by (auto simp: packing_def buffer_holds_def mtu_ok_def packet_room_def)
next
  case (Cons p qs)
  then have "p \<noteq> []" using assms by (auto simp: packing_def buffer_holds_def)
  then have "1 \<le> length (concat ps @ cur)" using Cons by (cases p) auto
  moreover have "length (concat ps @ cur) + 2 * (length ps + 1) < packet_room s"
    using assms by (auto simp: packing_def buffer_holds_def split: if_splits)
  ultimately show ?thesis by linarith
qed

lemma fits_test:
  assumes p: "packing env s ps cur" and l: "length v < 2 ^ 31"
  shows "c_size (int (length v) + fragment_size s) <
           c_size (int (packet_room s - 2 * (length ps + 1)) - 2) \<longleftrightarrow>
         length v + length (concat ps @ cur) + 2 * (length ps + 2) < packet_room s"
proof -
  let ?m = "packet_room s - 2 * (length ps + 1)"
  have r: "packet_room s \<le> 65536" "length (concat ps @ cur) < packet_room s"
    using p by (auto simp: packing_def buffer_holds_def mtu_ok_def packet_room_def)
  have "c_size (int ?m - 2) = int (?m - 2)" using packing_max [OF p] r by (simp add: of_nat_diff)
  moreover have "c_size (int (length v) + fragment_size s) = int (length v + length (concat ps @ cur))"
    using p l r by (simp add: packing_def buffer_holds_def)
  ultimately show ?thesis by auto
qed

lemma next_max:
  assumes "packing env t [] []"
  shows "c_int (TOTEMPG_PACKET_SIZE t - 2) = int (packet_room t - 2 * (length ([] :: u8 list list) + 1))"
proof -
  have "24 < packet_room t + 8" "packet_room t \<le> 65536" "mtu_ok env t"
    using assms by (auto simp: packing_def buffer_holds_def mtu_ok_def packet_room_def)
  then show ?thesis by (simp add: packet_size_eq of_nat_diff)
qed

text \<open>A packet that ends with the part \<open>x\<close> of the current message.\<close>

lemma packet_marks_part:
  "packet_marks (Packet f c (ps @ [cur @ x])) =
     marks ps @ map Some (cur @ x) @ (if f = 0 then [None] else [])"
  by (simp add: packet_marks_def)

lemma sent_one:
  assumes "queued t = queued s @ [packet_bytes (big_endian env) (Packet f (fragment_continuation s) (ps @ [y]))]"
    and "fragment_continuation t = f" "packet_room t = packet_room s"
    and "length (concat ps @ y) + 2 * (length ps + 1) \<le> packet_room s"
  shows "sent env s [Packet f (fragment_continuation s) (ps @ [y])] t"
  using assms by (simp add: sent_def packet_fits_def length_packet_bytes)

lemma packets_left_send:
  assumes "c = min (length v - base) (n - used)" "0 < c" "fresh \<Longrightarrow> used = 0" "0 < n"
  shows "c < length v - base \<Longrightarrow>
           packets_left n True (base + c) (v # vs) + 1 \<le> packets_left n fresh base (v # vs)"
    and "packets_left n True 0 vs + 1 \<le> packets_left n fresh base (v # vs)"
proof -
  show "packets_left n True 0 vs + 1 \<le> packets_left n fresh base (v # vs)"
    using packets_left_le [of n True vs] by (simp add: packets_left_def split: list.split)
  assume less: "c < length v - base"
  show "packets_left n True (base + c) (v # vs) + 1 \<le> packets_left n fresh base (v # vs)"
  proof (cases fresh)
    case True
    then have c: "c = n" using assms(1,3) less by simp
    have "(length v - base) div n = (length v - (base + n)) div n + 1"
      using less c assms(4) le_div_geq [of n "length v - base"] by (simp add: diff_diff_left)
    then show ?thesis using True c by (simp add: packets_left_def)
  next
    case False
    have "(length v - (base + c)) div n \<le> (length v - base) div n" by (intro div_le_mono) simp
    then show ?thesis using False by (simp add: packets_left_def)
  qed
qed

text \<open>What the loop does from a given point: the rest of the message is added to the stream.\<close>

definition packs_rest ::
  "pg_env \<Rightarrow> u32 \<Rightarrow> nat \<Rightarrow> u8 list list \<Rightarrow> nat \<Rightarrow> totempg \<Rightarrow> u8 list list \<Rightarrow> u8 list \<Rightarrow> bool" where
  "packs_rest env g k iov base s ps cur \<longleftrightarrow> (\<exists>t ps' cur' pks.
     mcast_iovecs env g k iov (int base) (int (packet_room s - 2 * (length ps + 1))) s = Some (Inr (0, t)) \<and>
     packing env t ps' cur' \<and> sent env s pks t \<and>
     stream pks @ marks ps' @ map Some cur' @ (if cur' = [] then [] else [None]) =
       marks ps @ map Some (cur @ drop base (concat iov)) @ [None])"

lemma packs_rest_Nil: "packing env s ps cur \<Longrightarrow> cur \<noteq> [] \<Longrightarrow> packs_rest env g k [] 0 s ps cur"
  unfolding packs_rest_def
  by (intro exI [of _ s] exI [of _ ps] exI [of _ cur] exI [of _ "[]"]) (simp add: mcast_iovecs.simps sent_refl)

definition fitted :: "u8 list \<Rightarrow> nat \<Rightarrow> totempg \<Rightarrow> totempg" where
  "fitted v base s =
     (copied v base (length v - base) s)
       \<lparr>fragment_size := fragment_size (copied v base (length v - base) s) + (int (length v) - int base),
        next_fragment := 1\<rparr>"

lemma fits_step:
  assumes p: "packing env s ps cur" and b: "base < length v" "length v < 2 ^ 31"
    and fits: "length v + length (concat ps @ cur) + 2 * (length ps + 2) < packet_room s"
  shows "mcast_iovecs env g k (v # vs) (int base) (int (packet_room s - 2 * (length ps + 1))) s =
           mcast_iovecs env g k vs (int 0) (int (packet_room (fitted v base s) - 2 * (length ps + 1))) (fitted v base s)"
    and "packet_room (fitted v base s) = packet_room s"
proof -
  show pr: "packet_room (fitted v base s) = packet_room s"
    using ring_views [of "fitted v base s" s] by (simp add: fitted_def)
  have "fragment_copy env v (int base) (int (length v) - int base) s = Inr (copied v base (length v - base) s)"
    using fragment_copy_ok [OF p, of base "length v - base" v] b fits by (simp add: of_nat_diff)
  then show "mcast_iovecs env g k (v # vs) (int base) (int (packet_room s - 2 * (length ps + 1))) s =
           mcast_iovecs env g k vs (int 0) (int (packet_room (fitted v base s) - 2 * (length ps + 1))) (fitted v base s)"
    unfolding pr using fits fits_test [OF p b(2)]
    by (subst mcast_iovecs.simps) (simp add: fitted_def)
qed

lemma packs_rest_fits:
  assumes p: "packing env s ps cur" and b: "base < length v" "length v < 2 ^ 31"
    and fits: "length v + length (concat ps @ cur) + 2 * (length ps + 2) < packet_room s"
    and r: "packs_rest env g k vs 0 (fitted v base s) ps (cur @ drop base v)"
  shows "packs_rest env g k (v # vs) base s ps cur"
proof -
  let ?u = "fitted v base s"
  note pf = pack_fits [OF p b(1) fits, folded fitted_def] and step = fits_step [OF p b fits]
  obtain t ps' cur' pks where
    t: "mcast_iovecs env g k vs (int 0) (int (packet_room ?u - 2 * (length ps + 1))) ?u = Some (Inr (0, t))"
    "packing env t ps' cur'" "sent env ?u pks t"
    "stream pks @ marks ps' @ map Some cur' @ (if cur' = [] then [] else [None]) =
       marks ps @ map Some ((cur @ drop base v) @ concat vs) @ [None]"
    using r unfolding packs_rest_def by auto
  have "sent env s pks t" using sent_trans [OF sent_refl t(3), of s] pf step(2) by simp
  then show ?thesis
    unfolding packs_rest_def step(1) using t(1,2,4) b
    by (intro exI [of _ t] exI [of _ ps'] exI [of _ cur'] exI [of _ pks]) simp
qed

text \<open>The number of bytes a packet that is sent takes from an I/O vector.\<close>

definition send_len :: "u8 list \<Rightarrow> nat \<Rightarrow> totempg \<Rightarrow> u8 list list \<Rightarrow> u8 list \<Rightarrow> nat" where
  "send_len v base s ps cur =
     min (length v - base) (packet_room s - 2 * (length ps + 1) - length (concat ps @ cur))"

lemma packs_rest_after:
  assumes r: "packs_rest env g k' iov' base' t [] []" and s: "sent env s [Packet f c (ps @ [cur @ x])] t" "f \<noteq> 0"
    and step: "mcast_iovecs env g k iov (int base) (int (packet_room s - 2 * (length ps + 1))) s =
      mcast_iovecs env g k' iov' (int base') (int (packet_room t - 2 * (0 + 1))) t"
    and d: "drop base (concat iov) = x @ drop base' (concat iov')"
  shows "packs_rest env g k iov base s ps cur"
proof -
  obtain u ps' cur' pks where u:
    "mcast_iovecs env g k' iov' (int base') (int (packet_room t - 2 * (0 + 1))) t = Some (Inr (0, u))"
    "packing env u ps' cur'" "sent env t pks u"
    "stream pks @ marks ps' @ map Some cur' @ (if cur' = [] then [] else [None]) =
       map Some (drop base' (concat iov')) @ [None]"
    using r unfolding packs_rest_def by auto
  have "sent env s ([Packet f c (ps @ [cur @ x])] @ pks) u" using sent_trans [OF s(1) u(3)] .
  then show ?thesis
    unfolding packs_rest_def step d using u s(2)
    by (intro exI [of _ u] exI [of _ ps'] exI [of _ cur'] exI [of _ "[Packet f c (ps @ [cur @ x])] @ pks"])
      (simp add: packet_marks_part)
qed

lemma send_step:
  assumes p: "packing env s ps cur" and b: "base < length v" "length v < 2 ^ 31"
    and r: "0 < queue_room s" "srp_buffer env k"
    and fits: "\<not> length v + length (concat ps @ cur) + 2 * (length ps + 2) < packet_room s"
  defines "c \<equiv> send_len v base s ps cur"
  obtains t f where "packing env t [] []" "packet_room t = packet_room s" "queue_room t = queue_room s - 1"
    "sent env s [Packet f (fragment_continuation s) (ps @ [cur @ taken v base c])] t"
    "f = 0 \<longleftrightarrow> vs = [] \<and> base + c = length v"
    "mcast_iovecs env g k (v # vs) (int base) (int (packet_room s - 2 * (length ps + 1))) s =
      (if base + c = length v then mcast_iovecs env g (k + 1) vs (int 0) (int (packet_room t - 2 * (0 + 1))) t
       else mcast_iovecs env g (k + 1) (v # vs) (int (base + c)) (int (packet_room t - 2 * (0 + 1))) t)"
proof -
  let ?m = "packet_room s - 2 * (length ps + 1)"
  let ?y = "cur @ taken v base c"
  obtain t f where t: "fragment_send env g k v (vs \<noteq> []) (int base) (int ?m) s = Inr (0, int c, t)"
      "packing env t [] []"
      "queued t = queued s @ [packet_bytes (big_endian env) (Packet f (fragment_continuation s) (ps @ [?y]))]"
      "queue_room t = queue_room s - 1" "fragment_continuation t = f" "packet_room t = packet_room s"
      "f = 0 \<longleftrightarrow> \<not> (vs \<noteq> [] \<or> base + c < length v)"
    using pack_send [OF p b(1) r, of g "vs \<noteq> []"] unfolding c_def send_len_def by blast
  have l: "base + c \<le> length v" "length (concat ps @ cur) + c + 2 * (length ps + 1) \<le> packet_room s"
    using p b by (auto simp: c_def send_len_def packing_def buffer_holds_def split: if_splits)
  have "sent env s [Packet f (fragment_continuation s) (ps @ [?y])] t"
    using t l by (intro sent_one) (simp_all add: length_taken)
  moreover have "mcast_iovecs env g k (v # vs) (int base) (int ?m) s =
      (if base + c = length v then mcast_iovecs env g (k + 1) vs (int 0) (int (packet_room t - 2 * (0 + 1))) t
       else mcast_iovecs env g (k + 1) (v # vs) (int (base + c)) (int (packet_room t - 2 * (0 + 1))) t)"
    using fits fits_test [OF p b(2)] t(1) next_max [OF t(2)]
    by (subst mcast_iovecs.simps) (auto simp flip: of_nat_add)
  ultimately show ?thesis using that [of t f] t l by auto
qed

text \<open>Without room in the queue the assertion of the code fails.\<close>

lemma send_abort:
  assumes p: "packing env s ps cur" and b: "base < length v" "length v < 2 ^ 31" and r: "queue_room s = 0"
    and fits: "\<not> length v + length (concat ps @ cur) + 2 * (length ps + 2) < packet_room s"
  shows "mcast_iovecs env g k (v # vs) (int base) (int (packet_room s - 2 * (length ps + 1))) s =
           Some (Inl AssertFailed)"
proof -
  let ?m = "packet_room s - 2 * (length ps + 1)" and ?c = "send_len v base s ps cur"
  have l: "length (concat ps @ cur) < ?m" using p by (auto simp: packing_def buffer_holds_def split: if_splits)
  have cl: "min (int (length v) - int base) (int ?m - fragment_size s) = int ?c"
    using p b l by (simp add: send_len_def packing_def buffer_holds_def of_nat_diff)
  have c: "base + ?c \<le> length v" "length (concat ps @ cur) + ?c + 2 * (length ps + 1) \<le> packet_room s"
    using b l by (auto simp: send_len_def)
  let ?s1 = "copied v base ?c s" and ?sp = "vs \<noteq> [] \<or> int base + int ?c < int (length v)"
  obtain f s2 where f: "fragment_number ?sp ?s1 = (f, s2)" "srp s2 = srp ?s1"
    by (rule fragment_number_cases [of ?sp ?s1])
  then have "totemsrp_avail (srp s2) = Inr 0"
    using p r avail_eq [of s] by (simp add: packing_def buffer_holds_def)
  then have "packet_send env g k f (fragment_continuation s) d s2 = Inl AssertFailed" for d
    by (simp add: packet_send_def Let_def)
  then have "fragment_send env g k v (vs \<noteq> []) (int base) (int ?m) s = Inl AssertFailed"
    unfolding fragment_send_def Let_def cl fragment_copy_ok [OF p c] bindE_Inr f(1) by simp
  then show ?thesis using fits fits_test [OF p b(2)] by (subst mcast_iovecs.simps) simp
qed

text \<open>The loop ends, either with the rest of the message in the stream or for lack of room.\<close>

definition ends :: "pg_env \<Rightarrow> u32 \<Rightarrow> nat \<Rightarrow> u8 list list \<Rightarrow> nat \<Rightarrow> totempg \<Rightarrow> u8 list list \<Rightarrow> u8 list \<Rightarrow> bool" where
  "ends env g k iov base s ps cur \<longleftrightarrow>
     packs_rest env g k iov base s ps cur \<or>
     mcast_iovecs env g k iov (int base) (int (packet_room s - 2 * (length ps + 1))) s = Some (Inl AssertFailed) \<and>
     queue_room s < int (packets_left (packet_room s - 2) (ps = [] \<and> cur = []) base iov)"

lemma ends_fits:
  assumes p: "packing env s ps cur" and b: "base < length v" "length v < 2 ^ 31"
    and fits: "length v + length (concat ps @ cur) + 2 * (length ps + 2) < packet_room s"
    and e: "ends env g k vs 0 (fitted v base s) ps (cur @ drop base v)"
  shows "ends env g k (v # vs) base s ps cur"
  using e unfolding ends_def
proof (elim disjE conjE)
  let ?u = "fitted v base s"
  note pf = pack_fits [OF p b(1) fits, folded fitted_def] and step = fits_step [OF p b fits]
  assume "queue_room ?u < int (packets_left (packet_room ?u - 2) (ps = [] \<and> cur @ drop base v = []) 0 vs)"
    and "mcast_iovecs env g k vs (int 0) (int (packet_room ?u - 2 * (length ps + 1))) ?u = Some (Inl AssertFailed)"
  then show "packs_rest env g k (v # vs) base s ps cur \<or>
     mcast_iovecs env g k (v # vs) (int base) (int (packet_room s - 2 * (length ps + 1))) s = Some (Inl AssertFailed) \<and>
     queue_room s < int (packets_left (packet_room s - 2) (ps = [] \<and> cur = []) base (v # vs))"
    unfolding step(1) using packets_left_le [of "packet_room s - 2" False vs] pf(3) step(2) b
    by (auto simp: packets_left_def)
qed (use packs_rest_fits [OF p b fits] in auto)

lemma ends_after:
  assumes e: "ends env g k' iov' base' t [] []" and s: "sent env s [Packet f c (ps @ [cur @ x])] t" "f \<noteq> 0"
    and step: "mcast_iovecs env g k iov (int base) (int (packet_room s - 2 * (length ps + 1))) s =
      mcast_iovecs env g k' iov' (int base') (int (packet_room t - 2 * (0 + 1))) t"
    and d: "drop base (concat iov) = x @ drop base' (concat iov')"
    and r: "queue_room t = queue_room s - 1" "packet_room t = packet_room s"
    and l: "packets_left (packet_room s - 2) True base' iov' + 1 \<le>
      packets_left (packet_room s - 2) (ps = [] \<and> cur = []) base iov"
  shows "ends env g k iov base s ps cur"
  using e packs_rest_after [OF _ s step d] step r l by (auto simp: ends_def)

lemma packs_rest_last:
  assumes t: "packing env t [] []" "packet_room t = packet_room s"
    and s1: "sent env s [Packet 0 (fragment_continuation s) (ps @ [cur @ taken v base c])] t"
    and e: "base + c = length v"
    and step: "mcast_iovecs env g k [v] (int base) (int (packet_room s - 2 * (length ps + 1))) s =
      mcast_iovecs env g k' [] b m t"
  shows "packs_rest env g k [v] base s ps cur"
proof -
  have "taken v base c = drop base v" using e by (simp add: taken_def)
  then show ?thesis
    unfolding packs_rest_def step using s1 t
    by (intro exI [of _ t] exI [of _ "[]"] exI [of _ "[]"]
          exI [of _ "[Packet 0 (fragment_continuation s) (ps @ [cur @ taken v base c])]"])
      (simp add: mcast_iovecs.simps packet_marks_part del: append.simps)
qed

lemma ends_send:
  assumes p: "packing env s ps cur" and b: "base < length v" "length v < 2 ^ 31" and k: "srp_buffer env k"
    and fits: "\<not> length v + length (concat ps @ cur) + 2 * (length ps + 2) < packet_room s"
    and more: "\<And>t c. packing env t [] [] \<Longrightarrow> 0 < c \<Longrightarrow> base + c < length v \<Longrightarrow>
      ends env g (k + 1) (v # vs) (base + c) t [] []"
    and others: "\<And>t. packing env t [] [] \<Longrightarrow> vs \<noteq> [] \<Longrightarrow> ends env g (k + 1) vs 0 t [] []"
  shows "ends env g k (v # vs) base s ps cur"
proof (cases "queue_room s = 0")
  case True
  then show ?thesis using send_abort [OF p b True fits] by (simp add: ends_def packets_left_def)
next
  case False
  define c where "c = send_len v base s ps cur"
  have n: "0 < packet_room s - 2" and r: "0 < queue_room s"
    using p False by (auto simp: packing_def buffer_holds_def mtu_ok_def packet_room_def ring_ok_def)
  have c: "0 < c" "c = min (length v - base) (packet_room s - 2 - (2 * length ps + length (concat ps @ cur)))"
    using p b by (auto simp: c_def send_len_def packing_def buffer_holds_def split: if_splits)
  have pl: "c < length v - base \<Longrightarrow> packets_left (packet_room s - 2) True (base + c) (v # vs) + 1 \<le>
      packets_left (packet_room s - 2) (ps = [] \<and> cur = []) base (v # vs)"
    "packets_left (packet_room s - 2) True 0 vs + 1 \<le>
      packets_left (packet_room s - 2) (ps = [] \<and> cur = []) base (v # vs)"
    using packets_left_send [OF c(2,1) _ n, of "ps = [] \<and> cur = []" vs] by auto
  obtain t f where t: "packing env t [] []" "packet_room t = packet_room s" "queue_room t = queue_room s - 1"
    and s1: "sent env s [Packet f (fragment_continuation s) (ps @ [cur @ taken v base c])] t"
    and f: "f = 0 \<longleftrightarrow> vs = [] \<and> base + c = length v"
    and step: "mcast_iovecs env g k (v # vs) (int base) (int (packet_room s - 2 * (length ps + 1))) s =
      (if base + c = length v then mcast_iovecs env g (k + 1) vs (int 0) (int (packet_room t - 2 * (0 + 1))) t
       else mcast_iovecs env g (k + 1) (v # vs) (int (base + c)) (int (packet_room t - 2 * (0 + 1))) t)"
    by (rule send_step [OF p b r k fits, folded c_def, of vs g])
  have "base + c \<le> length v" using c b by simp
  then consider "vs = []" "base + c = length v" | "vs \<noteq> []" "base + c = length v" | "base + c < length v" by linarith
  then show ?thesis
  proof cases
    case 1
    then show ?thesis using packs_rest_last [OF t(1,2) _ 1(2)] s1 f step by (simp add: ends_def)
  next
    case 2
    then have "drop base v = taken v base c" by (simp add: taken_def)
    then show ?thesis using 2 b f step pl(2) t by (intro ends_after [OF others s1]) auto
  next
    case 3
    then have "drop base v = taken v base c @ drop (base + c) v"
      using append_take_drop_id [of c "drop base v"] by (simp add: taken_def add.commute)
    then show ?thesis using 3 b c(1) f step pl(1) t by (intro ends_after [OF more s1]) auto
  qed
qed

lemma mcast_iovecs_ends:
  assumes "packing env s ps cur" "\<forall>k. srp_buffer env k" "[] \<notin> set iov" "\<forall>v \<in> set iov. length v < 2 ^ 31"
    and "iov \<noteq> [] \<Longrightarrow> base < length (hd iov)" "iov = [] \<Longrightarrow> base = 0 \<and> cur \<noteq> []"
  shows "ends env g k iov base s ps cur"
  using assms
proof (induction "length (concat iov) - base" arbitrary: s ps cur iov base k rule: less_induct)
  case (less iov base s ps cur k)
  note p = less.prems(1)
  show ?case
  proof (cases iov)
    case Nil
    then show ?thesis using less.prems by (simp add: ends_def packs_rest_Nil)
  next
    case (Cons v vs)
    have b: "base < length v" "v \<noteq> []" "length v < 2 ^ 31" and vs: "[] \<notin> set vs" using less.prems Cons by auto
    have hd: "vs \<noteq> [] \<Longrightarrow> 0 < length (hd vs)" using vs by (cases vs) auto
    show ?thesis
    proof (cases "length v + length (concat ps @ cur) + 2 * (length ps + 2) < packet_room s")
      case True
      have "ends env g k vs 0 (fitted v base s) ps (cur @ drop base v)"
        using less.prems Cons b vs hd pack_fits(1) [OF p b(1) True, folded fitted_def]
        by (intro less.hyps) auto
      then show ?thesis using ends_fits [OF p b(1,3) True] Cons by simp
    next
      case False
      show ?thesis
        unfolding Cons
        using less.prems Cons b vs hd
        by (intro ends_send [OF p b(1,3) _ False] less.hyps) auto
    qed
  qed
qed

end
