(* ===== verification/Pg_Mcast.thy ===== *)
theory Pg_Mcast
  imports Pg_Stream
begin

text \<open>
  The calls of the sending side as steps on the stream: \<open>mcast_msg\<close> appends a message, the arrival
  of the token sends what is left in the buffer. The theory also shows that \<open>mcast_msg\<close> returns.
\<close>

section \<open>Sending a message\<close>

lemma queue_room_less: "ring_ok s \<Longrightarrow> queue_room s < 2 ^ 31"
  by (auto simp: ring_ok_def queue_room_def cs_queue_capacity_def cs_queue_inv_def)

lemma byte_count_send_ok_eq:
  assumes r: "ring_ok s" and m: "mtu_ok env s" and x: "x < 2 ^ 31"
  shows "byte_count_send_ok (int x) s = Inr (int (x div (packet_room s - 16) + 1) \<le> queue_room s)"
proof -
  define n where "n = unat (net_mtu (totem_config (srp s)))"
  have n: "24 < n" "n \<le> 65536" "uint (net_mtu (totem_config (srp s))) = int n" "packet_room s = n - 8"
    using m by (simp_all add: mtu_ok_def n_def packet_room_def)
  define y where "y = x div (n - 24) + 1"
  have y: "y \<le> 2 ^ 31" using x div_le_dividend [of x "n - 24"] unfolding y_def by linarith
  have "c_size (int n - int sizeof_totempg_mcast - 16) = int (n - 24)"
    using n by (simp add: sizeof_totempg_mcast_def)
  moreover have "int x div int (n - 24) + 1 = int y" by (simp add: y_def zdiv_int)
  ultimately have p: "packets_needed (int x) s = Inr (word_of_int (int y))"
    using n x by (simp add: packets_needed_def Let_def)
  have u: "uint (word_of_int z :: u32) = z" if "0 \<le> z" "z \<le> 2 ^ 31" for z
    using that by (simp add: uint_word_of_int_eq take_bit_int_eq_self)
  have "(word_of_int (queue_room s) :: u32) \<ge> word_of_int (int y) \<longleftrightarrow> int y \<le> queue_room s"
    using y queue_room_less [OF r] r unfolding word_le_def by (subst (1 2) u) (auto simp: ring_ok_def)
  then show ?thesis
    using p by (simp add: byte_count_send_ok_def avail_eq [OF r] y_def n(4))
qed

text \<open>The I/O vectors that carry bytes.\<close>

definition filled :: "u8 list list \<Rightarrow> u8 list list" where
  "filled iov = filter (\<lambda>v. v \<noteq> []) iov"

lemma concat_filled [simp]: "concat (filled iov) = concat iov"
  by (induction iov) (auto simp: filled_def)

lemma filled_nonempty: "[] \<notin> set (filled iov)"
  by (simp add: filled_def)

lemma length_concat_member: "v \<in> set iov \<Longrightarrow> length v \<le> length (concat iov)"
  by (induction iov) auto

lemma sum_lengths: "sum_list (map (\<lambda>v. int (length v)) xs) = int (length (concat xs))"
  by (induction xs) auto

definition sendable :: "u8 list list \<Rightarrow> bool" where
  "sendable iov \<longleftrightarrow> length iov < 64 \<and> concat iov \<noteq> [] \<and> length (concat iov) < 2 ^ 30"

lemma filled_sendable:
  assumes "sendable iov"
  shows "filled iov \<noteq> []" "\<forall>v \<in> set (filled iov). length v < 2 ^ 31"
proof -
  show "filled iov \<noteq> []" using assms concat_filled [of iov] by (auto simp: sendable_def simp del: concat_filled)
  have "length v \<le> length (concat iov)" if "v \<in> set (filled iov)" for v
    using length_concat_member [OF that] by simp
  then show "\<forall>v \<in> set (filled iov). length v < 2 ^ 31" using assms by (fastforce simp: sendable_def)
qed

lemma mcast_prepare_ok:
  assumes p: "buffer_holds env s ps []" and i: "sendable iov"
  obtains t where "mcast_prepare env iov s =
      Inr (int ((length (concat iov) + 2 * length ps) div (packet_room s - 16) + 1) \<le> queue_room s,
           filled iov, int (packet_room t - 2 * (length ps + 1)), t)"
    "packing env t ps []" "sent env s [] t" "queue_room t = queue_room s"
proof -
  have r: "ring_ok s" "mtu_ok env s" "mcast_packed_msg_count s = length ps"
    "2 * (length ps + 1) < packet_room s" "packet_room s \<le> 65536" "packet_room s \<le> pg_frame_size env"
    using p by (auto simp: buffer_holds_def mtu_ok_def packet_room_def)
  obtain q where q: "totemsrp_event_signal (srp s) = Inr q" "ring_like s q" "new_queue q = new_queue (srp s)"
    using event_signal_ok [OF r(1)] by auto
  define t where "t = s\<lparr>srp := q, mcast_packed_msg_lens := (mcast_packed_msg_lens s)(length ps := 0)\<rparr>"
  have v: "queued t = queued s" "queue_room t = queue_room s" "packet_room t = packet_room s" "ring_ok t" "mtu_ok env t"
    using q r by (auto simp: t_def queued_def queue_room_def packet_room_def ring_like_def ring_ok_def mtu_ok_def)
  have "map (mcast_packed_msg_lens t) [0..<length ps] = map (mcast_packed_msg_lens s) [0..<length ps]"
    by (rule map_cong) (auto simp: t_def)
  then have "packing env t ps []"
    using p v by (simp add: packing_def buffer_holds_def t_def del: map_eq_conv)
  moreover have "sent env s [] t" using v by (intro sent_refl) (simp_all add: t_def)
  moreover have "sum_list (map (\<lambda>v. int (length v)) (filled iov)) = int (length (concat iov))"
    by (simp only: sum_lengths concat_filled)
  then have "c_int (c_size (c_int (sum_list (map (\<lambda>v. int (length v)) (filled iov))) + 2 * int (length ps))) =
      int (length (concat iov) + 2 * length ps)"
    using i r by (simp add: sendable_def)
  then have "mcast_prepare env iov s =
      Inr (int ((length (concat iov) + 2 * length ps) div (packet_room s - 16) + 1) \<le> queue_room s,
           filled iov, int (packet_room t - 2 * (length ps + 1)), t)"
    using q(1) i r v byte_count_send_ok_eq [OF v(4,5), of "length (concat iov) + 2 * length ps"]
      packet_size_eq [OF v(5)]
    unfolding mcast_prepare_def
    by (simp add: sendable_def filled_def [symmetric] Let_def TOTEMPG_PACKET_SIZE_def t_def of_nat_diff)
  ultimately show ?thesis using that v(2) by blast
qed

text \<open>The possible results of a call.\<close>

definition sends :: "pg_env \<Rightarrow> totempg \<Rightarrow> u8 list list \<Rightarrow> u8 list list \<Rightarrow> totempg \<Rightarrow> bool" where
  "sends env s ps ms t \<longleftrightarrow>
     (\<exists>pks ps'. buffer_holds env t ps' [] \<and> sent env s pks t \<and> stream pks @ marks ps' = marks (ps @ ms))"

lemma mcast_finish_packing:
  assumes p: "packing env u ps cur" and s: "sent env s pks u"
    and e: "stream pks @ marks ps @ map Some cur @ (if cur = [] then [] else [None]) = marks qs"
  obtains t where "mcast_finish (0, u) = (0, t)" "sends env s [] qs t"
proof -
  have l: "length cur < 65536"
    using p by (auto simp: packing_def buffer_holds_def mtu_ok_def packet_room_def split: if_splits)
  have n: "mcast_packed_msg_count u = length ps" "mcast_packed_msg_lens u (length ps) = of_nat (length cur)"
    using p by (auto simp: packing_def buffer_holds_def)
  show ?thesis
  proof (cases "cur = []")
    case True
    then have "mcast_finish (0, u) = (0, u)" using n by (simp add: mcast_finish_def)
    moreover have "sends env s [] qs u" using p s e True by (auto simp: sends_def packing_def)
    ultimately show ?thesis by (rule that)
  next
    case False
    let ?t = "u\<lparr>mcast_packed_msg_count := length ps + 1\<rparr>"
    have "(of_nat (length cur) :: u16) \<noteq> 0"
      using False l by (simp add: word_of_nat_eq_0_iff nat_dvd_not_less)
    then have "mcast_finish (0, u) = (0, ?t)" using n by (simp add: mcast_finish_def)
    moreover have "buffer_holds env ?t (ps @ [cur]) []"
      using p False ring_views [of ?t u] by (auto simp: packing_def buffer_holds_def mtu_ok_def)
    moreover have "sent env s pks ?t" using s ring_views [of ?t u] by (simp add: sent_def)
    moreover have "stream pks @ marks (ps @ [cur]) = marks qs" using e False by simp
    ultimately show ?thesis using that [of ?t] unfolding sends_def append_Nil by blast
  qed
qed

lemma mcast_msg_result:
  assumes p: "buffer_holds env s ps []" and i: "sendable iov" and k: "\<forall>k. srp_buffer env k"
  obtains (abort) "mcast_msg env iov g s = Some (Inl AssertFailed)"
      "queue_room s < int (packets_bound (packet_room s - 2) (filled iov))"
  | (refused) t where "mcast_msg env iov g s = Some (Inr (- 1, t))" "buffer_holds env t ps []" "sent env s [] t"
      "queue_room s < int ((length (concat iov) + 2 * length ps) div (packet_room s - 16) + 1)"
  | (ok) t where "mcast_msg env iov g s = Some (Inr (0, t))" "sends env s ps [concat iov] t"
proof -
  obtain u where u: "mcast_prepare env iov s =
      Inr (int ((length (concat iov) + 2 * length ps) div (packet_room s - 16) + 1) \<le> queue_room s,
           filled iov, int (packet_room u - 2 * (length ps + 1)), u)"
    "packing env u ps []" "sent env s [] u" "queue_room u = queue_room s"
    using mcast_prepare_ok [OF p i] .
  let ?ok = "int ((length (concat iov) + 2 * length ps) div (packet_room s - 16) + 1) \<le> queue_room s"
  have pr: "packet_room u = packet_room s" using u(3) by (simp add: sent_def)
  show ?thesis
  proof (cases ?ok)
    case False
    then show ?thesis using refused [of u] u by (simp add: mcast_msg_def packing_def)
  next
    case True
    have f: "filled iov \<noteq> []" "\<forall>v \<in> set (filled iov). length v < 2 ^ 31" using filled_sendable [OF i] .
    have "hd (filled iov) \<noteq> []" using hd_in_set [OF f(1)] filled_nonempty [of iov] by metis
    then have "ends env g 0 (filled iov) 0 u ps []"
      using u(2) k f filled_nonempty [of iov] by (intro mcast_iovecs_ends) auto
    then consider "packs_rest env g 0 (filled iov) 0 u ps []"
      | "mcast_iovecs env g 0 (filled iov) (int 0) (int (packet_room u - 2 * (length ps + 1))) u = Some (Inl AssertFailed)"
        "queue_room u < int (packets_left (packet_room u - 2) (ps = []) 0 (filled iov))"
      by (auto simp: ends_def)
    then show ?thesis
    proof cases
      case 1
      then obtain v ps' cur' pks where
        v: "mcast_iovecs env g 0 (filled iov) 0 (int (packet_room u - 2 * (length ps + 1))) u = Some (Inr (0, v))"
        "packing env v ps' cur'" "sent env u pks v"
        "stream pks @ marks ps' @ map Some cur' @ (if cur' = [] then [] else [None]) = marks (ps @ [concat iov])"
        by (auto simp: packs_rest_def)
      have "sent env s pks v" using sent_trans [OF u(3) v(3)] by simp
      then obtain t where "mcast_finish (0, v) = (0, t)" "sends env s [] (ps @ [concat iov]) t"
        using mcast_finish_packing [OF v(2) _ v(4)] by blast
      then show ?thesis using ok [of t] v(1) u(1) True by (simp add: mcast_msg_def sends_def)
    next
      case 2
      then show ?thesis
        using abort u True packets_left_le [of "packet_room s - 2" "ps = []" "filled iov"] pr
        by (simp add: mcast_msg_def)
    qed
  qed
qed

text \<open>The arrival of the token.\<close>

lemma sends_nothing: "buffer_holds env t ps [] \<Longrightarrow> sent env s [] t \<Longrightarrow> sends env s ps [] t"
  unfolding sends_def by (intro exI [of _ "[]"] exI [of _ ps]) simp

lemma callback_token_sends:
  assumes p: "buffer_holds env s ps []" and k: "srp_buffer env 0" and ne: "ps \<noteq> []" "queue_room s \<noteq> 0"
  obtains t where "callback_token_received_fn env s = Inr t" "sends env s ps [] t" "mcast_packed_msg_count t = 0"
proof -
  have r: "ring_ok s" "mtu_ok env s" "mcast_packed_msg_count s = length ps" "0 < queue_room s"
    using p ne by (auto simp: buffer_holds_def ring_ok_def)
  let ?h = "\<lparr>pg_version = 0, pg_type = 0, fragmented = 0, continuation = fragment_continuation s,
                    msg_count = of_nat (mcast_packed_msg_count s)\<rparr>"
  define u where "u = s\<lparr>fragment_continuation := 0\<rparr>"
  let ?iov = "[mcast_bytes (big_endian env) ?h, packed_lens env u,
                        get_bytes (fragmentation_data u) 0 (nat (fragment_size u))]"
  have v: "ring_ok u = ring_ok s \<and> queued u = queued s \<and> queue_room u = queue_room s \<and> packet_room u = packet_room s"
    by (rule ring_views) (simp add: u_def)
  obtain q where q: "pg_srp_mcast env 0 0 ?iov u = Inr (0, u\<lparr>srp := q\<rparr>)" "ring_like u q" "ring_ok (u\<lparr>srp := q\<rparr>)"
    "queued (u\<lparr>srp := q\<rparr>) = queued u @ [concat ?iov]"
    using pg_srp_mcast_ok [of u env 0 0 ?iov] r v k by auto
  have "packed_lens env u = concat (map (\<lambda>x. short_bytes (big_endian env) (of_nat (length x))) ps)"
    using p by (intro packed_lens_eq) (auto simp: buffer_holds_def u_def)
  then have c: "concat ?iov = packet_bytes (big_endian env) (Packet 0 (fragment_continuation s) ps)"
    using p r by (simp add: packet_bytes_def packet_header_def buffer_holds_def u_def)
  define t where "t = u\<lparr>srp := q, mcast_packed_msg_count := 0, fragment_size := 0\<rparr>"
  have tv: "ring_ok t = ring_ok (u\<lparr>srp := q\<rparr>) \<and> queued t = queued (u\<lparr>srp := q\<rparr>) \<and>
      queue_room t = queue_room (u\<lparr>srp := q\<rparr>) \<and> packet_room t = packet_room (u\<lparr>srp := q\<rparr>)"
    by (rule ring_views) (simp add: t_def)
  have pr: "packet_room t = packet_room s" "mtu_ok env t"
    using q(2) r(2) by (auto simp: packet_room_def t_def ring_like_def u_def mtu_ok_def)
  have "buffer_holds env t [] []"
    using q(3) tv pr by (auto simp: buffer_holds_def t_def mtu_ok_def packet_room_def)
  moreover have "sent env s [Packet 0 (fragment_continuation s) ps] t"
    using q(4) c tv v pr p ne
    by (auto simp: sent_def packet_fits_def length_packet_bytes t_def u_def buffer_holds_def)
  ultimately have "sends env s ps [] t"
    unfolding sends_def by (intro exI [of _ "[Packet 0 (fragment_continuation s) ps]"] exI [of _ "[]"])
      (simp add: packet_marks_def)
  moreover have "callback_token_received_fn env s = Inr t"
    unfolding callback_token_received_fn_def Let_def u_def [symmetric]
    using q(1) ne r avail_eq [OF r(1)] by (simp add: t_def)
  ultimately show ?thesis using that [of t] by (simp add: t_def)
qed

lemma callback_token_received_result:
  assumes p: "buffer_holds env s ps []" and k: "srp_buffer env 0"
  obtains t where "callback_token_received_fn env s = Inr t" "sends env s ps [] t"
proof (cases "ps = [] \<or> queue_room s = 0")
  case True
  then have "callback_token_received_fn env s = Inr s"
    using p avail_eq [of s] by (auto simp: callback_token_received_fn_def buffer_holds_def)
  then show ?thesis using that sends_nothing [OF p sent_refl] by blast
qed (use callback_token_sends [OF p k] that in blast)

section \<open>Runs of the sending side\<close>

text \<open>
  A message to groups as it is sent: the number of groups, the lengths of their names, the names
  and the payload.
\<close>

definition group_msg :: "bool \<Rightarrow> u8 list list \<times> u8 list \<Rightarrow> u8 list" where
  "group_msg big m = group_len_bytes big (fst m) @ concat (fst m) @ snd m"

text \<open>The bounds a caller keeps: the group names, and the whole message, fit their length fields.\<close>

definition message_ok :: "u8 list list \<times> u8 list \<Rightarrow> bool" where
  "message_ok m \<longleftrightarrow> length (fst m) \<le> MAX_GROUPS_PER_MSG \<and> (\<forall>g \<in> set (fst m). length g < 65536) \<and>
     2 * (length (fst m) + 1) + length (concat (fst m)) + length (snd m) \<le> MESSAGE_SIZE_MAX"

lemma length_group_len_bytes [simp]: "length (group_len_bytes big gs) = 2 * (length gs + 1)"
  using length_lens [of big "\<lambda>x. of_nat (length x)" gs] by (simp add: group_len_bytes_def comp_def)

lemma length_group_msg: "length (group_msg big m) = 2 * (length (fst m) + 1) + length (concat (fst m)) + length (snd m)"
  by (simp add: group_msg_def)

text \<open>
  A run of the sending side from \<open>s0\<close>: the messages sent so far and the packets put into the queue.
  Between the calls the ring protocol and the receiving side do their work, which leaves the fields
  of the sending side alone.
\<close>

definition new_packets :: "totempg \<Rightarrow> totempg \<Rightarrow> u8 list list" where
  "new_packets s t = drop (length (queued s)) (queued t)"

definition send_side :: "totempg \<Rightarrow> (nat \<Rightarrow> u16) \<times> nat \<times> memory \<times> nat \<times> int \<times> u8 \<times> u32" where
  "send_side s = (mcast_packed_msg_lens s, mcast_packed_msg_count s, fragmentation_data s, fragmentation_alloc s,
     fragment_size s, fragment_continuation s, net_mtu (totem_config (srp s)))"

inductive pg_run ::
  "pg_env \<Rightarrow> totempg \<Rightarrow> u8 list list \<Rightarrow> (u8 list list \<times> u8 list) list \<Rightarrow> totempg \<Rightarrow> bool"
  for env :: pg_env and s0 :: totempg where
  start: "pg_run env s0 [] [] s0"
| send: "pg_run env s0 pks ms s \<Longrightarrow> message_ok (gs, concat iov) \<Longrightarrow> length iov + length gs < 63 \<Longrightarrow>
    totempg_groups_mcast_groups env g gs iov s = Some (Inr (0, t)) \<Longrightarrow>
    pg_run env s0 (pks @ new_packets s t) (ms @ [(gs, concat iov)]) t"
| refused: "pg_run env s0 pks ms s \<Longrightarrow> message_ok (gs, concat iov) \<Longrightarrow> length iov + length gs < 63 \<Longrightarrow>
    totempg_groups_mcast_groups env g gs iov s = Some (Inr (- 1, t)) \<Longrightarrow>
    pg_run env s0 (pks @ new_packets s t) ms t"
| token: "pg_run env s0 pks ms s \<Longrightarrow> callback_token_received_fn env s = Inr t \<Longrightarrow>
    pg_run env s0 (pks @ new_packets s t) ms t"
| other: "pg_run env s0 pks ms s \<Longrightarrow> send_side t = send_side s \<Longrightarrow> ring_ok t \<Longrightarrow> pg_run env s0 pks ms t"

lemma buffer_holds_other:
  "buffer_holds env s ps [] \<Longrightarrow> send_side t = send_side s \<Longrightarrow> ring_ok t \<Longrightarrow> buffer_holds env t ps []"
  by (simp add: buffer_holds_def send_side_def mtu_ok_def packet_room_def)

lemma new_packets_sent: "sent env s pks t \<Longrightarrow> new_packets s t = map (packet_bytes (big_endian env)) pks"
  by (simp add: sent_def new_packets_def)

lemma sendable_group_msg:
  assumes "message_ok (gs, concat iov)" "length iov + length gs < 63" "iovec_mcast env gs iov = Inr v"
  shows "sendable v" "concat v = group_msg (big_endian env) (gs, concat iov)"
proof -
  have v: "v = group_len_bytes (big_endian env) gs # gs @ iov"
    using assms(3) by (auto simp: iovec_mcast_def split: if_splits)
  show "concat v = group_msg (big_endian env) (gs, concat iov)" by (simp add: v group_msg_def)
  have "group_len_bytes (big_endian env) gs \<noteq> []" using length_group_len_bytes [of "big_endian env" gs] by force
  then show "sendable v"
    using assms(1,2) by (simp add: sendable_def v message_ok_def MESSAGE_SIZE_MAX_def)
qed

text \<open>What a run keeps: the packets and the buffer hold the stream of the messages.\<close>

definition streaming :: "pg_env \<Rightarrow> totempg \<Rightarrow> u8 list list \<Rightarrow> (u8 list list \<times> u8 list) list \<Rightarrow> totempg \<Rightarrow> bool" where
  "streaming env s0 packets ms s \<longleftrightarrow>
     (\<exists>pks ps. packets = map (packet_bytes (big_endian env)) pks \<and> buffer_holds env s ps [] \<and>
        chained 0 pks (fragment_continuation s) \<and> (\<forall>p \<in> set pks. packet_fits (packet_room s0 + 8) p) \<and>
        stream pks @ marks ps = marks (map (group_msg (big_endian env)) ms) \<and> packet_room s = packet_room s0 \<and>
        (\<forall>m \<in> set ms. message_ok m))"

lemma streaming_sends:
  assumes "streaming env s0 packets ms s" "\<forall>m \<in> set ms'. message_ok m"
    and "\<And>ps. buffer_holds env s ps [] \<Longrightarrow> sends env s ps (map (group_msg (big_endian env)) ms') t"
  shows "streaming env s0 (packets @ new_packets s t) (ms @ ms') t"
proof -
  obtain pks ps where s: "packets = map (packet_bytes (big_endian env)) pks" "buffer_holds env s ps []"
      "chained 0 pks (fragment_continuation s)" "\<forall>p \<in> set pks. packet_fits (packet_room s0 + 8) p"
      "stream pks @ marks ps = marks (map (group_msg (big_endian env)) ms)" "packet_room s = packet_room s0"
      "\<forall>m \<in> set ms. message_ok m"
    using assms(1) by (auto simp: streaming_def)
  obtain qks qs where q: "buffer_holds env t qs []" "sent env s qks t"
      "stream qks @ marks qs = marks (ps @ map (group_msg (big_endian env)) ms')"
    using assms(3) [OF s(2)] by (auto simp: sends_def)
  have "stream (pks @ qks) @ marks qs = marks (map (group_msg (big_endian env)) (ms @ ms'))"
    using s(5) q(3) by simp
  then show ?thesis
    unfolding streaming_def
    using s q assms(2) new_packets_sent [OF q(2)]
    by (intro exI [of _ "pks @ qks"] exI [of _ qs]) (auto simp: sent_def)
qed

lemma pg_run_streaming:
  assumes "pg_run env s0 packets ms s" "\<forall>k. srp_buffer env k" "buffer_holds env s0 [] []" "fragment_continuation s0 = 0"
  shows "streaming env s0 packets ms s"
  using assms
proof (induction rule: pg_run.induct)
  case start
  then show ?case unfolding streaming_def by (intro exI [of _ "[]"]) simp
next
  case (send pks ms s gs iov g t)
  then obtain v where v: "iovec_mcast env gs iov = Inr v" "mcast_msg env v g s = Some (Inr (0, t))"
    by (auto simp: totempg_groups_mcast_groups_def split: sum.splits)
  note sv = sendable_group_msg [OF send.hyps(2,3) v(1)]
  show ?case
  proof (rule streaming_sends)
    fix ps
    assume "buffer_holds env s ps []"
    then show "sends env s ps (map (group_msg (big_endian env)) [(gs, concat iov)]) t"
      using mcast_msg_result [OF _ sv(1) send.prems(1), of s ps g] v(2) sv(2) by (cases; force)
  qed (use send in auto)
next
  case (refused pks ms s gs iov g t)
  then obtain v where v: "iovec_mcast env gs iov = Inr v" "mcast_msg env v g s = Some (Inr (- 1, t))"
    by (auto simp: totempg_groups_mcast_groups_def split: sum.splits)
  note sv = sendable_group_msg [OF refused.hyps(2,3) v(1)]
  have "streaming env s0 (pks @ new_packets s t) (ms @ []) t"
  proof (rule streaming_sends)
    fix ps
    assume "buffer_holds env s ps []"
    then show "sends env s ps (map (group_msg (big_endian env)) []) t"
      using mcast_msg_result [OF _ sv(1) refused.prems(1), of s ps g] v(2) sends_nothing [of env t ps s]
      by (cases; force)
  qed (use refused in auto)
  then show ?case by simp
next
  case (token pks ms s t)
  have "streaming env s0 (pks @ new_packets s t) (ms @ []) t"
  proof (rule streaming_sends)
    fix ps
    assume "buffer_holds env s ps []"
    then show "sends env s ps (map (group_msg (big_endian env)) []) t"
      using callback_token_received_result [of env s ps] token by force
  qed (use token in auto)
  then show ?case by simp
next
  case (other pks ms s t)
  then show ?case
    using buffer_holds_other [of env s _ t]
    by (auto simp: streaming_def send_side_def packet_room_def)
qed

end
