(* ===== verification/Pg_Assembly.thy ===== *)
theory Pg_Assembly
  imports Pg_Mcast Srp_Delivery
begin

text \<open>
  The receiving side: the packets of a run of the sending side, delivered in order, give back the
  messages, whatever the byte order of the two machines.
\<close>

section \<open>Bytes in memory\<close>

definition mem_has :: "memory \<Rightarrow> nat \<Rightarrow> u8 list \<Rightarrow> bool" where
  "mem_has m off bs \<longleftrightarrow> get_bytes m off (length bs) = bs"

lemma mem_has_iff: "mem_has m off bs \<longleftrightarrow> (\<forall>i < length bs. m (off + i) = bs ! i)"
  by (auto simp: mem_has_def list_eq_iff_nth_eq)

lemma mem_has_Nil [simp]: "mem_has m off []"
  by (simp add: mem_has_def)

lemma mem_has_append [simp]: "mem_has m off (a @ b) \<longleftrightarrow> mem_has m off a \<and> mem_has m (off + length a) b"
  by (auto simp: mem_has_def get_bytes_add)

lemma mem_has_put: "mem_has (put_bytes off bs m) off bs"
  by (simp add: mem_has_def)

lemma mem_has_cong:
  "mem_has m off bs \<Longrightarrow> (\<And>i. off \<le> i \<Longrightarrow> i < off + length bs \<Longrightarrow> m' i = m i) \<Longrightarrow> mem_has m' off bs"
  by (simp add: mem_has_iff)

lemma put_bytes_outside: "i < off \<or> off + length bs \<le> i \<Longrightarrow> put_bytes off bs m i = m i"
  by (auto simp: put_bytes_def)

text \<open>A number read on a machine of the byte order \<open>big\<close> that was written with \<open>big'\<close>.\<close>

definition as_seen :: "bool \<Rightarrow> bool \<Rightarrow> u16 \<Rightarrow> u16" where
  "as_seen big big' w = (if big = big' then w else swab16 w)"

lemma as_seen_same [simp]: "as_seen big big w = w"
  by (simp add: as_seen_def)

lemma short_at_mem: "mem_has m off (short_bytes big' w) \<Longrightarrow> short_at big m off = as_seen big big' w"
proof -
  assume "mem_has m off (short_bytes big' w)"
  then have "m (off + i) = short_bytes big' w ! i" if "i < 2" for i using that by (simp add: mem_has_iff)
  from this [of 0] this [of 1] show ?thesis
    using short_of_bytes [of big big' w] by (simp add: short_at_def as_seen_def)
qed

definition shorts :: "bool \<Rightarrow> u16 list \<Rightarrow> u8 list" where
  "shorts big ws = concat (map (short_bytes big) ws)"

lemma shorts_simps [simp]:
  "shorts big [] = []" "shorts big (w # ws) = short_bytes big w @ shorts big ws" "length (shorts big ws) = 2 * length ws"
  by (simp_all add: shorts_def)

lemma short_at_shorts:
  "mem_has m off (shorts big' ws) \<Longrightarrow> i < length ws \<Longrightarrow> short_at big m (off + 2 * i) = as_seen big big' (ws ! i)"
proof (induction ws arbitrary: off i)
  case (Cons w ws)
  then show ?case using Cons.IH [of "off + 2" "i - 1"] short_at_mem by (cases i) (auto simp: add.assoc)
qed simp

lemma convert_shorts_ok:
  "mem_has m off (shorts (\<not> big) ws) \<Longrightarrow>
     mem_has (convert_shorts big off (length ws) m) off (shorts big ws) \<and>
     (\<forall>i. i < off \<or> off + 2 * length ws \<le> i \<longrightarrow> convert_shorts big off (length ws) m i = m i)"
proof (induction ws arbitrary: off m)
  case (Cons w ws)
  let ?m = "put_bytes off (short_bytes big w) m"
  have h: "mem_has m off (short_bytes (\<not> big) w)" "mem_has m (off + 2) (shorts (\<not> big) ws)" using Cons.prems by auto
  then have s: "swab16 (short_at big m off) = w" by (simp add: short_at_mem as_seen_def)
  have "mem_has ?m (off + 2) (shorts (\<not> big) ws)" using h(2) by (rule mem_has_cong) (simp add: put_bytes_outside)
  from Cons.IH [OF this] have
    t: "mem_has (convert_shorts big (off + 2) (length ws) ?m) (off + 2) (shorts big ws)"
       "\<forall>i. i < off + 2 \<or> off + 2 + 2 * length ws \<le> i \<longrightarrow> convert_shorts big (off + 2) (length ws) ?m i = ?m i" by auto
  have "mem_has (convert_shorts big (off + 2) (length ws) ?m) off (short_bytes big w)"
    using mem_has_put by (rule mem_has_cong) (use t(2) in simp)
  then show ?case using t s by (auto simp: put_bytes_outside)
qed simp

section \<open>Delivery of one message\<close>

lemma group_msg_shorts:
  "group_msg big m = shorts big (of_nat (length (fst m)) # map (\<lambda>g. of_nat (length g)) (fst m)) @ concat (fst m) @ snd m"
  by (simp add: group_msg_def group_len_bytes_def shorts_def)

lemma unat_of_nat_u16: "n < 65536 \<Longrightarrow> unat (of_nat n :: u16) = n"
  by (simp add: unat_of_nat take_bit_nat_eq_self)

lemma swab16_of_seen: "swab16 (as_seen big (\<not> big) w) = w"
  by (simp add: as_seen_def)

text \<open>The conversion of the byte order touches the message only and gives the message of the own order.\<close>

lemma group_convert_ok:
  assumes h: "mem_has m base (group_msg (\<not> big_endian env) x)" and ok: "message_ok x"
    and size: "base + length (group_msg (\<not> big_endian env) x) \<le> assembly_size env"
  obtains m' where "group_endian_convert env base m = Inr m'" "mem_has m' base (group_msg (big_endian env) x)"
    "\<And>i. i < base \<or> base + length (group_msg (big_endian env) x) \<le> i \<Longrightarrow> m' i = m i"
proof -
  let ?big = "big_endian env" and ?ws = "of_nat (length (fst x)) # map (\<lambda>g. of_nat (length g)) (fst x) :: u16 list"
  have s: "mem_has m base (shorts (\<not> ?big) ?ws)" using h by (simp only: group_msg_shorts mem_has_append)
  then have "short_at ?big m base = as_seen ?big (\<not> ?big) (of_nat (length (fst x)))" by (simp add: short_at_mem)
  then have n: "unat (swab16 (short_at ?big m base)) = length (fst x)"
    using ok by (simp add: swab16_of_seen unat_of_nat_u16 message_ok_def MAX_GROUPS_PER_MSG_def)
  let ?m = "convert_shorts ?big base (length (fst x) + 1) m"
  have l: "length ?ws = length (fst x) + 1" by simp
  note c = convert_shorts_ok [OF s, unfolded l]
  have e: "group_endian_convert env base m = Inr ?m"
    using n size unfolding group_endian_convert_def Let_def n by (simp add: length_group_msg)
  have "mem_has m (base + 2 * (length (fst x) + 1)) (concat (fst x) @ snd x)"
    using h by (simp add: group_msg_shorts add.commute)
  then have "mem_has ?m (base + 2 * (length (fst x) + 1)) (concat (fst x) @ snd x)"
    by (rule mem_has_cong) (use c in auto)
  then have "mem_has ?m base (group_msg ?big x)"
    using c unfolding group_msg_shorts mem_has_append [of _ base "shorts ?big ?ws"] by simp
  moreover have "?m i = m i" if "i < base \<or> base + length (group_msg ?big x) \<le> i" for i
    using that c by (auto simp: length_group_msg)
  ultimately show ?thesis using that e by blast
qed

definition addressed :: "u8 list list \<Rightarrow> totempg_group_instance \<Rightarrow> bool" where
  "addressed gs i \<longleftrightarrow> (\<exists>g \<in> set gs. g \<in> set (gi_groups i))"

lemma group_name_matches_ok:
  assumes "mem_has m name (concat gs)" "name + length (concat gs) \<le> assembly_size env"
  shows "group_name_matches env m name (map length gs) groups = Inr (\<exists>g \<in> set gs. g \<in> set groups)"
  using assms
proof (induction gs arbitrary: name)
  case (Cons g gs)
  have "mem_has m name g" using Cons.prems by simp
  then have g: "get_bytes m name (length g) = g" by (simp add: mem_has_def)
  have "list_ex (\<lambda>h. length g = length h \<and> h = get_bytes m name (length g)) groups \<longleftrightarrow> g \<in> set groups"
    unfolding g by (auto simp: list_ex_iff)
  then show ?case using Cons.IH [of "name + length g"] Cons.prems by (auto simp: add.assoc)
qed simp

lemma group_matches_ok:
  assumes h: "mem_has m base (group_msg (big_endian env) x)" and ok: "message_ok x"
    and size: "base + length (group_msg (big_endian env) x) \<le> assembly_size env"
  shows "group_matches env m base (gi_groups i) =
           Inr (addressed (fst x) i, of_nat (2 * (length (fst x) + 1) + length (concat (fst x))))"
proof -
  let ?big = "big_endian env" and ?ws = "of_nat (length (fst x)) # map (\<lambda>g. of_nat (length g)) (fst x) :: u16 list"
  have s: "mem_has m base (shorts ?big ?ws)" using h by (simp only: group_msg_shorts mem_has_append)
  then have n: "unat (short_at ?big m base) = length (fst x)"
    using ok short_at_shorts [OF s, of 0]
    by (simp add: unat_of_nat_u16 message_ok_def MAX_GROUPS_PER_MSG_def)
  have "unat (short_at ?big m (base + 2 * i)) = length (fst x ! (i - 1))" if "i \<in> {1..<length (fst x) + 1}" for i
    using that ok short_at_shorts [OF s, of i] by (cases i) (auto simp: unat_of_nat_u16 message_ok_def)
  then have "group_lens ?big m base = map (\<lambda>i. length (fst x ! (i - 1))) [1..<length (fst x) + 1]"
    unfolding group_lens_def n by (intro map_cong) auto
  also have "\<dots> = map length (fst x)" by (rule nth_equalityI) (auto simp: nth_upt simp del: upt_Suc)
  finally have l: "group_lens ?big m base = map length (fst x)" .
  have "mem_has m (base + 2 * (length (fst x) + 1)) (concat (fst x))"
    using h by (simp add: group_msg_shorts add.commute)
  moreover have "base + 2 * (length (fst x) + 1) + length (concat (fst x)) \<le> assembly_size env"
    using size by (simp add: length_group_msg)
  ultimately have g: "group_name_matches env m (base + 2 * (length (fst x) + 1)) (map length (fst x)) (gi_groups i) =
      Inr (addressed (fst x) i)"
    unfolding addressed_def by (rule group_name_matches_ok)
  have "sum_list (map length (fst x)) = length (concat (fst x))" by (simp add: length_concat)
  then show ?thesis
    using g size unfolding group_matches_def Let_def n l by (simp add: length_group_msg)
qed

text \<open>What the instances of the layer above get of a message.\<close>

definition group_deliveries :: "totempg_group_instance list \<Rightarrow> u32 \<Rightarrow> bool \<Rightarrow> u8 list list \<times> u8 list \<Rightarrow> pg_effect list" where
  "group_deliveries is node e x =
     map (\<lambda>i. Pg_deliver (gi_handle i) node (snd x) e) (filter (addressed (fst x)) is)"

definition pg_emits :: "pg_effect list \<Rightarrow> totempg \<Rightarrow> totempg" where
  "pg_emits es s = s\<lparr>pg_effects := rev es @ pg_effects s\<rparr>"

lemma pg_emits_simps [simp]:
  "pg_emits [] s = s" "pg_emits es' (pg_emits es s) = pg_emits (es @ es') s" "pg_emit e s = pg_emits [e] s"
  "totempg_groups_list (pg_emits es s) = totempg_groups_list s"
  "pg_effects (pg_emits es s) = rev es @ pg_effects s"
  by (simp_all add: pg_emits_def pg_emit_def)

lemma app_deliver_instances_ok:
  assumes h: "mem_has m base (group_msg (big_endian env) x)" and ok: "message_ok x"
    and size: "base + length (group_msg (big_endian env) x) \<le> assembly_size env"
  shows "app_deliver_instances env node m base (length (group_msg (big_endian env) x)) e is s =
           Inr (pg_emits (group_deliveries is node e x) s)"
proof (induction "is" arbitrary: s)
  case Nil
  then show ?case by (simp add: group_deliveries_def)
next
  case (Cons i "is")
  let ?n = "2 * (length (fst x) + 1) + length (concat (fst x))"
  have b: "?n + length (snd x) \<le> MESSAGE_SIZE_MAX" using ok by (simp add: message_ok_def)
  then have l: "length (group_msg (big_endian env) x) = ?n + length (snd x)" "?n + length (snd x) < 2 ^ 32"
    by (simp_all add: length_group_msg MESSAGE_SIZE_MAX_def)
  then have n: "unat (of_nat ?n :: u32) = ?n" by (intro unat_of_nat_u32) simp
  have "(of_nat (?n + length (snd x)) :: u32) - of_nat ?n = of_nat (length (snd x))" by (simp only: of_nat_add) simp
  then have d: "unat (of_nat (length (group_msg (big_endian env) x)) - of_nat ?n :: u32) = length (snd x)"
    using l by (simp only: l(1)) (simp add: unat_of_nat_u32)
  have "mem_has m (base + ?n) (snd x)" using h by (simp add: group_msg_def add.assoc)
  then have g: "get_bytes m (base + ?n) (length (snd x)) = snd x" by (simp add: mem_has_def)
  have "app_deliver_instance env node m base (length (group_msg (big_endian env) x)) e i s =
      Inr (pg_emits (group_deliveries [i] node e x) s)"
    using size l(1) unfolding app_deliver_instance_def group_matches_ok [OF h ok size] bindE_Inr prod.case Let_def n d g
    by (simp add: group_deliveries_def add.assoc)
  then show ?case using Cons.IH by (simp add: group_deliveries_def)
qed

lemma app_deliver_fn_ok:
  assumes h: "mem_has m base (group_msg big' x)" and ok: "message_ok x"
    and size: "base + length (group_msg big' x) \<le> assembly_size env"
  defines "e \<equiv> big_endian env \<noteq> big'"
  obtains m' where "app_deliver_fn env node m base (length (group_msg big' x)) e s =
      Inr (m', pg_emits (group_deliveries (totempg_groups_list s) node e x) s)"
    "\<And>i. i < base \<or> base + length (group_msg big' x) \<le> i \<Longrightarrow> m' i = m i"
proof -
  have l: "length (group_msg big' x) = length (group_msg (big_endian env) x)" by (simp add: length_group_msg)
  show ?thesis
  proof (cases e)
    case True
    then have b: "big' = (\<not> big_endian env)" by (auto simp: e_def)
    obtain m' where m: "group_endian_convert env base m = Inr m'" "mem_has m' base (group_msg (big_endian env) x)"
        "\<And>i. i < base \<or> base + length (group_msg (big_endian env) x) \<le> i \<Longrightarrow> m' i = m i"
      using group_convert_ok [OF h [unfolded b] ok] size b by auto
    show ?thesis
      using that [of m'] m(1,3) app_deliver_instances_ok [OF m(2) ok] size True
      by (simp add: app_deliver_fn_def l)
  next
    case False
    then have b: "big' = big_endian env" by (auto simp: e_def)
    show ?thesis
      using that [of m] app_deliver_instances_ok [OF h [unfolded b] ok] size False b by (simp add: app_deliver_fn_def)
  qed
qed

section \<open>Delivery of a packet\<close>

abbreviation msgs_bytes :: "bool \<Rightarrow> (u8 list list \<times> u8 list) list \<Rightarrow> u8 list" where
  "msgs_bytes big xs \<equiv> concat (map (group_msg big) xs)"

lemma deliver_messages_ok:
  assumes "mem_has (as_data a) base (msgs_bytes big' xs)" "\<forall>x \<in> set xs. message_ok x"
    and "base + length (msgs_bytes big' xs) \<le> assembly_size env"
    and "xs \<noteq> [] \<Longrightarrow> len = length (group_msg big' (hd xs)) \<and> lens i = Inr l0 \<and> int (base + len) = as_index a + int l0"
    and "\<And>j. 0 < j \<Longrightarrow> j < length xs \<Longrightarrow> lens (i + int j) = Inr (length (group_msg big' (xs ! j)))"
  defines "e \<equiv> big_endian env \<noteq> big'"
  shows "\<exists>m. deliver_messages env node lens e (length xs) i base len a s =
      Inr (a\<lparr>as_data := m, as_index := (if xs = [] then as_index a else int (base + length (msgs_bytes big' xs)))\<rparr>,
           pg_emits (concat (map (group_deliveries (totempg_groups_list s) node e) xs)) s) \<and>
    (\<forall>k \<ge> base + length (msgs_bytes big' xs). m k = as_data a k)"
  using assms(1-5)
proof (induction xs arbitrary: base i len l0 a s)
  case Nil
  then show ?case by (intro exI [of _ "as_data a"]) simp
next
  case (Cons x xs)
  have x: "mem_has (as_data a) base (group_msg big' x)" "message_ok x"
    "base + length (group_msg big' x) \<le> assembly_size env" using Cons.prems by auto
  have l: "len = length (group_msg big' x)" "lens i = Inr l0" "int (base + len) = as_index a + int l0"
    using Cons.prems(4) by auto
  obtain m where m: "app_deliver_fn env node (as_data a) base (length (group_msg big' x)) e s =
      Inr (m, pg_emits (group_deliveries (totempg_groups_list s) node e x) s)"
    "\<And>i. i < base \<or> base + length (group_msg big' x) \<le> i \<Longrightarrow> m i = as_data a i"
    unfolding e_def using app_deliver_fn_ok [OF x] by blast
  let ?a = "a\<lparr>as_data := m, as_index := as_index a + int l0\<rparr>"
  let ?s = "pg_emits (group_deliveries (totempg_groups_list s) node e x) s"
  have i: "as_index ?a = int (base + len)" using l by simp
  show ?case
  proof (cases "xs = []")
    case True
    then show ?thesis using m l i by (intro exI [of _ m]) (simp add: Let_def)
  next
    case False
    then obtain y ys where y: "xs = y # ys" by (cases xs) auto
    have n: "lens (i + 1) = Inr (length (group_msg big' y))" using Cons.prems(5) [of 1] y by simp
    have "mem_has (as_data a) (base + len) (msgs_bytes big' xs)" using Cons.prems(1) l(1) by simp
    then have h: "mem_has m (base + len) (msgs_bytes big' xs)" by (rule mem_has_cong) (use m(2) l(1) in simp)
    have "\<exists>m'. deliver_messages env node lens e (length xs) (i + 1) (base + len) (length (group_msg big' y)) ?a ?s =
      Inr (?a\<lparr>as_data := m', as_index := (if xs = [] then as_index ?a else int (base + len + length (msgs_bytes big' xs)))\<rparr>,
           pg_emits (concat (map (group_deliveries (totempg_groups_list ?s) node e) xs)) ?s) \<and>
      (\<forall>k \<ge> base + len + length (msgs_bytes big' xs). m' k = as_data ?a k)"
    proof (rule Cons.IH [of ?a "base + len" "length (group_msg big' y)" "i + 1" "length (group_msg big' y)" ?s])
      fix j :: nat
      assume "0 < j" "j < length xs"
      then show "lens (i + 1 + int j) = Inr (length (group_msg big' (xs ! j)))"
        using Cons.prems(5) [of "Suc j"] by (simp add: add.assoc)
    qed (use h Cons.prems(2,3) l(1) n i y in auto)
    then obtain m' where m': "deliver_messages env node lens e (length xs) (i + 1) (base + len) (length (group_msg big' y)) ?a ?s =
      Inr (?a\<lparr>as_data := m', as_index := int (base + len + length (msgs_bytes big' xs))\<rparr>,
           pg_emits (concat (map (group_deliveries (totempg_groups_list s) node e) xs)) ?s)"
      "\<forall>k \<ge> base + len + length (msgs_bytes big' xs). m' k = m k" using False by auto
    have "nat (as_index a + int l0) = base + len" using l(3) by simp
    then have "deliver_messages env node lens e (length (x # xs)) i base len a s =
        deliver_messages env node lens e (length xs) (i + 1) (base + len) (length (group_msg big' y)) ?a ?s"
      using m(1) l n False by (simp add: Let_def)
    then show ?thesis
      using m' m(2) l(1) by (intro exI [of _ m']) (simp add: add.assoc)
  qed
qed

section \<open>Reading a packet\<close>

definition part_lens :: "packet \<Rightarrow> u16 list" where
  "part_lens p = map (\<lambda>x. of_nat (length x)) (p_parts p)"

lemma short_bytes_pair: "short_bytes big w = [short_bytes big w ! 0, short_bytes big w ! 1]"
  by (simp add: short_bytes_def Let_def)

lemma shorts_nth:
  "i < length ws \<Longrightarrow> shorts big ws ! (2 * i) = short_bytes big (ws ! i) ! 0 \<and>
     shorts big ws ! Suc (2 * i) = short_bytes big (ws ! i) ! 1"
proof (induction ws arbitrary: i)
  case (Cons w ws)
  then show ?case by (cases i) (auto simp: nth_append)
qed simp

text \<open>The packet as the receiver reads it: the number of messages in its own byte order.\<close>

definition read_packet :: "bool \<Rightarrow> bool \<Rightarrow> packet \<Rightarrow> u8 list" where
  "read_packet big big' p =
     short_bytes big' 0 @ short_bytes big' 0 @ [p_fragmented p, p_continuation p] @
     short_bytes big (of_nat (length (p_parts p))) @ shorts big' (part_lens p) @ concat (p_parts p)"

lemma packet_bytes_parts:
  "packet_bytes big p = short_bytes big 0 @ short_bytes big 0 @ [p_fragmented p, p_continuation p] @
     short_bytes big (of_nat (length (p_parts p))) @ shorts big (part_lens p) @ concat (p_parts p)"
  by (simp add: packet_bytes_def mcast_bytes_def packet_header_def shorts_def part_lens_def comp_def)

lemma mcast_of_packet:
  fixes p :: packet
  assumes "e \<longleftrightarrow> big \<noteq> big'"
  defines "h0 \<equiv> mcast_of big (packet_bytes big' p)"
  defines "h \<equiv> if e then h0\<lparr>msg_count := swab16 (msg_count h0)\<rparr> else h0"
  shows "fragmented h = p_fragmented p" "continuation h = p_continuation p"
    "msg_count h = of_nat (length (p_parts p))"
    "take 6 (packet_bytes big' p) @ short_bytes big (msg_count h) @ drop 8 (packet_bytes big' p) = read_packet big big' p"
proof -
  let ?n = "of_nat (length (p_parts p)) :: u16"
  obtain z0 z1 where z: "short_bytes big' 0 = [z0, z1]" using short_bytes_pair by blast
  obtain a b where ab: "short_bytes big' ?n = [a, b]" using short_bytes_pair by blast
  have r: "packet_bytes big' p = z0 # z1 # z0 # z1 # p_fragmented p # p_continuation p # a # b #
      shorts big' (part_lens p) @ concat (p_parts p)"
    by (simp add: packet_bytes_parts z ab)
  have c: "short_of big a b = as_seen big big' ?n"
    using short_of_bytes [of big big' ?n] ab by (simp add: as_seen_def)
  have h0: "fragmented h0 = p_fragmented p" "continuation h0 = p_continuation p" "msg_count h0 = as_seen big big' ?n"
    unfolding h0_def r using c by (simp_all add: mcast_of_def)
  then show h: "fragmented h = p_fragmented p" "continuation h = p_continuation p" "msg_count h = ?n"
    using assms(1) by (auto simp: h_def as_seen_def)
  show "take 6 (packet_bytes big' p) @ short_bytes big (msg_count h) @ drop 8 (packet_bytes big' p) = read_packet big big' p"
    unfolding h(3) read_packet_def r by (simp add: z)
qed

lemma read_packet_fields:
  "length (read_packet big big' p) = 8 + 2 * length (p_parts p) + length (concat (p_parts p))"
  "drop (8 + length (p_parts p) * 2) (read_packet big big' p) = concat (p_parts p)"
  by (simp_all add: read_packet_def part_lens_def drop_Cons')

lemma msg_lens_packet:
  assumes e: "e \<longleftrightarrow> big_endian env \<noteq> big'" and i: "i < length (p_parts p)"
    and l: "\<forall>x \<in> set (p_parts p). length x < 65536" and f: "8 + 2 * length (p_parts p) \<le> pg_frame_size env"
  shows "msg_lens env (read_packet (big_endian env) big' p) (length (p_parts p)) e (int i) = Inr (length (p_parts p ! i))"
proof -
  let ?r = "read_packet (big_endian env) big' p" and ?w = "part_lens p ! i"
  have w: "?w = of_nat (length (p_parts p ! i))" "i < length (part_lens p)" using i by (simp_all add: part_lens_def)
  have "?r ! (8 + 2 * i + k) = shorts big' (part_lens p) ! (2 * i + k)" if "k < 2" for k
    using that w(2) by (simp add: read_packet_def nth_append)
  from this [of 0] this [of 1] have "?r ! (8 + 2 * i) = short_bytes big' ?w ! 0" "?r ! Suc (8 + 2 * i) = short_bytes big' ?w ! 1"
    using shorts_nth [OF w(2), of big'] by simp_all
  then have "short_of (big_endian env) (?r ! (8 + 2 * i)) (?r ! Suc (8 + 2 * i)) = as_seen (big_endian env) big' ?w"
    using short_of_bytes [of "big_endian env" big' ?w] by (simp add: as_seen_def)
  moreover have "unat ?w = length (p_parts p ! i)" using l i w(1) by (simp add: unat_of_nat_u16)
  ultimately show ?thesis
    using i f e by (auto simp: msg_lens_def Let_def sizeof_totempg_mcast_def as_seen_def)
qed

section \<open>The assembly buffer of a sender\<close>

text \<open>
  What the receiver has of a message of the node: nothing, with no buffer in use, or the bytes \<open>acc\<close>
  that end with the fragment \<open>f\<close>.
\<close>

definition buffer_of :: "assembly list \<Rightarrow> u32 \<Rightarrow> assembly \<Rightarrow> bool" where
  "buffer_of l node a \<longleftrightarrow>
     (\<exists>xs ys. l = xs @ a # ys \<and> as_nodeid a = node \<and> node \<notin> as_nodeid ` set (xs @ ys))"

definition holds_part :: "assembly \<Rightarrow> u8 list \<Rightarrow> u8 \<Rightarrow> bool" where
  "holds_part a acc f \<longleftrightarrow> mem_has (as_data a) 0 acc \<and> as_index a = int (length acc) \<and>
     as_last_frag_num a = f \<and> as_throw_away_mode a = THROW_AWAY_INACTIVE"

definition assembled :: "totempg \<Rightarrow> u32 \<Rightarrow> u8 list \<Rightarrow> u8 \<Rightarrow> bool" where
  "assembled r node acc f \<longleftrightarrow>
     (if f = 0 then acc = [] \<and> node \<notin> as_nodeid ` set (active_assembly_list r)
      else \<exists>a. buffer_of (active_assembly_list r) node a \<and> holds_part a acc f)"

lemma active_put [simp]: "active_assembly_list (put_active_assembly_list l s) = l"
  by (simp add: active_assembly_list_def put_active_assembly_list_def)

lemma put_active_fields [simp]:
  "totempg_groups_list (put_active_assembly_list l s) = totempg_groups_list s"
  "pg_effects (put_active_assembly_list l s) = pg_effects s"
  by (simp_all add: put_active_assembly_list_def)

lemma active_emits [simp]: "active_assembly_list (pg_emits es s) = active_assembly_list s"
  by (simp add: active_assembly_list_def pg_emits_def)

lemma active_free [simp]: "active_assembly_list (s\<lparr>assembly_list_free := l\<rparr>) = active_assembly_list s"
  by (simp add: active_assembly_list_def)

lemma find_buffer: "buffer_of l node a \<Longrightarrow> find (\<lambda>a. node = as_nodeid a) l = Some a"
proof -
  assume "buffer_of l node a"
  then obtain xs ys where l: "l = xs @ a # ys" "as_nodeid a = node" "node \<notin> as_nodeid ` set (xs @ ys)"
    by (auto simp: buffer_of_def)
  then have "find (\<lambda>a. node = as_nodeid a) xs = None" by (auto simp: find_None_iff)
  then show ?thesis using l by (induction xs arbitrary: l) (auto split: if_splits)
qed

lemma replace_buffer:
  assumes "buffer_of l node a" "as_nodeid b = node"
  shows "buffer_of (replace_assembly b l) node b" "node \<notin> as_nodeid ` set (remove_assembly node l)"
proof -
  obtain xs ys where l: "l = xs @ a # ys" "as_nodeid a = node" "node \<notin> as_nodeid ` set (xs @ ys)"
    using assms(1) by (auto simp: buffer_of_def)
  have r: "replace_assembly b (xs @ a # ys) = xs @ b # ys" "remove_assembly node (xs @ a # ys) = xs @ ys"
    using l(2,3) assms(2) by (induction xs) auto
  show "buffer_of (replace_assembly b l) node b" using l assms(2) unfolding buffer_of_def r l(1) by blast
  show "node \<notin> as_nodeid ` set (remove_assembly node l)" using l unfolding r l(1) by auto
qed

lemma assembly_ref_ok:
  assumes "assembled r node acc f"
  obtains a s where "assembly_ref env node r = (a, s)" "buffer_of (active_assembly_list s) node a" "holds_part a acc f"
    "totempg_groups_list s = totempg_groups_list r" "pg_effects s = pg_effects r"
proof (cases "f = 0")
  case False
  then obtain a where a: "buffer_of (active_assembly_list r) node a" "holds_part a acc f"
    using assms by (auto simp: assembled_def)
  then have "assembly_ref env node r = (a, r)" by (simp add: assembly_ref_def find_buffer)
  then show ?thesis using that a by simp
next
  case True
  then have n: "acc = []" "node \<notin> as_nodeid ` set (active_assembly_list r)" using assms by (auto simp: assembled_def)
  then have fd: "find (\<lambda>a. node = as_nodeid a) (active_assembly_list r) = None" by (auto simp: find_None_iff)
  have b: "buffer_of (a # active_assembly_list r) node a" if "as_nodeid a = node" for a
    unfolding buffer_of_def using that n(2) by (intro exI [of _ "[]"] exI [of _ "active_assembly_list r"]) simp
  define a where "a = (case assembly_list_free r of
      x # xs \<Rightarrow> x\<lparr>as_nodeid := node, as_index := 0, as_last_frag_num := 0, as_throw_away_mode := THROW_AWAY_INACTIVE\<rparr>
    | [] \<Rightarrow> \<lparr>as_nodeid = node, as_data = (fresh_data env)(0 := 0), as_index = 0,
                        as_last_frag_num = 0, as_throw_away_mode = THROW_AWAY_INACTIVE\<rparr>)"
  define s where "s = put_active_assembly_list (a # active_assembly_list r)
    (case assembly_list_free r of x # xs \<Rightarrow> r\<lparr>assembly_list_free := xs\<rparr> | [] \<Rightarrow> r)"
  have "assembly_ref env node r = (a, s)"
    by (simp add: assembly_ref_def fd a_def s_def Let_def split: list.split)
  moreover have "as_nodeid a = node" "holds_part a acc f"
    using True n(1) by (auto simp: a_def holds_part_def split: list.split)
  moreover have "totempg_groups_list s = totempg_groups_list r" "pg_effects s = pg_effects r"
    by (auto simp: s_def split: list.split)
  ultimately show ?thesis using that [of a s] b by (simp add: s_def)
qed

section \<open>A packet in the buffer\<close>

definition pieces :: "u8 list \<Rightarrow> packet \<Rightarrow> u8 list list" where
  "pieces acc p = (acc @ hd (p_parts p)) # tl (p_parts p)"

text \<open>The messages a packet completes, and what is left of the last one.\<close>

definition completed :: "u8 list \<Rightarrow> packet \<Rightarrow> u8 list list" where
  "completed acc p = (if p_fragmented p = 0 then pieces acc p else butlast (pieces acc p))"

definition remainder :: "u8 list \<Rightarrow> packet \<Rightarrow> u8 list" where
  "remainder acc p = (if p_fragmented p = 0 then [] else last (pieces acc p))"

lemma pieces_split: "concat (completed acc p) @ remainder acc p = acc @ concat (p_parts p)" if "p_parts p \<noteq> []"
proof -
  have "concat (pieces acc p) = acc @ concat (p_parts p)" using that by (cases "p_parts p") (auto simp: pieces_def)
  moreover have "concat (butlast (pieces acc p)) @ last (pieces acc p) = concat (pieces acc p)"
    using concat_append [of "butlast (pieces acc p)" "[last (pieces acc p)]"]
    by (simp add: append_butlast_last_id pieces_def del: butlast.simps last.simps)
  ultimately show ?thesis by (simp add: completed_def remainder_def)
qed

lemma length_completed:
  "p_parts p \<noteq> [] \<Longrightarrow>
     length (completed acc p) = (if p_fragmented p = 0 then length (p_parts p) else length (p_parts p) - 1)"
  by (cases "p_parts p") (auto simp: completed_def pieces_def)

lemma length_completed_nth:
  assumes "p_parts p \<noteq> []" "j < length (completed acc p)"
  shows "length (completed acc p ! j) = (if j = 0 then length acc else 0) + length (p_parts p ! j)"
proof -
  obtain x ys where x: "p_parts p = x # ys" using assms(1) by (cases "p_parts p") auto
  have "completed acc p ! j = pieces acc p ! j"
    using assms(2) by (auto simp: completed_def nth_butlast split: if_splits)
  then show ?thesis using x by (cases j) (auto simp: pieces_def)
qed

lemma put_assembled:
  assumes "buffer_of (active_assembly_list s) node a0" "as_nodeid b = node" "holds_part b acc f" "f \<noteq> 0"
  shows "assembled (put_assembly b s) node acc f" "totempg_groups_list (put_assembly b s) = totempg_groups_list s"
    "pg_effects (put_assembly b s) = pg_effects s"
  using replace_buffer(1) [OF assms(1,2)] assms(3,4) by (auto simp: put_assembly_def assembled_def)

text \<open>The buffer after the complete messages have been delivered.\<close>

lemma assembly_finish_ok:
  assumes b: "buffer_of (active_assembly_list s) node a0" "as_nodeid a = node" and p: "p_parts p \<noteq> []" "length (p_parts p) < 65536"
    and h: "fragmented h = p_fragmented p" "msg_count h = of_nat (length (p_parts p))"
    and l: "p_fragmented p \<noteq> 0 \<Longrightarrow> lens (int (length (completed acc p))) = Inr (length (last (p_parts p)))"
    and m: "mem_has (as_data a) (length (concat (completed acc p))) (remainder acc p)"
    and i: "as_index a = int (if completed acc p = [] then length acc else length (concat (completed acc p)))"
    and a: "as_last_frag_num a = p_fragmented p" "as_throw_away_mode a = THROW_AWAY_INACTIVE"
    and size: "length acc + length (concat (p_parts p)) \<le> assembly_size env"
  shows "\<exists>t. assembly_finish env h lens (int (length (completed acc p))) a s = Inr t \<and>
      assembled t node (remainder acc p) (p_fragmented p) \<and>
      totempg_groups_list t = totempg_groups_list s \<and> pg_effects t = pg_effects s"
proof -
  have c1: "msg_count h > 1 \<longleftrightarrow> 1 < length (p_parts p)"
    using p(2) unfolding h(2) word_less_nat_alt by (simp add: unat_of_nat_u16)
  consider (all) "p_fragmented p = 0" | (many) "p_fragmented p \<noteq> 0" "1 < length (p_parts p)"
    | (one) "p_fragmented p \<noteq> 0" "length (p_parts p) = 1" using p(1) by (cases "p_parts p") force+
  then show ?thesis
  proof cases
    case all
    then show ?thesis
      using h(1) replace_buffer(2) [OF b] b(2)
      by (simp add: assembly_finish_def assembly_deref_def assembled_def remainder_def)
  next
    case many
    obtain x xs where xs: "p_parts p = x # xs" "xs \<noteq> []" using many(2) by (cases "p_parts p") auto
    then have c: "completed acc p = (acc @ x) # butlast xs" "remainder acc p = last (p_parts p)"
      using many by (simp_all add: completed_def remainder_def pieces_def)
    let ?l = "length (last (p_parts p))" and ?i = "length (concat (completed acc p))"
    have "completed acc p \<noteq> []" using c(1) by simp
    then have ni: "nat (as_index a) = ?i" using i by simp
    have g: "get_bytes (as_data a) ?i ?l = remainder acc p" using m c(2) by (simp add: mem_has_def)
    have "?i + ?l \<le> assembly_size env" using pieces_split [OF p(1), of acc] size c(2) by (metis length_append)
    then have f: "assembly_finish env h lens (int (length (completed acc p))) a s =
        Inr (put_assembly (a\<lparr>as_data := put_bytes 0 (remainder acc p) (as_data a), as_index := int ?l\<rparr>) s)"
      using many l h(1) c1 g by (simp add: assembly_finish_def ni)
    have "holds_part (a\<lparr>as_data := put_bytes 0 (remainder acc p) (as_data a), as_index := int ?l\<rparr>)
        (remainder acc p) (p_fragmented p)"
      using a c(2) by (simp add: holds_part_def mem_has_put)
    then show ?thesis unfolding f using many(1) b put_assembled [OF b(1)] by simp
  next
    case one
    then obtain x where x: "p_parts p = [x]" by (cases "p_parts p") auto
    then have c: "completed acc p = []" "remainder acc p = acc @ x"
      using one(1) by (simp_all add: completed_def remainder_def pieces_def)
    have "assembly_finish env h lens (int (length (completed acc p))) a s =
        Inr (put_assembly (a\<lparr>as_index := int (length (remainder acc p))\<rparr>) s)"
      using one l h(1) c1 i c x by (simp add: assembly_finish_def)
    moreover have "holds_part (a\<lparr>as_index := int (length (remainder acc p))\<rparr>) (remainder acc p) (p_fragmented p)"
      using a m c by (simp add: holds_part_def)
    ultimately show ?thesis using one(1) b put_assembled [OF b(1)] by simp
  qed
qed

lemma assembly_packet_ok:
  assumes b: "buffer_of (active_assembly_list s) node a0" "as_nodeid a = node" and p: "p_parts p \<noteq> []" "length (p_parts p) < 65536"
    and h: "fragmented h = p_fragmented p" "continuation h = p_continuation p" "msg_count h = of_nat (length (p_parts p))"
    and l: "\<And>i. i < length (p_parts p) \<Longrightarrow> lens (int i) = Inr (length (p_parts p ! i))"
    and m: "mem_has (as_data a) 0 (acc @ concat (p_parts p))" and i: "as_index a = int (length acc)"
    and a: "as_last_frag_num a = p_continuation p" "as_throw_away_mode a = THROW_AWAY_INACTIVE"
    and size: "length acc + length (concat (p_parts p)) \<le> assembly_size env"
    and xs: "completed acc p = map (group_msg big') xs" "\<forall>x \<in> set xs. message_ok x"
  defines "e \<equiv> big_endian env \<noteq> big'"
  shows "\<exists>t. assembly_packet env node h lens e a s = Inr t \<and> assembled t node (remainder acc p) (p_fragmented p) \<and>
      totempg_groups_list t = totempg_groups_list s \<and>
      pg_effects t = rev (concat (map (group_deliveries (totempg_groups_list s) node e) xs)) @ pg_effects s"
proof -
  let ?cnt = "if fragmented h \<noteq> 0 then uint (msg_count h) - 1 else uint (msg_count h)"
  let ?es = "concat (map (group_deliveries (totempg_groups_list s) node e) xs)"
  obtain x ys where x: "p_parts p = x # ys" using p(1) by (cases "p_parts p") auto
  have u: "uint (msg_count h) = int (length (p_parts p))"
    using p(2) unfolding h(3) by (simp add: uint_nat unat_of_nat_u16)
  have lx: "length (completed acc p) = length xs" using xs(1) by simp
  have cnt: "?cnt = int (length (completed acc p))"
    using x h(1) u length_completed [OF p(1), of acc] by simp
  define a1 where "a1 = a\<lparr>as_last_frag_num := fragmented h\<rparr>"
  have sp: "msgs_bytes big' xs @ remainder acc p = acc @ concat (p_parts p)"
    using pieces_split [OF p(1), of acc] xs(1) by simp
  have m1: "mem_has (as_data a1) 0 (msgs_bytes big' xs)" "mem_has (as_data a) (length (msgs_bytes big' xs)) (remainder acc p)"
    using m unfolding sp [symmetric] by (simp_all add: a1_def)
  have nth: "length (group_msg big' (xs ! j)) = (if j = 0 then length acc else 0) + length (p_parts p ! j)"
    "j < length (p_parts p)" if "j < length xs" for j
    using that length_completed_nth [OF p(1), of j acc] length_completed [OF p(1), of acc] xs(1)
    by (auto split: if_splits)
  have "\<exists>m'. deliver_messages env node lens e (length xs) 0 0 (length acc + length x) a1 s =
      Inr (a1\<lparr>as_data := m', as_index := (if xs = [] then as_index a1 else int (0 + length (msgs_bytes big' xs)))\<rparr>,
           pg_emits ?es s) \<and> (\<forall>k \<ge> 0 + length (msgs_bytes big' xs). m' k = as_data a1 k)"
    unfolding e_def
  proof (rule deliver_messages_ok [OF m1(1) xs(2), where ?l0.0 = "length x"])
    show "0 + length (msgs_bytes big' xs) \<le> assembly_size env"
      using size arg_cong [OF sp, of length] by simp
    assume "xs \<noteq> []"
    then show "length acc + length x = length (group_msg big' (hd xs)) \<and> lens 0 = Inr (length x) \<and>
        int (0 + (length acc + length x)) = as_index a1 + int (length x)"
      using nth [of 0] l [of 0] i x by (simp add: hd_conv_nth a1_def)
  next
    fix j :: nat
    assume "0 < j" "j < length xs"
    then show "lens (0 + int j) = Inr (length (group_msg big' (xs ! j)))" using nth [of j] l [of j] by simp
  qed
  then obtain m' where d: "deliver_messages env node lens e (length xs) 0 0 (length acc + length x) a1 s =
      Inr (a1\<lparr>as_data := m', as_index := (if xs = [] then as_index a1 else int (0 + length (msgs_bytes big' xs)))\<rparr>,
           pg_emits ?es s)" "\<forall>k \<ge> 0 + length (msgs_bytes big' xs). m' k = as_data a1 k" by blast
  define a2 where
    "a2 = a1\<lparr>as_data := m', as_index := (if xs = [] then as_index a1 else int (0 + length (msgs_bytes big' xs)))\<rparr>"
  have m2: "mem_has (as_data a2) (length (concat (completed acc p))) (remainder acc p)"
    using m1(2) unfolding xs(1) by (rule mem_has_cong) (use d(2) in \<open>simp add: a2_def a1_def\<close>)
  have ll: "lens (int (length (completed acc p))) = Inr (length (last (p_parts p)))" if "p_fragmented p \<noteq> 0"
    using that l [of "length (p_parts p) - 1"] p(1) length_completed [OF p(1), of acc] by (simp add: last_conv_nth)
  have "\<exists>t. assembly_finish env h lens (int (length (completed acc p))) a2 (pg_emits ?es s) = Inr t \<and>
      assembled t node (remainder acc p) (p_fragmented p) \<and>
      totempg_groups_list t = totempg_groups_list (pg_emits ?es s) \<and> pg_effects t = pg_effects (pg_emits ?es s)"
    by (rule assembly_finish_ok [where lens = lens and acc = acc and p = p, OF _ _ p h(1,3) ll m2 _ _ _ size])
      (use i xs(1) a h(1) b in \<open>auto simp: a2_def a1_def\<close>)
  moreover have "assembly_packet env node h lens e a s =
      assembly_finish env h lens (int (length (completed acc p))) a2 (pg_emits ?es s)"
    unfolding assembly_packet_def Let_def cnt
    using l [of 0] x a h(2) d(1) lx i unfolding a2_def [symmetric] by (simp flip: a1_def)
  ultimately show ?thesis by auto
qed

lemma sum_part_lens: "sum_list (map (\<lambda>i. length (xs ! i)) [0..<length xs]) = length (concat xs)"
proof -
  have "map (\<lambda>i. length (xs ! i)) [0..<length xs] = map length xs"
    by (metis map_nth map_map comp_apply map_cong)
  then show ?thesis by (simp add: length_concat)
qed

lemma deliver_packet:
  assumes r: "assembled r node acc (p_continuation p)" and f: "packet_fits mtu p"
    and mtu: "mtu < knet_max_packet_size env" "mtu \<le> 65536" and acc: "length acc \<le> MESSAGE_SIZE_MAX"
    and xs: "completed acc p = map (group_msg big') xs" "\<forall>x \<in> set xs. message_ok x"
  defines "e \<equiv> big_endian env \<noteq> big'"
  shows "\<exists>b t. totempg_deliver_fn env node (packet_bytes big' p) e r = Inr (b, t) \<and>
      assembled t node (remainder acc p) (p_fragmented p) \<and>
      totempg_groups_list t = totempg_groups_list r \<and>
      pg_effects t = rev (concat (map (group_deliveries (totempg_groups_list r) node e) xs)) @ pg_effects r"
proof -
  let ?big = "big_endian env" and ?n = "length (p_parts p)"
  let ?m = "read_packet ?big big' p"
  have p: "p_parts p \<noteq> []" "8 + 2 * ?n + length (concat (p_parts p)) \<le> mtu"
    using f by (auto simp: packet_fits_def length_packet_bytes)
  have n: "?n < 65536" "\<forall>x \<in> set (p_parts p). length x < 65536"
    using p(2) mtu(2) length_concat_member [of _ "p_parts p"] by force+
  obtain a s where a: "assembly_ref env node r = (a, s)" "buffer_of (active_assembly_list s) node a"
      "holds_part a acc (p_continuation p)" "totempg_groups_list s = totempg_groups_list r" "pg_effects s = pg_effects r"
    using assembly_ref_ok [OF r] .
  define h0 where "h0 = mcast_of ?big (packet_bytes big' p)"
  define h where "h = (if e then h0\<lparr>msg_count := swab16 (msg_count h0)\<rparr> else h0)"
  have ee: "e \<longleftrightarrow> ?big \<noteq> big'" by (simp add: e_def)
  note h = mcast_of_packet [OF ee, of p, folded h0_def, folded h_def]
  have cnt: "unat (msg_count h) = ?n" using h(3) n(1) by (simp add: unat_of_nat_u16)
  define lens where "lens = msg_lens env ?m ?n e"
  have fr: "8 + 2 * ?n \<le> pg_frame_size env" using p(2) mtu(1) by (simp add: pg_frame_size_def)
  have l: "lens (int i) = Inr (length (p_parts p ! i))" if "i < ?n" for i
    unfolding lens_def using msg_lens_packet [OF ee that n(2) fr] .
  then have "map (\<lambda>i. projr (lens (int i))) [0..<?n] = map (\<lambda>i. length (p_parts p ! i)) [0..<?n]" by simp
  then have sum: "sum_list (map (\<lambda>i. projr (lens (int i))) [0..<?n]) = length (concat (p_parts p))"
    by (simp only: sum_part_lens)
  have i: "as_index a = int (length acc)" using a(3) by (simp add: holds_part_def)
  have size: "length acc + length ?m < assembly_size env"
    using acc p(2) mtu(1) by (simp add: assembly_size_def read_packet_fields)
  let ?a = "a\<lparr>as_data := put_bytes (length acc) (concat (p_parts p)) (as_data a)\<rparr>"
  have md: "mem_has (as_data ?a) 0 (acc @ concat (p_parts p))"
    using a(3) mem_has_put [of "length acc"]
    by (auto simp: holds_part_def put_bytes_outside intro: mem_has_cong)
  have "\<exists>t. assembly_packet env node h lens e ?a s = Inr t \<and> assembled t node (remainder acc p) (p_fragmented p) \<and>
      totempg_groups_list t = totempg_groups_list s \<and>
      pg_effects t = rev (concat (map (group_deliveries (totempg_groups_list s) node e) xs)) @ pg_effects s"
    unfolding e_def
    by (rule assembly_packet_ok [where lens = lens and acc = acc and p = p, OF a(2) _ p(1) n(1) h(1,2,3) l md _ _ _ _ xs])
      (use a(2,3) size in \<open>auto simp: holds_part_def buffer_of_def read_packet_fields\<close>)
  then obtain t where t: "assembly_packet env node h lens e ?a s = Inr t" "assembled t node (remainder acc p) (p_fragmented p)"
      "totempg_groups_list t = totempg_groups_list s"
      "pg_effects t = rev (concat (map (group_deliveries (totempg_groups_list s) node e) xs)) @ pg_effects s" by auto
  have "totempg_deliver_fn env node (packet_bytes big' p) e r = Inr (?m, t)"
    using t(1) p size fr
    unfolding totempg_deliver_fn_def a(1) Let_def prod.case h0_def [symmetric] h_def [symmetric] h(4) cnt
      lens_def [symmetric] sum read_packet_fields sizeof_totempg_mcast_def i nat_int
    by (simp add: length_packet_bytes mult.commute)
  then show ?thesis using t a(4,5) by simp
qed

end
