(* ===== verification/Pg_Roundtrip.thy ===== *)
theory Pg_Roundtrip
  imports Pg_Assembly Srp_Reach
begin

text \<open>
  The process group layer as a whole: what a sender sends arrives as it was sent, sending returns,
  and where it can abort. The packets travel between the two sides over the ring protocol, which
  delivers them in order.
\<close>

section \<open>The stream determines the messages\<close>

lemma marks_cut:
  assumes "map Some a @ None # x = map Some b @ None # y"
  shows "a = b \<and> x = y"
  using assms
proof (induction a arbitrary: b)
  case Nil
  then show ?case by (cases b) auto
next
  case (Cons c a)
  then show ?case by (cases b) auto
qed

lemma marks_prefix: "marks a @ x = marks b \<Longrightarrow> \<exists>c. b = a @ c \<and> x = marks c"
proof (induction a arbitrary: b)
  case (Cons m a)
  then obtain n c where b: "b = n # c" by (cases b) auto
  then have "m = n \<and> marks a @ x = marks c" using Cons.prems by (intro marks_cut) simp
  then show ?case using Cons.IH b by auto
qed simp

lemma marks_no_end: "map Some a = marks b \<Longrightarrow> a = [] \<and> b = []"
proof (cases b)
  case (Cons m c)
  assume "map Some a = marks b"
  then have "None \<in> set (map Some a)" using Cons by simp
  then show ?thesis by auto
qed simp

lemma part_of_message:
  assumes "map Some acc @ x = marks (map (group_msg big) ms)" "\<forall>m \<in> set ms. message_ok m"
  shows "length acc \<le> MESSAGE_SIZE_MAX"
proof (cases ms)
  case Nil
  then show ?thesis using assms by simp
next
  case (Cons m ns)
  let ?g = "group_msg big m"
  have "length acc \<le> length ?g"
  proof (rule ccontr)
    assume "\<not> length acc \<le> length ?g"
    then have "(map Some acc @ x) ! length ?g \<noteq> None" by (simp add: nth_append)
    moreover have "marks (map (group_msg big) ms) ! length ?g = None" using Cons by (simp add: nth_append)
    ultimately show False using assms(1) by simp
  qed
  then show ?thesis using assms(2) Cons by (simp add: message_ok_def length_group_msg)
qed

lemma packet_marks_pieces:
  assumes "p_parts p \<noteq> []"
  shows "map Some acc @ packet_marks p = marks (completed acc p) @ map Some (remainder acc p)"
proof -
  obtain x ys where "p_parts p = x # ys" using assms by (cases "p_parts p") auto
  then show ?thesis
    by (cases "ys = []") (auto simp: packet_marks_def completed_def remainder_def pieces_def)
qed

section \<open>A sequence of packets\<close>

fun deliver_packets ::
  "pg_env \<Rightarrow> u32 \<Rightarrow> bool \<Rightarrow> u8 list list \<Rightarrow> totempg \<Rightarrow> totempg c_result" where
  "deliver_packets env node e [] r = Inr r"
| "deliver_packets env node e (b # bs) r =
     bindE (totempg_deliver_fn env node b e r) (\<lambda>(m, r1). deliver_packets env node e bs r1)"

lemma deliver_packets_ok:
  assumes "assembled r node acc f" "chained f pks g" "\<forall>p \<in> set pks. packet_fits mtu p"
    and "mtu < knet_max_packet_size env" "mtu \<le> 65536" "\<forall>m \<in> set ms. message_ok m"
    and "map Some acc @ stream pks @ marks ps = marks (map (group_msg big') ms)"
  defines "e \<equiv> big_endian env \<noteq> big'"
  shows "\<exists>t k acc'. deliver_packets env node e (map (packet_bytes big') pks) r = Inr t \<and>
    pg_effects t = rev (concat (map (group_deliveries (totempg_groups_list r) node e) (take k ms))) @ pg_effects r \<and>
    map Some acc' @ marks ps = marks (map (group_msg big') (drop k ms))"
  using assms(1-3,6-7)
proof (induction pks arbitrary: r acc f ms)
  case Nil
  then show ?case by (intro exI [of _ r] exI [of _ 0] exI [of _ acc]) simp
next
  case (Cons p pks)
  have p: "p_parts p \<noteq> []" "p_continuation p = f" "packet_fits mtu p"
    using Cons.prems by (auto simp: packet_fits_def)
  have "(marks (completed acc p) @ map Some (remainder acc p)) @ stream pks @ marks ps = marks (map (group_msg big') ms)"
    using Cons.prems(5) unfolding packet_marks_pieces [OF p(1), symmetric] by simp
  then have "marks (completed acc p) @ map Some (remainder acc p) @ stream pks @ marks ps = marks (map (group_msg big') ms)"
    by simp
  then obtain c where c: "map (group_msg big') ms = completed acc p @ c"
    "map Some (remainder acc p) @ stream pks @ marks ps = marks c" using marks_prefix by blast
  then obtain xs ns where ms: "ms = xs @ ns" "completed acc p = map (group_msg big') xs" "c = map (group_msg big') ns"
    by (auto simp: map_eq_append_conv)
  have ok: "\<forall>x \<in> set xs. message_ok x" "\<forall>x \<in> set ns. message_ok x" using Cons.prems(4) ms(1) by auto
  have "length acc \<le> MESSAGE_SIZE_MAX" using part_of_message [OF Cons.prems(5,4)] .
  then obtain b t where t: "totempg_deliver_fn env node (packet_bytes big' p) e r = Inr (b, t)"
      "assembled t node (remainder acc p) (p_fragmented p)" "totempg_groups_list t = totempg_groups_list r"
      "pg_effects t = rev (concat (map (group_deliveries (totempg_groups_list r) node e) xs)) @ pg_effects r"
    using deliver_packet [OF _ p(3) assms(4,5) _ ms(2) ok(1)] Cons.prems(1) p(2) unfolding e_def by blast
  obtain u k acc' where u: "deliver_packets env node e (map (packet_bytes big') pks) t = Inr u"
      "pg_effects u = rev (concat (map (group_deliveries (totempg_groups_list t) node e) (take k ns))) @ pg_effects t"
      "map Some acc' @ marks ps = marks (map (group_msg big') (drop k ns))"
    using Cons.IH [OF t(2) _ _ ok(2)] Cons.prems(2,3) c(2) ms(3) by auto
  show ?case
    using t(1,3,4) u ms(1)
    by (intro exI [of _ u] exI [of _ "length xs + k"] exI [of _ acc']) simp
qed

section \<open>Start\<close>

text \<open>The configuration leaves room for the headers, and the queue for at least one message.\<close>

definition pg_config :: "pg_env \<Rightarrow> totem_config \<Rightarrow> u32 \<Rightarrow> nat \<Rightarrow> bool" where
  "pg_config env cfg n q \<longleftrightarrow> n \<noteq> 0 \<and> 1 < q \<and> q < 2 ^ 31 \<and> 24 + 2 * sizeof_mcast < unat (net_mtu cfg) \<and>
     unat (net_mtu cfg) \<le> knet_max_packet_size env \<and> unat (net_mtu cfg) \<le> 65536"

lemma totempg_initialize_ok:
  assumes "pg_config env cfg n q"
  obtains s where "totempg_initialize cfg n q now d = Inr s" "buffer_holds env s [] []" "fragment_continuation s = 0"
    "packet_room s + 8 + 2 * sizeof_mcast = unat (net_mtu cfg)" "queue_room s = int q - 2"
proof -
  define c where "c = totemsrp_net_mtu_adjust cfg"
  have q: "n \<noteq> 0" "1 < q" "q < 2 ^ 31" and u: "114 < unat (net_mtu cfg)" "unat (net_mtu cfg) \<le> 65536"
      "unat (net_mtu cfg) \<le> knet_max_packet_size env"
    using assms by (auto simp: pg_config_def sizeof_mcast_def)
  have m: "unat (net_mtu c) = unat (net_mtu cfg) - 90"
    using u(1) by (simp add: c_def totemsrp_net_mtu_adjust_def sizeof_mcast_def unat_sub word_le_nat_alt)
  obtain p where p: "totemsrp_initialize c n q now = Inr p" "my_id p = Srp_addr n" "totem_config p = c"
    and pq: "\<not> my_token_held p" "waiting_trans_ack p"
      "new_message_queue_trans p = snd (cs_queue_init null_cs_queue zero_item (int q) 16 False True)"
    using totemsrp_initialize_ok [of q c n now] q by auto
  let ?q = "snd (cs_queue_init null_cs_queue zero_item (int q) 16 False True) :: message_item cs_queue"
  have iq: "cs_queue_inv ?q" "cs_queue_list ?q = []" "cs_queue_capacity ?q = q - 1"
    using q cs_queue_init_ok [of "int q" null_cs_queue zero_item 16 False]
    by (simp_all add: cs_queue_init_def cs_queue_list_def cs_queue_capacity_def Let_def nat_diff_distrib)
  define p1 where "p1 = put_callbacks TOTEM_CALLBACK_TOKEN_RECEIVED
    (\<lparr>tc_id = 1, tc_type = TOTEM_CALLBACK_TOKEN_RECEIVED, tc_delete = False\<rparr> # callbacks TOTEM_CALLBACK_TOKEN_RECEIVED p) p"
  have p1: "new_queue p1 = ?q" "my_id p1 = Srp_addr n" "totem_config p1 = c"
    using pq p by (simp_all add: p1_def put_callbacks_def new_queue_def)
  define t where "t = totempg_waiting_trans_ack_cb True (totempg_start p1)"
  define s where "s = t\<lparr>fragmentation_data := d, fragmentation_alloc := nat (c_size (uint (net_mtu cfg) - int sizeof_totempg_mcast)),
    totempg_size_limit := word_of_int (c_size (queue_room t - 1) * c_size (uint (net_mtu c) - int sizeof_totempg_mcast - 16))\<rparr>"
  have st: "srp t = p1" "srp s = p1" "fragment_continuation s = 0" "mcast_packed_msg_count s = 0" "fragment_size s = 0"
    by (simp_all add: s_def t_def totempg_waiting_trans_ack_cb_def totempg_start_def)
  have "nat (c_size (int k - 8)) = k - 8" if "8 \<le> k" "k \<le> 65536" for k
    using that by (simp add: nat_diff_distrib)
  from this [of "unat (net_mtu cfg)"]
  have "nat (c_size (uint (net_mtu cfg) - int sizeof_totempg_mcast)) = unat (net_mtu cfg) - 8"
    using u by (simp add: sizeof_totempg_mcast_def)
  then have al: "fragmentation_alloc s = unat (net_mtu cfg) - 8" by (simp add: s_def)
  have r: "ring_ok t" "ring_ok s" using iq q p1 st by (auto simp: ring_ok_def queue_room_def)
  have pr: "packet_room s = unat (net_mtu cfg) - 98" using st p1 m by (simp add: packet_room_def)
  have "buffer_holds env s [] []"
    using r st p1 m u al pr by (auto simp: buffer_holds_def mtu_ok_def pg_frame_size_def)
  moreover have cb: "totemsrp_callback_token_create 1 TOTEM_CALLBACK_TOKEN_RECEIVED False True p = Inr (0, p1)"
    unfolding p1_def by (rule callback_create_start [OF pq(1)])
  have av: "totemsrp_avail p1 = Inr (queue_room t)" using avail_eq [OF r(1)] st(1) by simp
  have "totempg_initialize cfg n q now d = Inr s"
    unfolding totempg_initialize_def Let_def c_def [symmetric] p(1) bindE_Inr cb prod.case av s_def t_def ..
  moreover have "queue_room s = int q - 2" using iq q st(2) p1(1) by (simp add: queue_room_def of_nat_diff)
  ultimately show ?thesis using that st pr u by (simp add: sizeof_mcast_def)
qed

section \<open>Properties\<close>

text \<open>(C5) Whatever messages a node sends to groups, in whatever portions, with the token arriving at
  any time in between, the packets it hands to the ring protocol give the messages back: a receiver
  that gets the packets in order returns from every one of them and delivers the messages in the order
  in which they were sent, each once, whole and unchanged, to exactly the group instances they are
  addressed to, also if its byte order is the other one. It has delivered all of them when the
  sender has nothing left in its buffer.\<close>

theorem messages_reassembled:
  assumes "totempg_initialize cfg n q now d = Inr s0" "pg_config env cfg n q" "\<forall>k. srp_buffer env k"
    and "pg_run env s0 packets ms s"
    and "knet_max_packet_size env' = knet_max_packet_size env" "node \<notin> as_nodeid ` set (active_assembly_list r)"
  shows "\<exists>r' k. deliver_packets env' node (big_endian env' \<noteq> big_endian env) packets r = Inr r' \<and>
    pg_effects r' = rev (concat (map (group_deliveries (totempg_groups_list r) node
      (big_endian env' \<noteq> big_endian env)) (take k ms))) @ pg_effects r \<and>
    (mcast_packed_msg_count s = 0 \<longrightarrow> k = length ms)"
proof -
  obtain t where t: "totempg_initialize cfg n q now d = Inr t" "buffer_holds env t [] []" "fragment_continuation t = 0"
    "packet_room t + 8 + 2 * sizeof_mcast = unat (net_mtu cfg)" using totempg_initialize_ok [OF assms(2)] by metis
  then have s0: "t = s0" using assms(1) by simp
  have "streaming env s0 packets ms s" using pg_run_streaming [OF assms(4,3)] t s0 by simp
  then obtain pks ps where s: "packets = map (packet_bytes (big_endian env)) pks" "buffer_holds env s ps []"
      "chained 0 pks (fragment_continuation s)" "\<forall>p \<in> set pks. packet_fits (packet_room s0 + 8) p"
      "stream pks @ marks ps = marks (map (group_msg (big_endian env)) ms)" "\<forall>m \<in> set ms. message_ok m"
    by (auto simp: streaming_def)
  have mtu: "packet_room s0 + 8 < knet_max_packet_size env'" "packet_room s0 + 8 \<le> 65536"
    using t(4) s0 assms(2,5) by (auto simp: pg_config_def sizeof_mcast_def)
  have a: "assembled r node [] 0" using assms(6) by (simp add: assembled_def)
  obtain r' k acc where r: "deliver_packets env' node (big_endian env' \<noteq> big_endian env) packets r = Inr r'"
      "pg_effects r' = rev (concat (map (group_deliveries (totempg_groups_list r) node
        (big_endian env' \<noteq> big_endian env)) (take k ms))) @ pg_effects r"
      "map Some acc @ marks ps = marks (map (group_msg (big_endian env)) (drop k ms))"
    using deliver_packets_ok [OF a s(3,4) mtu s(6), of ps "big_endian env"] s(1,5) by auto
  have "take k ms = take (length ms) ms" if "mcast_packed_msg_count s = 0"
  proof -
    have "ps = []" using that s(2) by (simp add: buffer_holds_def)
    then show ?thesis using r(3) marks_no_end [of acc "map (group_msg (big_endian env)) (drop k ms)"] by simp
  qed
  then show ?thesis
    using r(1,2) by (cases "mcast_packed_msg_count s = 0") (auto intro: exI [of _ k] exI [of _ "length ms"])
qed

definition demo_pg_env :: "bool \<Rightarrow> pg_env" where
  "demo_pg_env big = \<lparr>big_endian = big, knet_max_packet_size = 65536, qb_loop_med = 1, fresh_data = (\<lambda>_. 0),
     stale_lens = (\<lambda>_. 0), srp_buffer = (\<lambda>_. True)\<rparr>"

lemma demo_pg_env_simps [simp]:
  "big_endian (demo_pg_env b) = b" "knet_max_packet_size (demo_pg_env b) = 65536" "srp_buffer (demo_pg_env b) k"
  by (simp_all add: demo_pg_env_def)

lemma demo_pg_config: "pg_config (demo_pg_env b) demo_config 1 512"
  by (simp add: pg_config_def sizeof_mcast_def demo_config_def)

text \<open>A node sends one message, and the token arrives when the ring protocol has emptied its queue.\<close>

lemma demo_send:
  assumes h: "buffer_holds (demo_pg_env b) s [] []" and r: "6 \<le> queue_room s" and p: "8 < packet_room s - 16"
  obtains t where "totempg_groups_mcast_groups (demo_pg_env b) 0 [[97]] [[1, 2, 3]] s = Some (Inr (0, t))"
    "sends (demo_pg_env b) s [] [group_msg b ([[97]], [1, 2, 3])] t"
proof -
  let ?v = "[group_len_bytes b [[97]], [97], [1, 2, 3]]"
  have m: "message_ok ([[97]], concat [[1, 2, 3]])"
    by (simp add: message_ok_def MAX_GROUPS_PER_MSG_def MESSAGE_SIZE_MAX_def)
  have v: "iovec_mcast (demo_pg_env b) [[97]] [[1, 2, 3]] = Inr ?v"
    by (simp add: iovec_mcast_def MAX_GROUPS_PER_MSG_def MAX_IOVECS_FROM_APP_def)
  have sv: "sendable ?v" "concat ?v = group_msg b ([[97]], [1, 2, 3])" using sendable_group_msg [OF m _ v] by auto
  have l: "length (group_len_bytes b [[97]]) = 4" by simp
  then have n: "group_len_bytes b [[97]] \<noteq> []" by force
  have f: "packets_bound (packet_room s - 2) (filled ?v) = 6" using n l p by (simp add: filled_def packets_bound_def)
  have g: "\<not> queue_room s < int ((length (concat ?v) + 2 * length ([] :: u8 list list)) div (packet_room s - 16) + 1)"
    using p r l by simp
  show ?thesis
    using mcast_msg_result [OF h sv(1), of 0] f g r
    by cases (use that sv(2) v in \<open>auto simp: totempg_groups_mcast_groups_def\<close>)
qed

lemma demo_pg_run:
  "\<exists>s0 packets s. totempg_initialize demo_config 1 512 0 (\<lambda>_. 0) = Inr s0 \<and>
     pg_run (demo_pg_env b) s0 packets [([[97]], [1, 2, 3])] s \<and> mcast_packed_msg_count s = 0"
proof -
  let ?e = "demo_pg_env b" and ?m = "([[97]], concat [[1, 2, 3]]) :: u8 list list \<times> u8 list"
  obtain s0 where s0: "totempg_initialize demo_config 1 512 0 (\<lambda>_. 0) = Inr s0" "buffer_holds ?e s0 [] []"
      "packet_room s0 + 8 + 2 * sizeof_mcast = unat (net_mtu demo_config)" "queue_room s0 = int 512 - 2"
    using totempg_initialize_ok [OF demo_pg_config] by metis
  have pr: "packet_room s0 = 1402" using s0(3) by (simp add: sizeof_mcast_def demo_config_def)
  obtain t where t: "totempg_groups_mcast_groups ?e 0 [[97]] [[1, 2, 3]] s0 = Some (Inr (0, t))"
      "sends ?e s0 [] [group_msg b ([[97]], [1, 2, 3])] t"
    using demo_send [OF s0(2)] s0(4) pr by auto
  have ok: "message_ok ?m" by (simp add: message_ok_def MAX_GROUPS_PER_MSG_def MESSAGE_SIZE_MAX_def)
  have r1: "pg_run ?e s0 ([] @ new_packets s0 t) ([] @ [?m]) t"
    by (rule pg_run.send [OF pg_run.start ok _ t(1)]) simp
  obtain ps where ps: "buffer_holds ?e t ps []" "packet_room t = packet_room s0" using t(2) by (auto simp: sends_def sent_def)
  define u where "u = t\<lparr>srp := srp s0\<rparr>"
  have ro: "ring_ok u" "queue_room u = 510" using s0(2,4) by (auto simp: buffer_holds_def u_def ring_ok_def queue_room_def)
  have "unat (net_mtu (totem_config (srp t))) = unat (net_mtu (totem_config (srp s0)))"
    using ps(2) pr by (simp add: packet_room_def)
  then have ss: "send_side u = send_side t" by (simp add: send_side_def u_def word_unat_eq_iff)
  have r2: "pg_run ?e s0 ([] @ new_packets s0 t) ([] @ [?m]) u" using pg_run.other [OF r1 ss ro(1)] .
  have hu: "buffer_holds ?e u ps []" using buffer_holds_other [OF ps(1) ss ro(1)] .
  show ?thesis
  proof (cases "ps = []")
    case True
    then have "mcast_packed_msg_count u = 0" using hu by (simp add: buffer_holds_def)
    then show ?thesis using s0(1) r2 by auto
  next
    case False
    obtain v where "callback_token_received_fn ?e u = Inr v" "mcast_packed_msg_count v = 0"
      using callback_token_sends [OF hu _ False] ro(2) by auto
    then show ?thesis using s0(1) pg_run.token [OF r2] by auto
  qed
qed

text \<open>The message reaches a receiver of the other byte order whose instance 7 is in the group.\<close>

definition demo_receiver :: totempg where
  "demo_receiver = (totempg_start (totemsrp_instance_initialize demo_config))
     \<lparr>totempg_groups_list := [\<lparr>gi_handle = 7, gi_confchg = True, gi_groups = [[97]], gi_q_level = 1\<rparr>]\<rparr>"

theorem messages_reassembled_witness:
  "\<exists>s0 packets s r'. totempg_initialize demo_config 1 512 0 (\<lambda>_. 0) = Inr s0 \<and>
     pg_run (demo_pg_env False) s0 packets [([[97]], [1, 2, 3])] s \<and>
     deliver_packets (demo_pg_env True) 1 True packets demo_receiver = Inr r' \<and>
     pg_effects r' = [Pg_deliver 7 1 [1, 2, 3] True]"
proof -
  obtain s0 packets s where s: "totempg_initialize demo_config 1 512 0 (\<lambda>_. 0) = Inr s0"
      "pg_run (demo_pg_env False) s0 packets [([[97]], [1, 2, 3])] s" "mcast_packed_msg_count s = 0"
    using demo_pg_run by blast
  show ?thesis
    using messages_reassembled [OF s(1) demo_pg_config _ s(2), of "demo_pg_env True" 1 demo_receiver] s
    by (auto simp: demo_receiver_def totempg_start_def active_assembly_list_def group_deliveries_def addressed_def)
qed

text \<open>(C6) Sending a message to groups always returns: the loop that cuts the message into packets ends
  in every state that the sending side can reach. It does not abort either as long as the queue of
  the ring protocol has room for two packets more per I/O vector than the vector fills.\<close>

theorem mcast_groups_returns:
  assumes "totempg_initialize cfg n q now d = Inr s0" "pg_config env cfg n q" "\<forall>k. srp_buffer env k"
    and "pg_run env s0 packets ms s" "message_ok (gs, concat iov)" "length iov + length gs < 63"
  shows "\<exists>res. totempg_groups_mcast_groups env g gs iov s = Some res \<and>
    (int (packets_bound (packet_room s - 2) (filled (group_len_bytes (big_endian env) gs # gs @ iov))) \<le> queue_room s \<longrightarrow>
       (\<exists>ret t. res = Inr (ret, t)))"
proof -
  obtain t where t: "totempg_initialize cfg n q now d = Inr t" "buffer_holds env t [] []" "fragment_continuation t = 0"
    using totempg_initialize_ok [OF assms(2)] by metis
  then have "streaming env s0 packets ms s" using pg_run_streaming [OF assms(4,3)] assms(1) by simp
  then obtain ps where ps: "buffer_holds env s ps []" by (auto simp: streaming_def)
  let ?v = "group_len_bytes (big_endian env) gs # gs @ iov"
  have v: "iovec_mcast env gs iov = Inr ?v"
    using assms(5,6) by (simp add: iovec_mcast_def message_ok_def MAX_GROUPS_PER_MSG_def MAX_IOVECS_FROM_APP_def)
  note sv = sendable_group_msg [OF assms(5,6) v]
  show ?thesis
    using mcast_msg_result [OF ps sv(1) assms(3), of g]
    by (cases; force simp: totempg_groups_mcast_groups_def v)
qed

text \<open>A message with a payload of 100000 bytes, sent in the state after the first one.\<close>

theorem mcast_groups_returns_witness:
  "\<exists>s0 packets s res. totempg_initialize demo_config 1 512 0 (\<lambda>_. 0) = Inr s0 \<and>
     pg_run (demo_pg_env False) s0 packets [([[97]], [1, 2, 3])] s \<and>
     totempg_groups_mcast_groups (demo_pg_env False) 0 [[97]] [replicate 100000 0] s = Some res"
proof -
  obtain s0 packets s where s: "totempg_initialize demo_config 1 512 0 (\<lambda>_. 0) = Inr s0"
      "pg_run (demo_pg_env False) s0 packets [([[97]], [1, 2, 3])] s" using demo_pg_run by blast
  have "message_ok ([[97]], concat [replicate 100000 0])"
    by (simp add: message_ok_def MAX_GROUPS_PER_MSG_def MESSAGE_SIZE_MAX_def)
  from mcast_groups_returns [OF s(1) demo_pg_config _ s(2) this, of 0] s show ?thesis by auto
qed

end
