(* ===== verification/Pg_Guard.thy ===== *)
theory Pg_Guard
  imports Pg_Roundtrip
begin

text \<open>
  The guard of \<open>mcast_msg\<close>. Before it sends anything, \<open>mcast_msg\<close> asks \<open>byte_count_send_ok\<close> whether
  the queue of the ring protocol has room for the packets of the message. The estimate does not
  count a packet that is already almost full, and the loop sends the rest of an I/O vector that is
  longer than a packet even where the rest would fit the next one.
\<close>

text \<open>The steps of the loop on the three I/O vectors of a message to one group.\<close>

lemma guard_steps:
  assumes p: "packing env s [m] []" "length m + 5 = packet_room s" "36 \<le> packet_room s" "queue_room s = 2"
    and k: "\<forall>k. srp_buffer env k" and l: "length h = 4" "length b = 2 * packet_room s - 40"
  shows "mcast_iovecs env g 0 [h, [c], b] (int 0) (int (packet_room s - 2 * (length [m] + 1))) s =
    Some (Inl AssertFailed)"
proof -
  have r: "packet_room s \<le> 65536" using p(1) by (auto simp: packing_def buffer_holds_def mtu_ok_def packet_room_def)
  have c1: "send_len h 0 s [m] [] = 1" using l(1) by (simp add: send_len_def flip: p(2))
  obtain t where t: "packing env t [] []" "packet_room t = packet_room s" "queue_room t = 1"
      "mcast_iovecs env g 0 [h, [c], b] (int 0) (int (packet_room s - 2 * (length [m] + 1))) s =
       mcast_iovecs env g 1 [h, [c], b] (int 1) (int (packet_room t - 2 * (0 + 1))) t"
    using p(2,3,4) l k c1 by (rule_tac send_step [OF p(1), of 0 h 0 "[[c], b]" g]) auto
  let ?u = "fitted h 1 t" and ?v = "fitted [c] 0 (fitted h 1 t)"
  have u: "packing env ?u [] (drop 1 h)" "queue_room ?u = 1" "packet_room ?u = packet_room s"
      "mcast_iovecs env g 1 [h, [c], b] (int 1) (int (packet_room t - 2 * (length ([] :: u8 list list) + 1))) t =
       mcast_iovecs env g 1 [[c], b] (int 0) (int (packet_room ?u - 2 * (length ([] :: u8 list list) + 1))) ?u"
    using pack_fits(1,3) [OF t(1), of 1 h, folded fitted_def] fits_step(1) [OF t(1), of 1 h g 1 "[[c], b]"]
      fits_step(2) [OF t(1), of 1 h] t(2,3) p(3) l(1)
    by simp_all
  have v: "packing env ?v [] (drop 1 h @ [c])" "queue_room ?v = 1" "packet_room ?v = packet_room s"
      "mcast_iovecs env g 1 [[c], b] (int 0) (int (packet_room ?u - 2 * (length ([] :: u8 list list) + 1))) ?u =
       mcast_iovecs env g 1 [b] (int 0) (int (packet_room ?v - 2 * (length ([] :: u8 list list) + 1))) ?v"
    using pack_fits(1,3) [OF u(1), of 0 "[c]", folded fitted_def] fits_step(1) [OF u(1), of 0 "[c]" g 1 "[b]"]
      fits_step(2) [OF u(1), of 0 "[c]"] u(2,3) p(3) l(1)
    by simp_all
  define x where "x = ?v"
  note v = v [folded x_def]
  have c2: "send_len b 0 x [] (drop 1 h @ [c]) = packet_room s - 6" using v(3) p(3) l by (simp add: send_len_def)
  have n: "0 + (packet_room s - 6) \<noteq> length b" "0 < length b" "length b < 2 ^ 31"
      "\<not> length b + length (concat [] @ drop 1 h @ [c]) + 2 * (length ([] :: u8 list list) + 2) < packet_room x"
    using v(3) p(3) l r by auto
  obtain w where w: "packing env w [] []" "packet_room w = packet_room s" "queue_room w = 0"
      "mcast_iovecs env g 1 [b] (int 0) (int (packet_room x - 2 * (length ([] :: u8 list list) + 1))) x =
       mcast_iovecs env g (1 + 1) [b] (int (0 + (packet_room s - 6))) (int (packet_room w - 2 * (0 + 1))) w"
    by (rule send_step [OF v(1) n(2,3) _ _ n(4), of 1 "[]" g, unfolded c2]) (use k v(2,3) n(1) in auto)
  have "mcast_iovecs env g (1 + 1) [b] (int (packet_room s - 6)) (int (packet_room w - 2 * (length ([] :: u8 list list) + 1))) w =
      Some (Inl AssertFailed)"
    using p(3) l(2) w(2) r by (intro send_abort [OF w(1) _ _ w(3)]) auto
  then show ?thesis using t(4) u(4) v(4) w(4) by simp
qed

text \<open>(C35) The check of \<open>mcast_msg\<close> for room in the queue of the ring protocol is too weak. For
  every size of a packet there are a waiting message and a new message of less than two packets such
  that the check finds the room for two packets enough, and sending the new message then takes a
  third one and aborts on the assertion that the queue has room.\<close>

theorem send_guard_too_weak:
  assumes "buffer_holds env s [m] []" "length m + 5 = packet_room s" "36 \<le> packet_room s" "queue_room s = 2"
    and "\<forall>k. srp_buffer env k" "length b = 2 * packet_room s - 40"
  shows "byte_count_send_ok (int (length (group_msg (big_endian env) ([[c]], b)) + 2)) s = Inr True \<and>
    totempg_groups_mcast_groups env g [[c]] [b] s = Some (Inl AssertFailed)"
proof -
  let ?h = "group_len_bytes (big_endian env) [[c]]" and ?r = "packet_room s"
  have r: "ring_ok s" "mtu_ok env s" "?r \<le> 65536" using assms(1) by (auto simp: buffer_holds_def mtu_ok_def packet_room_def)
  have l: "length (group_msg (big_endian env) ([[c]], b)) + 2 = 2 * ?r - 33" using assms(3,6) by (simp add: length_group_msg)
  have d: "(2 * ?r - 33) div (?r - 16) = 1" using assms(3) by (intro div_nat_eqI) auto
  have ok: "byte_count_send_ok (int (length (group_msg (big_endian env) ([[c]], b)) + 2)) s = Inr True"
    unfolding l using byte_count_send_ok_eq [OF r(1,2), of "2 * ?r - 33"] r(3) assms(4) by (simp add: d)
  have v: "iovec_mcast env [[c]] [b] = Inr [?h, [c], b]"
    by (simp add: iovec_mcast_def MAX_GROUPS_PER_MSG_def MAX_IOVECS_FROM_APP_def)
  have h: "length ?h = 4" "?h \<noteq> []" "b \<noteq> []" using assms(3,6) by (auto simp flip: length_greater_0_conv)
  have i: "sendable [?h, [c], b]" using h r(3) assms(3,6) by (auto simp: sendable_def)
  obtain t where t: "mcast_prepare env [?h, [c], b] s =
      Inr (int ((length (concat [?h, [c], b]) + 2 * length [m]) div (?r - 16) + 1) \<le> queue_room s,
           filled [?h, [c], b], int (packet_room t - 2 * (length [m] + 1)), t)"
    "packing env t [m] []" "sent env s [] t" "queue_room t = queue_room s" by (rule mcast_prepare_ok [OF assms(1) i])
  have e: "length (concat [?h, [c], b]) + 2 * length [m] = 2 * ?r - 33" using h(1) assms(3,6) by simp
  have pr: "packet_room t = ?r" using t(3) by (simp add: sent_def)
  have "mcast_iovecs env g 0 [?h, [c], b] (int 0) (int (packet_room t - 2 * (length [m] + 1))) t = Some (Inl AssertFailed)"
    using assms(2-6) pr t(4) h(1) by (intro guard_steps [OF t(2)]) auto
  then have "totempg_groups_mcast_groups env g [[c]] [b] s = Some (Inl AssertFailed)"
    using t(1) [unfolded e d] h(2,3) assms(4) unfolding totempg_groups_mcast_groups_def v mcast_msg_def
    by (simp add: filled_def)
  with ok show ?thesis ..
qed

text \<open>With packets for an MTU of 1500 bytes: 1397 bytes wait, a payload of 2764 bytes is sent.\<close>

theorem send_guard_too_weak_witness:
  "\<exists>s0 s. totempg_initialize demo_config 1 4 0 (\<lambda>_. 0) = Inr s0 \<and>
     s = s0\<lparr>mcast_packed_msg_count := 1, mcast_packed_msg_lens := (\<lambda>_. 1397), fragment_size := 1397\<rparr> \<and>
     totempg_groups_mcast_groups (demo_pg_env False) 0 [[97]] [replicate 2764 0] s = Some (Inl AssertFailed)"
proof -
  let ?e = "demo_pg_env False" and ?m = "replicate 1397 (0 :: u8)"
  have c: "pg_config ?e demo_config 1 4" by (simp add: pg_config_def sizeof_mcast_def demo_config_def)
  obtain s0 where s0: "totempg_initialize demo_config 1 4 0 (\<lambda>_. 0) = Inr s0" "buffer_holds ?e s0 [] []"
      "packet_room s0 + 8 + 2 * sizeof_mcast = unat (net_mtu demo_config)" "queue_room s0 = int 4 - 2"
    using totempg_initialize_ok [OF c] by metis
  define s where "s = s0\<lparr>mcast_packed_msg_count := 1, mcast_packed_msg_lens := (\<lambda>_. 1397), fragment_size := 1397\<rparr>"
  have d: "fragmentation_data s0 = (\<lambda>_. 0)" using s0(1)
    by (auto simp: totempg_initialize_def Let_def bindE_eq_Inr)
  have v: "ring_ok s = ring_ok s0 \<and> queued s = queued s0 \<and> queue_room s = queue_room s0 \<and> packet_room s = packet_room s0"
    by (rule ring_views) (simp add: s_def)
  have pr: "packet_room s = 1402" using s0(3) v by (simp add: sizeof_mcast_def demo_config_def)
  have "get_bytes (fragmentation_data s) 0 1397 = ?m" by (simp add: s_def d get_bytes_def map_replicate_const)
  then have b: "buffer_holds ?e s [?m] []"
    using s0(2) v pr by (auto simp: buffer_holds_def mtu_ok_def s_def)
  show ?thesis
    using send_guard_too_weak [OF b, of "replicate 2764 0" 97 0] s0(1,4) v pr unfolding s_def by auto
qed

end
