(* ===== verification/Spec2Isabelle.thy ===== *)
theory Spec2Isabelle
  imports Vq_Behaviour Vq_Protocol Srp_Flow Srp_Election Pg_Guard
begin

text \<open>
  A verification development for the corosync cluster engine.
\<close>

end
